(* ===== verification/Prelude.thy ===== *)
theory Prelude
  imports
    Main
    "HOL-Library.Word"
    "HOL-Library.List_Lexorder"
    "HOL-Library.Char_ord"
    "HOL-Library.Product_Lexorder"
    "HOL-Library.Multiset"
begin

text \<open>
  The prelude of the development: what the Go language and its standard library give every
  component of the scheduler (machine integers, stable sorting, maps read with a zero value,
  strings), the collections of rewrite rules the component theories fill, and the generic
  lemmas on lists they share.
\<close>

named_theorems go_time_simps "comparison and arithmetic of instants, unfolded to integers"
named_theorems domain_simps "functional equations of the pure scheduling domain"
named_theorems db_simps "equations of the modelled SQL statements"
named_theorems wire_simps "equations of the HTTP layer"

section \<open>Machine integers\<close>

text \<open>
  Go's \<^verbatim>\<open>int64\<close> (and \<^verbatim>\<open>time.Duration\<close>): values are integers, and an operation that can leave
  the range is reduced to the two's complement value of 64 bits.
\<close>

definition wrap64 :: "int \<Rightarrow> int" where
  "wrap64 n = sint (word_of_int n :: 64 word)"

definition max_int64 :: int where "max_int64 = 9223372036854775807"
definition min_int64 :: int where "min_int64 = -9223372036854775808"

lemma wrap64_id:
  assumes "min_int64 \<le> n" and "n \<le> max_int64"
  shows "wrap64 n = n"
proof -
  have "signed_take_bit 63 n = n"
    using assms by (simp add: min_int64_def max_int64_def signed_take_bit_int_eq_self)
  then show ?thesis by (simp add: wrap64_def sint_sbintrunc')
qed

lemma wrap64_bounds: "min_int64 \<le> wrap64 n \<and> wrap64 n \<le> max_int64"
  using sint_ge [of "word_of_int n :: 64 word"] sint_lt [of "word_of_int n :: 64 word"]
  by (simp add: wrap64_def min_int64_def max_int64_def)

text \<open>Go's integer division truncates towards zero.\<close>

definition trunc_div :: "int \<Rightarrow> int \<Rightarrow> int" where
  "trunc_div n k = (if (n < 0) = (k < 0) then \<bar>n\<bar> div \<bar>k\<bar> else - (\<bar>n\<bar> div \<bar>k\<bar>))"

lemma trunc_div_nonneg: "0 \<le> a \<Longrightarrow> 0 < b \<Longrightarrow> trunc_div a b = a div b"
  by (simp add: trunc_div_def)

section \<open>Maps with a zero value\<close>

text \<open>Reading a Go map at a missing key gives the zero value of the element type.\<close>

definition map_get :: "'v \<Rightarrow> ('k \<rightharpoonup> 'v) \<Rightarrow> 'k \<Rightarrow> 'v" where
  "map_get zero m k = (case m k of None \<Rightarrow> zero | Some v \<Rightarrow> v)"

lemma map_get_Some [simp]: "m k = Some v \<Longrightarrow> map_get z m k = v"
  by (simp add: map_get_def)

lemma map_get_None [simp]: "m k = None \<Longrightarrow> map_get z m k = z"
  by (simp add: map_get_def)

section \<open>Stable sorting\<close>

text \<open>
  \<^verbatim>\<open>sort.SliceStable\<close> and \<^verbatim>\<open>sort.Strings\<close>: a stable sort by the caller's strict comparison.
  The insertion keeps an element before the first one that is not smaller.
\<close>

fun insert_by :: "('a \<Rightarrow> 'a \<Rightarrow> bool) \<Rightarrow> 'a \<Rightarrow> 'a list \<Rightarrow> 'a list" where
  "insert_by lt x [] = [x]"
| "insert_by lt x (y # ys) = (if lt y x then y # insert_by lt x ys else x # y # ys)"

fun slice_stable :: "('a \<Rightarrow> 'a \<Rightarrow> bool) \<Rightarrow> 'a list \<Rightarrow> 'a list" where
  "slice_stable lt [] = []"
| "slice_stable lt (x # xs) = insert_by lt x (slice_stable lt xs)"

lemma insert_by_key: "insert_by (\<lambda>a b. f a < f b) x ys = insort_key f x ys"
  for f :: "'a \<Rightarrow> 'b::linorder"
  by (induction ys) auto

lemma slice_stable_key: "slice_stable (\<lambda>a b. f a < f b) xs = sort_key f xs"
  for f :: "'a \<Rightarrow> 'b::linorder"
  by (induction xs) (simp_all add: insert_by_key)

lemma slice_stable_sort: "slice_stable (<) xs = sort xs" for xs :: "'a::linorder list"
  using slice_stable_key [of "\<lambda>x. x" xs] by simp

text \<open>The first element after sorting is a least one.\<close>

lemma hd_sort_key_least:
  fixes f :: "'a \<Rightarrow> 'b::linorder"
  assumes "xs \<noteq> []"
  shows "hd (sort_key f xs) \<in> set xs \<and> (\<forall>y \<in> set xs. f (hd (sort_key f xs)) \<le> f y)"
proof -
  obtain y ys where s: "sort_key f xs = y # ys"
    using assms by (metis length_0_conv length_sort neq_Nil_conv)
  then have set: "set (y # ys) = set xs" by (metis set_sort)
  have "sorted (map f (y # ys))" using s sorted_sort_key [of f xs] by simp
  then show ?thesis using s set by auto
qed

lemma filter_eq_replicate: "filter (\<lambda>x. x = k) xs = replicate (count (mset xs) k) k"
  by (induction xs) auto

text \<open>Sorting by an injective key forgets the order of the input.\<close>

lemma sort_key_inj_perm:
  fixes f :: "'a \<Rightarrow> 'b::linorder"
  assumes "mset xs = mset ys" and "inj_on f (set xs)"
  shows "sort_key f xs = sort_key f ys"
proof (rule properties_for_sort_key)
  show "mset (sort_key f ys) = mset xs" using assms(1) by simp
  show "sorted (map f (sort_key f ys))" by simp
  fix k assume k: "k \<in> set (sort_key f ys)"
  have same: "set (sort_key f ys) = set xs" using assms(1) by (metis set_mset_mset set_sort)
  have eq: "\<And>x. x \<in> set xs \<Longrightarrow> (f k = f x) = (x = k)"
    using assms(2) k same by (auto simp: inj_on_def)
  have "filter (\<lambda>x. f k = f x) (sort_key f ys) = filter (\<lambda>x. x = k) (sort_key f ys)"
    using eq same by (intro filter_cong) simp_all
  moreover have "filter (\<lambda>x. f k = f x) xs = filter (\<lambda>x. x = k) xs"
    using eq by (intro filter_cong) simp_all
  moreover have "filter (\<lambda>x. x = k) (sort_key f ys) = filter (\<lambda>x. x = k) xs"
    using assms(1) by (simp add: filter_eq_replicate)
  ultimately show "filter (\<lambda>x. f k = f x) (sort_key f ys) = filter (\<lambda>x. f k = f x) xs" by simp
qed

text \<open>A family indexed by the naturals, split at its first member.\<close>

lemma indexed_family_step:
  fixes P :: "nat \<Rightarrow> bool"
  shows "{f k | k. P k} = (if P 0 then {f 0} else {}) \<union> {f (Suc k) | k. P (Suc k)}"
proof -
  have "{f k | k. P k} = f ` {k. P k}" by blast
  also have "{k. P k} = (if P 0 then {0} else {}) \<union> Suc ` {k. P (Suc k)}"
  proof (intro set_eqI iffI)
    fix k assume "k \<in> {k. P k}"
    then show "k \<in> (if P 0 then {0} else {}) \<union> Suc ` {k. P (Suc k)}" by (cases k) auto
  qed (auto split: if_splits)
  finally show ?thesis by auto
qed

text \<open>A reflexive and transitive relation kept by each step is kept by a fold of steps.\<close>

lemma fold_keeps:
  assumes "\<And>s. R s s" "\<And>s t u. R s t \<Longrightarrow> R t u \<Longrightarrow> R s u"
    and "\<And>x s. x \<in> set xs \<Longrightarrow> R s (f x s)"
  shows "R s (fold f xs s)"
  using assms(3)
proof (induction xs arbitrary: s)
  case (Cons x xs)
  then have "R s (f x s)" "R (f x s) (fold f xs (f x s))" by auto
  then show ?case using assms(2) by simp
qed (simp add: assms(1))

end
