(* ===== verification/GoTime.thy ===== *)
theory GoTime
  imports Prelude
begin

text \<open>
  The part of Go's \<^verbatim>\<open>time\<close> package the scheduler uses: instants with a location, durations,
  the proleptic Gregorian calendar behind \<^verbatim>\<open>time.Date\<close>, \<^verbatim>\<open>Year/Month/Day/Weekday\<close> and
  \<^verbatim>\<open>Format\<close>. An instant is the number of nanoseconds since 1970-01-01T00:00:00Z; a location
  is its name with the lookup the standard library derives from the IANA data (the offset in
  force at a second, and the bounds of the period in which it is in force). The zone data itself
  is not part of the repository: every theorem is about an arbitrary lookup, with its hypotheses
  on it stated by the predicate \<open>steady\<close>.
\<close>

section \<open>Instants, durations and locations\<close>

record location =
  loc_name :: string
  loc_lookup :: "int \<Rightarrow> int \<times> int \<times> int"

record gtime =
  t_ns :: int
  t_loc :: location

type_synonym duration = int

definition nanosecond :: duration where "nanosecond = 1"
definition second :: duration where "second = 1000000000"
definition minute :: duration where "minute = 60000000000"
definition hour :: duration where "hour = 3600000000000"

definition utc_lookup :: "int \<Rightarrow> int \<times> int \<times> int" where
  "utc_lookup s = (0, min_int64, max_int64)"

definition UTC :: location where
  "UTC = \<lparr>loc_name = ''UTC'', loc_lookup = utc_lookup\<rparr>"

definition fixed_zone :: "string \<Rightarrow> int \<Rightarrow> location" where
  "fixed_zone name off = \<lparr>loc_name = name, loc_lookup = (\<lambda>s. (off, min_int64, max_int64))\<rparr>"

definition zero_time :: gtime where
  "zero_time = \<lparr>t_ns = -62135596800 * second, t_loc = UTC\<rparr>"

definition add_duration :: "gtime \<Rightarrow> duration \<Rightarrow> gtime" where
  "add_duration t d = t\<lparr>t_ns := t_ns t + d\<rparr>"

text \<open>\<^verbatim>\<open>Sub\<close> saturates at the range of a duration.\<close>

definition sub_time :: "gtime \<Rightarrow> gtime \<Rightarrow> duration" where
  "sub_time t u = max min_int64 (min max_int64 (t_ns t - t_ns u))"

definition before :: "gtime \<Rightarrow> gtime \<Rightarrow> bool" where "before t u \<longleftrightarrow> t_ns t < t_ns u"
definition after :: "gtime \<Rightarrow> gtime \<Rightarrow> bool" where "after t u \<longleftrightarrow> t_ns t > t_ns u"
definition in_loc :: "gtime \<Rightarrow> location \<Rightarrow> gtime" where "in_loc t l = t\<lparr>t_loc := l\<rparr>"

lemma before_iff [go_time_simps]: "before t u \<longleftrightarrow> t_ns t < t_ns u"
  by (simp add: before_def)

lemma after_iff [go_time_simps]: "after t u \<longleftrightarrow> t_ns u < t_ns t"
  by (simp add: after_def)

lemma add_duration_ns [simp]: "t_ns (add_duration t d) = t_ns t + d"
  by (simp add: add_duration_def)

lemma add_duration_loc [simp]: "t_loc (add_duration t d) = t_loc t"
  by (simp add: add_duration_def)

lemma in_loc_ns [simp]: "t_ns (in_loc t l) = t_ns t"
  by (simp add: in_loc_def)

lemma in_loc_loc [simp]: "t_loc (in_loc t l) = l"
  by (simp add: in_loc_def)

text \<open>\<^verbatim>\<open>int(d.Minutes())\<close>: whole minutes, truncated towards zero.\<close>

definition duration_minutes :: "duration \<Rightarrow> int" where
  "duration_minutes d = trunc_div d minute"

lemma duration_minutes_whole: "0 \<le> k \<Longrightarrow> duration_minutes (k * minute) = k"
  by (simp add: duration_minutes_def trunc_div_nonneg minute_def)

section \<open>The civil calendar\<close>

definition is_leap :: "int \<Rightarrow> bool" where
  "is_leap y \<longleftrightarrow> y mod 4 = 0 \<and> (y mod 100 \<noteq> 0 \<or> y mod 400 = 0)"

text \<open>Days from 0001-01-01 to January 1st of a year, and from that day to the first of a month.\<close>

definition days_before_year :: "int \<Rightarrow> int" where
  "days_before_year y = 365 * (y - 1) + (y - 1) div 4 - (y - 1) div 100 + (y - 1) div 400"

definition days_before_month :: "bool \<Rightarrow> int \<Rightarrow> int" where
  "days_before_month leap m =
     (let l = (if leap then 1 else 0) in
      if m \<le> 1 then 0 else if m = 2 then 31 else if m = 3 then 59 + l else if m = 4 then 90 + l
      else if m = 5 then 120 + l else if m = 6 then 151 + l else if m = 7 then 181 + l
      else if m = 8 then 212 + l else if m = 9 then 243 + l else if m = 10 then 273 + l
      else if m = 11 then 304 + l else if m = 12 then 334 + l else 365 + l)"

definition days_in_month :: "int \<Rightarrow> int \<Rightarrow> int" where
  "days_in_month y m = days_before_month (is_leap y) (m + 1) - days_before_month (is_leap y) m"

definition unix_epoch_days :: int where "unix_epoch_days = 719162"

definition valid_civil :: "int \<Rightarrow> int \<Rightarrow> int \<Rightarrow> bool" where
  "valid_civil y m d \<longleftrightarrow> 1 \<le> m \<and> m \<le> 12 \<and> 1 \<le> d \<and> d \<le> days_in_month y m"

text \<open>Days since the Unix epoch of a civil date; a month outside 1 to 12 is normalised.\<close>

definition days_of_civil :: "int \<Rightarrow> int \<Rightarrow> int \<Rightarrow> int" where
  "days_of_civil y m d =
     (let y' = y + (m - 1) div 12; m' = (m - 1) mod 12 + 1
      in days_before_year y' + days_before_month (is_leap y') m' + (d - 1) - unix_epoch_days)"

definition year_of_days :: "int \<Rightarrow> int" where
  "year_of_days n =
     (let r = n mod 146097; c = min 3 (r div 36524); r1 = r - 36524 * c;
          f = r1 div 1461; r2 = r1 mod 1461; g = min 3 (r2 div 365)
      in 400 * (n div 146097) + 100 * c + 4 * f + g + 1)"

definition month_of_yday :: "bool \<Rightarrow> int \<Rightarrow> int" where
  "month_of_yday leap yd =
     (let l = (if leap then 1 else 0) in
      if yd < 31 then 1 else if yd < 59 + l then 2 else if yd < 90 + l then 3
      else if yd < 120 + l then 4 else if yd < 151 + l then 5 else if yd < 181 + l then 6
      else if yd < 212 + l then 7 else if yd < 243 + l then 8 else if yd < 273 + l then 9
      else if yd < 304 + l then 10 else if yd < 334 + l then 11 else 12)"

definition civil_of_days :: "int \<Rightarrow> int \<times> int \<times> int" where
  "civil_of_days n =
     (let k = n + unix_epoch_days; y = year_of_days k; yd = k - days_before_year y;
          m = month_of_yday (is_leap y) yd
      in (y, m, yd - days_before_month (is_leap y) m + 1))"

text \<open>Day 0, 1970-01-01, is a Thursday; Sunday is 0 as in \<^verbatim>\<open>time.Weekday\<close>.\<close>

definition weekday_of_days :: "int \<Rightarrow> int" where
  "weekday_of_days n = (n + 4) mod 7"

lemma weekday_of_days_range: "0 \<le> weekday_of_days n \<and> weekday_of_days n \<le> 6"
proof -
  have "0 \<le> (n + 4) mod 7" and "(n + 4) mod 7 < 7" by simp_all
  then show ?thesis by (simp add: weekday_of_days_def)
qed

lemma div_pred_diff:
  fixes y k :: int
  assumes "0 < k"
  shows "y div k - (y - 1) div k = (if y mod k = 0 then 1 else 0)"
proof (cases "y mod k = 0")
  case True
  then have "y = k * (y div k)" using mult_div_mod_eq [of k y] by simp
  then have "y - 1 = k * (y div k - 1) + (k - 1)" unfolding right_diff_distrib by linarith
  then have "(y - 1) div k = y div k - 1"
    using assms by (intro int_div_pos_eq [where r = "k - 1"]) auto
  with True show ?thesis by simp
next
  case False
  then have r: "0 < y mod k" using pos_mod_sign [OF assms, of y] by linarith
  have "y - 1 = k * (y div k) + (y mod k - 1)" using mult_div_mod_eq [of k y] by simp
  then have "(y - 1) div k = y div k"
    using r pos_mod_bound [OF assms, of y] by (intro int_div_pos_eq [where r = "y mod k - 1"]) auto
  with False show ?thesis by simp
qed

lemma leap_rule_sum:
  fixes e :: int
  assumes "d4 - e4 = (if p then 1 else 0)" "d100 - e100 = (if q then 1 else 0)"
    and "d400 - e400 = (if r then 1 else 0)" "q \<Longrightarrow> p" "r \<Longrightarrow> q"
  shows "e + 365 + d4 - d100 + d400 =
    (e + e4 - e100 + e400) + (if p \<and> (\<not> q \<or> r) then 366 else 365)"
  using assms by (cases p; cases q; cases r) simp_all

lemma days_before_year_step:
  "days_before_year (y + 1) = days_before_year y + (if is_leap y then 366 else 365)"
proof -
  have "(0::int) < 4" "(0::int) < 100" "(0::int) < 400" by simp_all
  note d = this [THEN div_pred_diff, of y]
  have m: "y mod 100 = 0 \<Longrightarrow> y mod 4 = 0" "y mod 400 = 0 \<Longrightarrow> y mod 100 = 0"
    using mod_mod_cancel [of 4 100 y] mod_mod_cancel [of 100 400 y] by simp_all
  from leap_rule_sum [OF d m, of "365 * (y - 1)"]
  have "365 * (y - 1) + 365 + y div 4 - y div 100 + y div 400 =
      days_before_year y + (if is_leap y then 366 else 365)"
    unfolding days_before_year_def is_leap_def by assumption
  moreover have "days_before_year (y + 1) = 365 * (y - 1) + 365 + y div 4 - y div 100 + y div 400"
    unfolding days_before_year_def by simp
  ultimately show ?thesis by (rule trans [rotated])
qed

lemma days_before_year_mono: "y \<le> z \<Longrightarrow> days_before_year y \<le> days_before_year z"
proof (induction z rule: int_ge_induct)
  case (step i)
  then show ?case using days_before_year_step [of i] by (auto split: if_splits)
qed simp

text \<open>The cycle decomposition finds the year whose days hold day \<open>n\<close>.\<close>

lemma year_of_days_bounds:
  "days_before_year (year_of_days n) \<le> n \<and> n < days_before_year (year_of_days n + 1)"
proof -
  define q r where "q = n div 146097" and "r = n mod 146097"
  define c where "c = min 3 (r div 36524)"
  define f where "f = (r - 36524 * c) div 1461"
  define r2 where "r2 = (r - 36524 * c) mod 1461"
  define g where "g = min 3 (r2 div 365)"
  define z where "z = 400 * q + 100 * c + 4 * f + g"
  have n: "n = 146097 * q + r" and r: "0 \<le> r" "r < 146097"
    by (simp_all add: q_def r_def)
  have c: "0 \<le> c" "c \<le> 3" "0 \<le> r - 36524 * c" "r - 36524 * c < 36525"
      "c < 3 \<Longrightarrow> r - 36524 * c < 36524"
    using r unfolding c_def by (auto simp: min_def)
  have split: "r - 36524 * c = 1461 * f + r2" and r2: "0 \<le> r2" "r2 < 1461"
    by (simp_all add: f_def r2_def)
  have f: "0 \<le> f" "f \<le> 24" using c split r2 by linarith+
  have g: "0 \<le> g" "g \<le> 3" "0 \<le> r2 - 365 * g" "r2 - 365 * g < 366"
      "g < 3 \<Longrightarrow> r2 - 365 * g < 365"
    using r2 unfolding g_def by (auto simp: min_def)
  have zdiv: "z div 4 = 100 * q + 25 * c + f" "z div 100 = 4 * q + c" "z div 400 = q"
    using c(1,2) f g(1,2) int_div_pos_eq [of z 4 "100 * q + 25 * c + f" g]
      int_div_pos_eq [of z 100 "4 * q + c" "4 * f + g"]
      int_div_pos_eq [of z 400 q "100 * c + 4 * f + g"] by (simp_all add: z_def)
  have dby: "days_before_year (z + 1) = 146097 * q + 36524 * c + 1461 * f + 365 * g"
    unfolding days_before_year_def using zdiv by (simp add: z_def)
  have yd: "n = days_before_year (z + 1) + (r2 - 365 * g)" using n split dby by simp
  have leap: "is_leap (z + 1) \<or> r2 - 365 * g < 365"
  proof (rule disjCI)
    assume "\<not> r2 - 365 * g < 365"
    then have g3: "g = 3" and yd3: "r2 = 1460" using g r2 by linarith+
    have fc: "f \<noteq> 24 \<or> c = 3" using c(2,5) split yd3 by (cases "c = 3") auto
    have z4: "(z + 1) mod 4 = 0"
      by (rule int_mod_pos_eq [where q = "100 * q + 25 * c + f + 1"]) (simp_all add: z_def g3)
    show "is_leap (z + 1)"
    proof (cases "f = 24")
      case True
      then have "(z + 1) mod 400 = 0"
        using fc by (intro int_mod_pos_eq [where q = "q + 1"]) (simp_all add: z_def g3)
      with z4 show ?thesis by (simp add: is_leap_def)
    next
      case False
      then have "(z + 1) mod 100 = 4 * f + 4"
        using f by (intro int_mod_pos_eq [where q = "4 * q + c"]) (simp_all add: z_def g3)
      with z4 f(1) show ?thesis unfolding is_leap_def by linarith
    qed
  qed
  have "n < days_before_year (z + 1 + 1)"
    using days_before_year_step [of "z + 1"] leap yd g(4) by (auto split: if_splits)
  moreover have "year_of_days n = z + 1"
    by (simp add: year_of_days_def Let_def z_def q_def r_def c_def f_def r2_def g_def)
  ultimately show ?thesis using yd g(3) by simp
qed

lemma year_of_days_unique:
  assumes "days_before_year y \<le> n" and "n < days_before_year (y + 1)"
  shows "year_of_days n = y"
proof (rule ccontr)
  assume "year_of_days n \<noteq> y"
  then consider "year_of_days n + 1 \<le> y" | "y + 1 \<le> year_of_days n" by linarith
  then show False
    using assms year_of_days_bounds [of n] days_before_year_mono by cases (meson leD order_trans)+
qed

lemma month_of_yday_days:
  assumes "1 \<le> m" "m \<le> 12" "days_before_month leap m \<le> yd" "yd < days_before_month leap (m + 1)"
  shows "month_of_yday leap yd = m"
proof -
  have "m \<in> {1, 2, 3, 4, 5, 6, 7, 8, 9, 10, 11, 12}" using assms(1,2) unfolding insert_iff empty_iff by presburger
  then show ?thesis
    using assms(3,4) by (auto simp: days_before_month_def month_of_yday_def Let_def split: if_splits)
qed

lemma month_of_yday_bounds:
  assumes "0 \<le> yd" "yd < (if leap then 366 else 365)"
  shows "1 \<le> month_of_yday leap yd \<and> month_of_yday leap yd \<le> 12 \<and>
         days_before_month leap (month_of_yday leap yd) \<le> yd \<and>
         yd < days_before_month leap (month_of_yday leap yd + 1)"
  using assms by (auto simp: days_before_month_def month_of_yday_def Let_def split: if_splits)

lemma days_before_month_range:
  assumes "1 \<le> m" "m \<le> 12"
  shows "0 \<le> days_before_month leap m \<and>
         days_before_month leap (m + 1) \<le> (if leap then 366 else 365)"
  using assms by (auto simp: days_before_month_def Let_def)

lemma days_of_civil_valid:
  assumes "1 \<le> m" "m \<le> 12"
  shows "days_of_civil y m d =
    days_before_year y + days_before_month (is_leap y) m + (d - 1) - unix_epoch_days"
  using assms by (simp add: days_of_civil_def Let_def div_pos_pos_trivial)

lemma civil_of_days_of_civil:
  assumes "valid_civil y m d"
  shows "civil_of_days (days_of_civil y m d) = (y, m, d)"
proof -
  have m: "1 \<le> m" "m \<le> 12" and d: "1 \<le> d"
      "d \<le> days_before_month (is_leap y) (m + 1) - days_before_month (is_leap y) m"
    using assms by (auto simp: valid_civil_def days_in_month_def)
  define k where "k = days_of_civil y m d + unix_epoch_days"
  have k: "k = days_before_year y + (days_before_month (is_leap y) m + (d - 1))"
    by (simp add: k_def days_of_civil_valid [OF m])
  have year: "year_of_days k = y"
    using days_before_month_range [OF m, of "is_leap y"] d k days_before_year_step [of y]
    by (intro year_of_days_unique) (auto split: if_splits)
  have "month_of_yday (is_leap y) (days_before_month (is_leap y) m + (d - 1)) = m"
    using d by (intro month_of_yday_days [OF m]) linarith+
  then show ?thesis
    using year k unfolding civil_of_days_def by (simp add: Let_def k_def)
qed

lemma civil_of_days_inverse:
  assumes "civil_of_days n = (y, m, d)"
  shows "valid_civil y m d \<and> days_of_civil y m d = n"
proof -
  define k where "k = n + unix_epoch_days"
  define yd where "yd = k - days_before_year (year_of_days k)"
  have y: "y = year_of_days k" and m: "m = month_of_yday (is_leap y) yd"
      and d: "d = yd - days_before_month (is_leap y) m + 1"
    using assms by (auto simp: civil_of_days_def Let_def k_def yd_def)
  have "0 \<le> yd" "yd < (if is_leap y then 366 else 365)"
    using year_of_days_bounds [of k] days_before_year_step [of y] by (auto simp: yd_def y)
  note b = month_of_yday_bounds [OF this, folded m]
  have "valid_civil y m d" using b d by (simp add: valid_civil_def days_in_month_def)
  moreover have "days_of_civil y m d = n"
    using b d by (simp add: days_of_civil_valid yd_def y k_def)
  ultimately show ?thesis by simp
qed

section \<open>The local clock of an instant\<close>

definition day_seconds :: int where "day_seconds = 86400"

definition unix_sec :: "gtime \<Rightarrow> int" where "unix_sec t = t_ns t div second"
definition nsec_of :: "gtime \<Rightarrow> int" where "nsec_of t = t_ns t mod second"

definition offset_at :: "location \<Rightarrow> int \<Rightarrow> int" where
  "offset_at l s = fst (loc_lookup l s)"

definition local_sec :: "gtime \<Rightarrow> int" where
  "local_sec t = unix_sec t + offset_at (t_loc t) (unix_sec t)"

definition civil_of_time :: "gtime \<Rightarrow> int \<times> int \<times> int" where
  "civil_of_time t = civil_of_days (local_sec t div day_seconds)"

text \<open>
  \<^verbatim>\<open>time.Date\<close>: the wall clock read as if it were UTC, then moved by the offset found there, or
  by the offset found at the moved instant when the first one is not in force at it.
\<close>

definition wall_sec :: "int \<Rightarrow> int \<Rightarrow> int \<Rightarrow> int \<Rightarrow> int \<Rightarrow> int \<Rightarrow> int" where
  "wall_sec y m d h mi s = days_of_civil y m d * day_seconds + h * 3600 + mi * 60 + s"

definition resolve_wall :: "location \<Rightarrow> int \<Rightarrow> int" where
  "resolve_wall l u =
     (let (off, st, en) = loc_lookup l u in
      if off = 0 then u
      else let utc = u - off in
           if utc < st \<or> en \<le> utc then u - offset_at l utc else utc)"

definition go_date :: "int \<Rightarrow> int \<Rightarrow> int \<Rightarrow> int \<Rightarrow> int \<Rightarrow> int \<Rightarrow> int \<Rightarrow> location \<Rightarrow> gtime" where
  "go_date y m d h mi s n l =
     \<lparr>t_ns = resolve_wall l (wall_sec y m d h mi (s + n div second)) * second + n mod second,
      t_loc = l\<rparr>"

lemma go_date_loc [simp]: "t_loc (go_date y m d h mi s n l) = l"
  by (simp add: go_date_def)

text \<open>The zone keeps one offset from second \<open>a\<close> until second \<open>b\<close>, and its lookup says so.\<close>

definition steady :: "location \<Rightarrow> int \<Rightarrow> int \<Rightarrow> int \<Rightarrow> bool" where
  "steady l off a b \<longleftrightarrow>
     (\<forall>s. a \<le> s \<and> s < b \<longrightarrow> (\<exists>st en. loc_lookup l s = (off, st, en) \<and> st \<le> a \<and> b \<le> en))"

lemma steady_lookup:
  assumes "steady l off a b" "a \<le> s" "s < b"
  obtains st en where "loc_lookup l s = (off, st, en)" "st \<le> a" "b \<le> en"
  using assms unfolding steady_def by blast

lemma offset_at_steady: "steady l off a b \<Longrightarrow> a \<le> s \<Longrightarrow> s < b \<Longrightarrow> offset_at l s = off"
  by (erule (2) steady_lookup) (simp add: offset_at_def)

lemma resolve_wall_steady:
  assumes "steady l off a b" "a \<le> u" "u < b" "a \<le> u - off" "u - off < b"
  shows "resolve_wall l u = u - off"
proof -
  obtain st en where "loc_lookup l u = (off, st, en)" "st \<le> a" "b \<le> en"
    using assms(1-3) by (rule steady_lookup)
  then show ?thesis using assms(4,5) by (simp add: resolve_wall_def Let_def)
qed

lemma steady_fixed_zone:
  "min_int64 \<le> a \<Longrightarrow> b \<le> max_int64 \<Longrightarrow> steady (fixed_zone nm off) off a b"
  by (simp add: steady_def fixed_zone_def)

text \<open>The civil reading of an instant inside a steady period.\<close>

lemma local_sec_steady:
  assumes "steady (t_loc t) off a b" "a * second \<le> t_ns t" "t_ns t < b * second"
  shows "local_sec t = unix_sec t + off"
proof -
  have "a \<le> unix_sec t"
    using zdiv_mono1 [OF assms(2), of second] by (simp add: unix_sec_def second_def)
  moreover have "unix_sec t < b"
    using assms(3) by (simp add: unix_sec_def second_def div_less_iff_less_mult)
  ultimately show ?thesis by (simp add: local_sec_def offset_at_steady [OF assms(1)])
qed

section \<open>Formatting\<close>

definition digit_char :: "int \<Rightarrow> char" where "digit_char k = char_of (48 + nat k)"

fun decimal :: "nat \<Rightarrow> string" where
  "decimal n = (if n < 10 then [digit_char (int n)] else decimal (n div 10) @ [digit_char (int (n mod 10))])"

declare decimal.simps [simp del]

definition zero_pad :: "nat \<Rightarrow> string \<Rightarrow> string" where
  "zero_pad w s = replicate (w - length s) CHR ''0'' @ s"

definition append_int :: "nat \<Rightarrow> int \<Rightarrow> string" where
  "append_int w n = (if n < 0 then CHR ''-'' # zero_pad w (decimal (nat (- n))) else zero_pad w (decimal (nat n)))"

text \<open>\<^verbatim>\<open>fmt.Sprintf("%0wd")\<close> counts the sign in the width.\<close>

definition sprintf_0d :: "nat \<Rightarrow> int \<Rightarrow> string" where
  "sprintf_0d w n = (if n < 0 then CHR ''-'' # zero_pad (w - 1) (decimal (nat (- n))) else zero_pad w (decimal (nat n)))"

definition format_hhmm :: "gtime \<Rightarrow> string" where
  "format_hhmm t = (let s = local_sec t mod day_seconds
     in append_int 2 (s div 3600) @ '':'' @ append_int 2 (s div 60 mod 60))"

definition format_zone :: "int \<Rightarrow> string" where
  "format_zone off =
     (if off = 0 then ''Z''
      else let z = trunc_div off 60; a = \<bar>z\<bar>
           in (if z < 0 then ''-'' else ''+'') @ append_int 2 (a div 60) @ '':'' @ append_int 2 (a mod 60))"

definition format_date_clock :: "gtime \<Rightarrow> string" where
  "format_date_clock t =
     (case civil_of_time t of (y, m, d) \<Rightarrow>
        append_int 4 y @ ''-'' @ append_int 2 m @ ''-'' @ append_int 2 d @ ''T'' @ format_hhmm t @ '':''
        @ append_int 2 (local_sec t mod 60))"

definition format_rfc3339 :: "gtime \<Rightarrow> string" where
  "format_rfc3339 t = format_date_clock t @ format_zone (offset_at (t_loc t) (unix_sec t))"

text \<open>\<^verbatim>\<open>RFC3339Nano\<close> adds the fraction of the second without its trailing zeros.\<close>

definition format_fraction :: "int \<Rightarrow> string" where
  "format_fraction n =
     (if n = 0 then []
      else CHR ''.'' # rev (dropWhile (\<lambda>c. c = CHR ''0'') (rev (append_int 9 n))))"

definition format_rfc3339_nano :: "gtime \<Rightarrow> string" where
  "format_rfc3339_nano t = format_date_clock t @ format_fraction (nsec_of t)
     @ format_zone (offset_at (t_loc t) (unix_sec t))"

end
