(* ===== verification/Interval.thy ===== *)
theory Interval
  imports GoTime
begin

text \<open>
  \<^verbatim>\<open>internal/domain/interval.go\<close>: half-open time ranges. The abstract reading of an interval is
  the set of instants it holds; \<open>Overlaps\<close> decides whether two of them meet, and adjacency is
  not overlap.
\<close>

record interval =
  iv_start :: gtime
  iv_end :: gtime

definition zero_interval :: interval where
  "zero_interval = \<lparr>iv_start = zero_time, iv_end = zero_time\<rparr>"

definition NewInterval :: "gtime \<Rightarrow> duration \<Rightarrow> interval" where
  "NewInterval start d = \<lparr>iv_start = start, iv_end = add_duration start d\<rparr>"

definition Duration :: "interval \<Rightarrow> duration" where
  "Duration i = sub_time (iv_end i) (iv_start i)"

definition Overlaps :: "interval \<Rightarrow> interval \<Rightarrow> bool" where
  "Overlaps i j \<longleftrightarrow> before (iv_start i) (iv_end j) \<and> before (iv_start j) (iv_end i)"

fun OverlapsAny :: "interval \<Rightarrow> interval list \<Rightarrow> bool" where
  "OverlapsAny i [] = False"
| "OverlapsAny i (j # others) = (if Overlaps i j then True else OverlapsAny i others)"

definition interval_text :: "interval \<Rightarrow> string" where
  "interval_text i = ''['' @ format_rfc3339 (iv_start i) @ '', '' @ format_rfc3339 (iv_end i) @ '')''"

lemma NewInterval_sel [simp]:
  "iv_start (NewInterval t d) = t" "iv_end (NewInterval t d) = add_duration t d"
  by (simp_all add: NewInterval_def)

lemma Overlaps_iff [go_time_simps]:
  "Overlaps i j \<longleftrightarrow> t_ns (iv_start i) < t_ns (iv_end j) \<and> t_ns (iv_start j) < t_ns (iv_end i)"
  by (simp add: Overlaps_def go_time_simps)

lemma OverlapsAny_iff [domain_simps]: "OverlapsAny i js \<longleftrightarrow> (\<exists>j \<in> set js. Overlaps i j)"
  by (induction js) auto

lemma Overlaps_sym: "Overlaps i j \<longleftrightarrow> Overlaps j i"
  by (auto simp: go_time_simps)

lemma Duration_NewInterval:
  "min_int64 \<le> d \<Longrightarrow> d \<le> max_int64 \<Longrightarrow> Duration (NewInterval t d) = d"
  by (simp add: Duration_def sub_time_def)

section \<open>Intervals as sets of instants\<close>

definition instants :: "interval \<Rightarrow> int set" where
  "instants i = {t. t_ns (iv_start i) \<le> t \<and> t < t_ns (iv_end i)}"

definition proper :: "interval \<Rightarrow> bool" where
  "proper i \<longleftrightarrow> before (iv_start i) (iv_end i)"

lemma proper_iff [go_time_simps]: "proper i \<longleftrightarrow> t_ns (iv_start i) < t_ns (iv_end i)"
  by (simp add: proper_def go_time_simps)

lemma proper_NewInterval [simp]: "proper (NewInterval t d) \<longleftrightarrow> 0 < d"
  by (simp add: go_time_simps)

lemma Overlaps_instants:
  assumes "proper i" "proper j"
  shows "Overlaps i j \<longleftrightarrow> instants i \<inter> instants j \<noteq> {}"
proof
  assume "Overlaps i j"
  then have "max (t_ns (iv_start i)) (t_ns (iv_start j)) \<in> instants i \<inter> instants j"
    using assms by (auto simp: go_time_simps instants_def max_def)
  then show "instants i \<inter> instants j \<noteq> {}" by blast
next
  assume "instants i \<inter> instants j \<noteq> {}"
  then show "Overlaps i j" by (auto simp: go_time_simps instants_def)
qed

section \<open>Property\<close>

text \<open>C37: for intervals that are not empty, Overlaps is exactly the meeting of the two half-open sets of
  instants; two intervals that only touch do not overlap.\<close>

theorem overlaps_iff_instants_meet:
  assumes "proper i" "proper j"
  shows "(Overlaps i j \<longleftrightarrow> instants i \<inter> instants j \<noteq> {}) \<and>
    (t_ns (iv_end i) = t_ns (iv_start j) \<longrightarrow> \<not> Overlaps i j \<and> \<not> Overlaps j i)"
  using Overlaps_instants [OF assms] by (auto simp: go_time_simps)

theorem overlaps_iff_instants_meet_witness:
  "\<not> Overlaps (NewInterval \<lparr>t_ns = 0, t_loc = UTC\<rparr> hour) (NewInterval \<lparr>t_ns = hour, t_loc = UTC\<rparr> hour)"
proof -
  let ?i = "NewInterval \<lparr>t_ns = 0, t_loc = UTC\<rparr> hour" and ?j = "NewInterval \<lparr>t_ns = hour, t_loc = UTC\<rparr> hour"
  have "proper ?i" "proper ?j" by (simp_all add: hour_def)
  moreover have "t_ns (iv_end ?i) = t_ns (iv_start ?j)" by (simp add: add_duration_def)
  ultimately show ?thesis using overlaps_iff_instants_meet [of ?i ?j] by blast
qed

end
