(* ===== verification/Errors.thy ===== *)
theory Errors
  imports Interval
begin

text \<open>
  \<^verbatim>\<open>internal/domain/errors.go\<close>: the machine-readable codes, the domain error and the way Go's
  wrapped errors are inspected. Go keeps a code as a string; here the nine codes are constructors
  and any other string is a tenth one, and \<open>code_text\<close>/\<open>code_of_text\<close> go to the string and back.
\<close>

datatype code =
    CodeNoAvailableResource
  | CodeVehicleAlreadyBooked
  | CodeOutsideBusinessHours
  | CodeServiceExceedsClosingTime
  | CodeStartTimeInPast
  | CodeResourceNotFound
  | CodeValidationError
  | CodeIdempotencyKeyReused
  | CodeContention
  | CodeOther string

fun code_text :: "code \<Rightarrow> string" where
  "code_text CodeNoAvailableResource = ''NO_AVAILABLE_RESOURCE''"
| "code_text CodeVehicleAlreadyBooked = ''VEHICLE_ALREADY_BOOKED''"
| "code_text CodeOutsideBusinessHours = ''OUTSIDE_BUSINESS_HOURS''"
| "code_text CodeServiceExceedsClosingTime = ''SERVICE_EXCEEDS_CLOSING_TIME''"
| "code_text CodeStartTimeInPast = ''START_TIME_IN_PAST''"
| "code_text CodeResourceNotFound = ''RESOURCE_NOT_FOUND''"
| "code_text CodeValidationError = ''VALIDATION_ERROR''"
| "code_text CodeIdempotencyKeyReused = ''IDEMPOTENCY_KEY_REUSED''"
| "code_text CodeContention = ''CONTENTION''"
| "code_text (CodeOther s) = s"

fun known_code :: "code \<Rightarrow> bool" where
  "known_code (CodeOther s) = False"
| "known_code c = True"

definition code_of_text :: "string \<Rightarrow> code" where
  "code_of_text s =
     (if s = ''NO_AVAILABLE_RESOURCE'' then CodeNoAvailableResource
      else if s = ''VEHICLE_ALREADY_BOOKED'' then CodeVehicleAlreadyBooked
      else if s = ''OUTSIDE_BUSINESS_HOURS'' then CodeOutsideBusinessHours
      else if s = ''SERVICE_EXCEEDS_CLOSING_TIME'' then CodeServiceExceedsClosingTime
      else if s = ''START_TIME_IN_PAST'' then CodeStartTimeInPast
      else if s = ''RESOURCE_NOT_FOUND'' then CodeResourceNotFound
      else if s = ''VALIDATION_ERROR'' then CodeValidationError
      else if s = ''IDEMPOTENCY_KEY_REUSED'' then CodeIdempotencyKeyReused
      else if s = ''CONTENTION'' then CodeContention
      else CodeOther s)"

lemma code_of_text_known: "known_code c \<Longrightarrow> code_of_text (code_text c) = c"
  by (cases c) (simp_all add: code_of_text_def)

lemma code_text_of_text: "code_text (code_of_text s) = s"
  by (simp add: code_of_text_def)

definition no_code :: code where "no_code = CodeOther []"

datatype resource_kind = ResourceBay | ResourceTechnician | ResourceOther string

fun resource_text :: "resource_kind \<Rightarrow> string" where
  "resource_text ResourceBay = ''BAY''"
| "resource_text ResourceTechnician = ''TECHNICIAN''"
| "resource_text (ResourceOther s) = s"

definition resource_of_text :: "string \<Rightarrow> resource_kind" where
  "resource_of_text s =
     (if s = ''BAY'' then ResourceBay else if s = ''TECHNICIAN'' then ResourceTechnician else ResourceOther s)"

fun known_kind :: "resource_kind \<Rightarrow> bool" where
  "known_kind (ResourceOther s) = False"
| "known_kind k = True"

lemma resource_of_text_known: "known_kind k \<Longrightarrow> resource_of_text (resource_text k) = k"
  by (cases k) (simp_all add: resource_of_text_def)

record derror =
  err_Code :: code
  err_Message :: string
  err_Conflicting :: "resource_kind list"

text \<open>\<^verbatim>\<open>strings.Join(parts, ",")\<close>.\<close>

fun join_comma :: "string list \<Rightarrow> string" where
  "join_comma [] = []"
| "join_comma [s] = s"
| "join_comma (s # t # ts) = s @ '','' @ join_comma (t # ts)"

definition derror_text :: "derror \<Rightarrow> string" where
  "derror_text e =
     (if err_Conflicting e = [] then code_text (err_Code e) @ '': '' @ err_Message e
      else code_text (err_Code e) @ '': '' @ err_Message e @ '' (conflicting: ''
        @ join_comma (map resource_text (err_Conflicting e)) @ '')'')"

text \<open>\<^verbatim>\<open>NewError\<close> takes the already formatted message.\<close>

definition NewError :: "code \<Rightarrow> string \<Rightarrow> derror" where
  "NewError c msg = \<lparr>err_Code = c, err_Message = msg, err_Conflicting = []\<rparr>"

definition Contention :: derror where
  "Contention = NewError CodeContention
     ''the request could not be scheduled due to concurrent contention; retry''"

text \<open>
  \<^verbatim>\<open>%q\<close>: the quoted form of a string. Bytes outside ASCII are copied, as \<^verbatim>\<open>strconv.Quote\<close> does
  for the bytes of printable characters.
\<close>

definition hex_digit :: "nat \<Rightarrow> char" where
  "hex_digit k = char_of (if k < 10 then 48 + k else 87 + k)"

definition quote_char :: "char \<Rightarrow> string" where
  "quote_char c =
     (let n = of_char c :: nat in
      if n = 34 \<or> n = 92 then [CHR 0x5C, c]
      else if n = 7 then [CHR 0x5C, CHR ''a''] else if n = 8 then [CHR 0x5C, CHR ''b'']
      else if n = 12 then [CHR 0x5C, CHR ''f''] else if n = 10 then [CHR 0x5C, CHR ''n'']
      else if n = 13 then [CHR 0x5C, CHR ''r''] else if n = 9 then [CHR 0x5C, CHR ''t'']
      else if n = 11 then [CHR 0x5C, CHR ''v'']
      else if n < 32 \<or> n = 127 then [CHR 0x5C, CHR ''x'', hex_digit (n div 16), hex_digit (n mod 16)]
      else [c])"

definition go_quote :: "string \<Rightarrow> string" where
  "go_quote s = CHR 0x22 # concat (map quote_char s) @ [CHR 0x22]"

definition NotFound :: "string \<Rightarrow> string \<Rightarrow> derror" where
  "NotFound what ident = NewError CodeResourceNotFound (what @ '' '' @ go_quote ident @ '' not found'')"

section \<open>Error values and their chains\<close>

text \<open>
  An \<^verbatim>\<open>error\<close> value of the program: a domain error, the sentinels it compares with, a database
  error with its SQLSTATE and constraint name, the two context errors, any other error, and
  errors wrapped by \<^verbatim>\<open>fmt.Errorf\<close> with one or two \<^verbatim>\<open>%w\<close>.
\<close>

record pg_error =
  pg_Code :: string
  pg_ConstraintName :: string

datatype go_error =
    EDomain derror
  | ELostRace
  | ENoRows
  | ECanceled
  | EDeadlineExceeded
  | EPg pg_error
  | EText string
  | EWrap string go_error
  | EWrap2 go_error go_error string

text \<open>\<^verbatim>\<open>errors.As\<close> for the two error types the code looks for, in the library's depth-first order.\<close>

fun AsError :: "go_error \<Rightarrow> derror option" where
  "AsError (EDomain d) = Some d"
| "AsError (EWrap s e) = AsError e"
| "AsError (EWrap2 e f s) = (case AsError e of Some d \<Rightarrow> Some d | None \<Rightarrow> AsError f)"
| "AsError _ = None"

fun AsPgError :: "go_error \<Rightarrow> pg_error option" where
  "AsPgError (EPg p) = Some p"
| "AsPgError (EWrap s e) = AsPgError e"
| "AsPgError (EWrap2 e f s) = (case AsPgError e of Some p \<Rightarrow> Some p | None \<Rightarrow> AsPgError f)"
| "AsPgError _ = None"

text \<open>\<^verbatim>\<open>errors.Is\<close> with a sentinel, which is compared with every error of the chain.\<close>

fun error_is :: "go_error \<Rightarrow> go_error \<Rightarrow> bool" where
  "error_is (EWrap s e) target = (EWrap s e = target \<or> error_is e target)"
| "error_is (EWrap2 e f s) target = (EWrap2 e f s = target \<or> error_is e target \<or> error_is f target)"
| "error_is e target = (e = target)"

definition CodeOf :: "go_error \<Rightarrow> code" where
  "CodeOf e = (case AsError e of Some d \<Rightarrow> err_Code d | None \<Rightarrow> no_code)"

lemma CodeOf_EDomain [simp]: "CodeOf (EDomain d) = err_Code d"
  by (simp add: CodeOf_def)

lemma NewError_sel [simp]:
  "err_Code (NewError c m) = c" "err_Message (NewError c m) = m" "err_Conflicting (NewError c m) = []"
  by (simp_all add: NewError_def)

lemma Contention_sel [simp]: "err_Code Contention = CodeContention" "err_Conflicting Contention = []"
  by (simp_all add: Contention_def)

lemma NotFound_sel [simp]: "err_Code (NotFound w i) = CodeResourceNotFound" "err_Conflicting (NotFound w i) = []"
  by (simp_all add: NotFound_def)

end
