(* ===== verification/Hours.thy ===== *)
theory Hours
  imports Errors
begin

text \<open>
  \<^verbatim>\<open>internal/domain/hours.go\<close>: weekly opening hours, civil dates, the window of a business day
  and the validation of a requested start time (BR-4, BR-5). The lemmas give the exact condition
  and result of \<open>ValidateBookingTime\<close>, and relate a date, its window and its bounds in any
  zone that keeps one offset around the date; the bounds are also those of a day inside which the
  offset changes, as when summer time begins or ends.
\<close>

record opening_hours =
  OpensAt :: int
  ClosesAt :: int

type_synonym business_hours = "int \<rightharpoonup> opening_hours"

record date =
  d_Year :: int
  d_Month :: int
  d_Day :: int

record day_window =
  w_Open :: gtime
  w_Close :: gtime

section \<open>Dates\<close>

definition char_digit :: "char \<Rightarrow> int option" where
  "char_digit c = (let n = of_char c :: nat in if 48 \<le> n \<and> n \<le> 57 then Some (int n - 48) else None)"

fun digits_value :: "int \<Rightarrow> string \<Rightarrow> int option" where
  "digits_value acc [] = Some acc"
| "digits_value acc (c # cs) =
     (case char_digit c of None \<Rightarrow> None | Some k \<Rightarrow> digits_value (10 * acc + k) cs)"

text \<open>\<^verbatim>\<open>time.Parse("2006-01-02", s)\<close>: four, two and two digits, a month 1 to 12 and a day of it.\<close>

definition ParseDate :: "string \<Rightarrow> go_error + date" where
  "ParseDate s =
     (let bad = Inl (EWrap ''date must be YYYY-MM-DD'' (EText ''parsing time'')) in
      if length s = 10 \<and> s ! 4 = CHR ''-'' \<and> s ! 7 = CHR ''-''
      then case (digits_value 0 (take 4 s), digits_value 0 (take 2 (drop 5 s)), digits_value 0 (drop 8 s)) of
             (Some y, Some m, Some d) \<Rightarrow>
               if valid_civil y m d then Inr \<lparr>d_Year = y, d_Month = m, d_Day = d\<rparr> else bad
           | _ \<Rightarrow> bad
      else bad)"

definition date_of_civil :: "int \<times> int \<times> int \<Rightarrow> date" where
  "date_of_civil c = (case c of (y, m, d) \<Rightarrow> \<lparr>d_Year = y, d_Month = m, d_Day = d\<rparr>)"

definition DateOf :: "gtime \<Rightarrow> location \<Rightarrow> date" where
  "DateOf t loc = date_of_civil (civil_of_time (in_loc t loc))"

definition date_text :: "date \<Rightarrow> string" where
  "date_text d = sprintf_0d 4 (d_Year d) @ ''-'' @ sprintf_0d 2 (d_Month d) @ ''-'' @ sprintf_0d 2 (d_Day d)"

definition date_weekday :: "date \<Rightarrow> int" where
  "date_weekday d = weekday_of_days (days_of_civil (d_Year d) (d_Month d) (d_Day d))"

definition weekday_text :: "int \<Rightarrow> string" where
  "weekday_text w =
     (if w = 0 then ''Sunday'' else if w = 1 then ''Monday'' else if w = 2 then ''Tuesday''
      else if w = 3 then ''Wednesday'' else if w = 4 then ''Thursday'' else if w = 5 then ''Friday''
      else ''Saturday'')"

section \<open>Windows and validation\<close>

definition Window :: "business_hours \<Rightarrow> date \<Rightarrow> location \<Rightarrow> day_window option" where
  "Window h d loc =
     (case h (date_weekday d) of
        None \<Rightarrow> None
      | Some oh \<Rightarrow> Some
          \<lparr>w_Open = go_date (d_Year d) (d_Month d) (d_Day d) 0 (OpensAt oh) 0 0 loc,
           w_Close = go_date (d_Year d) (d_Month d) (d_Day d) 0 (ClosesAt oh) 0 0 loc\<rparr>)"

definition en_dash :: string where "en_dash = [CHR 0xE2, CHR 0x80, CHR 0x93]"

definition ValidateBookingTime ::
  "gtime \<Rightarrow> duration \<Rightarrow> gtime \<Rightarrow> location \<Rightarrow> business_hours \<Rightarrow> go_error + interval" where
  "ValidateBookingTime start dur now loc hours =
     (if before start now
      then Inl (EDomain (NewError CodeStartTimeInPast
        (''start time '' @ format_rfc3339 (in_loc start loc) @ '' is in the past'')))
      else
        let date = DateOf start loc in
        case Window hours date loc of
          None \<Rightarrow> Inl (EDomain (NewError CodeOutsideBusinessHours
            (''dealership is closed on '' @ weekday_text (date_weekday date) @ '' ('' @ date_text date @ '')'')))
        | Some window \<Rightarrow>
            if before start (w_Open window) \<or> \<not> before start (w_Close window)
            then Inl (EDomain (NewError CodeOutsideBusinessHours
              (''start time '' @ format_hhmm (in_loc start loc) @ '' is outside opening hours ''
               @ format_hhmm (w_Open window) @ en_dash @ format_hhmm (w_Close window))))
            else
              let iv = NewInterval start dur in
              if after (iv_end iv) (w_Close window)
              then Inl (EDomain (NewError CodeServiceExceedsClosingTime
                (''service would finish at '' @ format_hhmm (in_loc (iv_end iv) loc)
                 @ '', after closing time '' @ format_hhmm (w_Close window))))
              else Inr iv)"

definition Bounds :: "date \<Rightarrow> location \<Rightarrow> interval" where
  "Bounds d loc =
     \<lparr>iv_start = go_date (d_Year d) (d_Month d) (d_Day d) 0 0 0 0 loc,
      iv_end = go_date (d_Year d) (d_Month d) (d_Day d + 1) 0 0 0 0 loc\<rparr>"

section \<open>Validation, characterised\<close>

text \<open>The verdict as a code: the checks in the order of the source.\<close>

definition booking_time_verdict :: "gtime \<Rightarrow> duration \<Rightarrow> gtime \<Rightarrow> location \<Rightarrow> business_hours \<Rightarrow> code option" where
  "booking_time_verdict start dur now loc hours =
     (if t_ns start < t_ns now then Some CodeStartTimeInPast
      else case Window hours (DateOf start loc) loc of
             None \<Rightarrow> Some CodeOutsideBusinessHours
           | Some w \<Rightarrow>
               if t_ns start < t_ns (w_Open w) \<or> t_ns (w_Close w) \<le> t_ns start then Some CodeOutsideBusinessHours
               else if t_ns (w_Close w) < t_ns start + dur then Some CodeServiceExceedsClosingTime
               else None)"

lemma ValidateBookingTime_verdict:
  "case booking_time_verdict start dur now loc hours of
     None \<Rightarrow> ValidateBookingTime start dur now loc hours = Inr (NewInterval start dur)
   | Some c \<Rightarrow> \<exists>m. ValidateBookingTime start dur now loc hours = Inl (EDomain (NewError c m))"
  by (auto simp: booking_time_verdict_def ValidateBookingTime_def Let_def go_time_simps
      split: option.splits)

lemma ValidateBookingTime_Inr:
  "ValidateBookingTime start dur now loc hours = Inr iv \<longleftrightarrow>
     iv = NewInterval start dur \<and> t_ns now \<le> t_ns start \<and>
     (\<exists>w. Window hours (DateOf start loc) loc = Some w \<and> t_ns (w_Open w) \<le> t_ns start \<and>
          t_ns start < t_ns (w_Close w) \<and> t_ns start + dur \<le> t_ns (w_Close w))"
  by (auto simp: ValidateBookingTime_def Let_def go_time_simps split: option.splits)

lemma ValidateBookingTime_Inl:
  assumes "ValidateBookingTime start dur now loc hours = Inl e"
  obtains c m where "e = EDomain (NewError c m)"
    "c \<in> {CodeStartTimeInPast, CodeOutsideBusinessHours, CodeServiceExceedsClosingTime}"
  using assms
  by (auto simp: ValidateBookingTime_def Let_def split: option.splits if_splits)

section \<open>Dates in a zone that keeps one offset around them\<close>

definition epoch_day :: "date \<Rightarrow> int" where
  "epoch_day d = days_of_civil (d_Year d) (d_Month d) (d_Day d)"

definition valid_date :: "date \<Rightarrow> bool" where
  "valid_date d \<longleftrightarrow> valid_civil (d_Year d) (d_Month d) (d_Day d)"

text \<open>One offset from a day before the date to a day after it, smaller than a day.\<close>

definition steady_day :: "location \<Rightarrow> int \<Rightarrow> int \<Rightarrow> bool" where
  "steady_day l off n \<longleftrightarrow> \<bar>off\<bar> < day_seconds \<and>
     steady l off ((n - 1) * day_seconds) ((n + 2) * day_seconds)"

definition within_day_hours :: "opening_hours \<Rightarrow> bool" where
  "within_day_hours oh \<longleftrightarrow> 0 \<le> OpensAt oh \<and> OpensAt oh < ClosesAt oh \<and> ClosesAt oh \<le> 1440"

definition local_midnight :: "int \<Rightarrow> int \<Rightarrow> int" where
  "local_midnight off n = (n * day_seconds - off) * second"

lemma days_of_civil_next: "days_of_civil y m (d + k) = days_of_civil y m d + k"
  by (simp add: days_of_civil_def Let_def)

lemma go_date_steady:
  assumes st: "steady_day l off n" and n: "days_of_civil y m d = n"
    and mi: "0 \<le> mi" "mi \<le> 1440"
  shows "t_ns (go_date y m d 0 mi 0 0 l) = local_midnight off n + mi * minute"
proof -
  have off: "\<bar>off\<bar> < 86400"
    and region: "steady l off ((n - 1) * 86400) ((n + 2) * 86400)"
    using st by (simp_all add: steady_day_def day_seconds_def)
  have "resolve_wall l (n * 86400 + mi * 60) = n * 86400 + mi * 60 - off"
    by (rule resolve_wall_steady [OF region]) (use off mi in \<open>simp_all add: algebra_simps\<close>)
  then show ?thesis
    by (simp add: go_date_def wall_sec_def n day_seconds_def local_midnight_def second_def
        minute_def algebra_simps)
qed

lemma Bounds_steady:
  assumes "steady_day l off (epoch_day d)"
  shows "t_ns (iv_start (Bounds d l)) = local_midnight off (epoch_day d)"
    and "t_ns (iv_end (Bounds d l)) = local_midnight off (epoch_day d) + 1440 * minute"
proof -
  show "t_ns (iv_start (Bounds d l)) = local_midnight off (epoch_day d)"
    using go_date_steady [OF assms epoch_day_def [symmetric], of 0] by (simp add: Bounds_def)
  have "go_date (d_Year d) (d_Month d) (d_Day d + 1) 0 0 0 0 l =
      go_date (d_Year d) (d_Month d) (d_Day d) 0 1440 0 0 l"
    using days_of_civil_next [of "d_Year d" "d_Month d" "d_Day d" 1]
    by (simp add: go_date_def wall_sec_def day_seconds_def distrib_right)
  then show "t_ns (iv_end (Bounds d l)) = local_midnight off (epoch_day d) + 1440 * minute"
    using go_date_steady [OF assms epoch_day_def [symmetric], of 1440] by (simp add: Bounds_def)
qed

lemma Window_steady:
  assumes "steady_day l off (epoch_day d)" "Window h d l = Some w" "h (date_weekday d) = Some oh"
    and "within_day_hours oh"
  shows "t_ns (w_Open w) = local_midnight off (epoch_day d) + OpensAt oh * minute"
    and "t_ns (w_Close w) = local_midnight off (epoch_day d) + ClosesAt oh * minute"
  using assms go_date_steady [OF assms(1) epoch_day_def [symmetric], of "OpensAt oh"]
    go_date_steady [OF assms(1) epoch_day_def [symmetric], of "ClosesAt oh"]
  by (auto simp: Window_def within_day_hours_def)

lemma DateOf_epoch_day:
  "epoch_day (DateOf t l) = local_sec (in_loc t l) div day_seconds" "valid_date (DateOf t l)"
proof -
  obtain y m d where c: "civil_of_days (local_sec (in_loc t l) div day_seconds) = (y, m, d)"
    by (cases "civil_of_days (local_sec (in_loc t l) div day_seconds)") auto
  from civil_of_days_inverse [OF c] c
  show "epoch_day (DateOf t l) = local_sec (in_loc t l) div day_seconds" "valid_date (DateOf t l)"
    by (simp_all add: DateOf_def date_of_civil_def civil_of_time_def epoch_day_def valid_date_def)
qed

lemma epoch_day_inj:
  assumes "valid_date d" "valid_date e" "epoch_day d = epoch_day e"
  shows "d = e"
proof -
  have "(d_Year d, d_Month d, d_Day d) = (d_Year e, d_Month e, d_Day e)"
    using assms civil_of_days_of_civil by (metis epoch_day_def valid_date_def)
  then show ?thesis by (cases d; cases e) simp
qed

lemma seconds_of_ns: "a * second \<le> t \<longleftrightarrow> a \<le> t div second" "t < a * second \<longleftrightarrow> t div second < a"
proof -
  have t: "t = second * (t div second) + t mod second" by simp
  have r: "0 \<le> t mod second" "t mod second < second" by (simp_all add: second_def)
  show "a * second \<le> t \<longleftrightarrow> a \<le> t div second" "t < a * second \<longleftrightarrow> t div second < a"
    using t r unfolding second_def by linarith+
qed

lemma in_Bounds_second:
  assumes st: "steady_day l off (epoch_day d)"
    and t: "t_ns (iv_start (Bounds d l)) \<le> t_ns t" "t_ns t < t_ns (iv_end (Bounds d l))"
  shows "epoch_day d * day_seconds - off \<le> unix_sec t" "unix_sec t < epoch_day d * day_seconds - off + day_seconds"
    and "offset_at l (unix_sec t) = off"
proof -
  have off: "\<bar>off\<bar> < day_seconds"
    and region: "steady l off ((epoch_day d - 1) * day_seconds) ((epoch_day d + 2) * day_seconds)"
    using st by (simp_all add: steady_day_def)
  have "(epoch_day d * day_seconds - off) * second \<le> t_ns t"
    "t_ns t < (epoch_day d * day_seconds - off + day_seconds) * second"
    using t Bounds_steady [OF st] by (simp_all add: local_midnight_def day_seconds_def second_def minute_def)
  then show u: "epoch_day d * day_seconds - off \<le> unix_sec t"
    "unix_sec t < epoch_day d * day_seconds - off + day_seconds"
    by (simp_all add: seconds_of_ns unix_sec_def)
  show "offset_at l (unix_sec t) = off"
    by (rule offset_at_steady [OF region]) (use off u in \<open>simp_all add: algebra_simps\<close>)
qed

lemma DateOf_in_Bounds:
  assumes st: "steady_day l off (epoch_day d)" and d: "valid_date d"
    and t: "t_ns (iv_start (Bounds d l)) \<le> t_ns t" "t_ns t < t_ns (iv_end (Bounds d l))"
  shows "DateOf t l = d"
proof -
  note u = in_Bounds_second [OF st t]
  have "local_sec (in_loc t l) = unix_sec t + off" using u(3) by (simp add: local_sec_def unix_sec_def)
  then have "local_sec (in_loc t l) div day_seconds = epoch_day d"
    using u by (intro int_div_pos_eq [where r = "unix_sec t + off - epoch_day d * day_seconds"])
      (simp_all add: day_seconds_def)
  then show ?thesis using DateOf_epoch_day [of t l] by (intro epoch_day_inj d) simp_all
qed

lemma Bounds_of_DateOf:
  assumes st: "steady_day l off (epoch_day (DateOf t l))"
    and near: "\<bar>offset_at l (unix_sec t)\<bar> < day_seconds"
  shows "t_ns (iv_start (Bounds (DateOf t l) l)) \<le> t_ns t \<and>
         t_ns t < t_ns (iv_end (Bounds (DateOf t l) l))"
proof -
  define n where "n = epoch_day (DateOf t l)"
  have off: "\<bar>off\<bar> < 86400" and region: "steady l off ((n - 1) * 86400) ((n + 2) * 86400)"
    using st by (simp_all add: steady_day_def day_seconds_def n_def)
  have loc: "local_sec (in_loc t l) = unix_sec t + offset_at l (unix_sec t)"
    by (simp add: local_sec_def unix_sec_def)
  have "local_sec (in_loc t l) div 86400 = n"
    by (simp add: n_def DateOf_epoch_day(1) day_seconds_def)
  then have ls: "n * 86400 \<le> local_sec (in_loc t l)" "local_sec (in_loc t l) < n * 86400 + 86400"
    by linarith+
  have "offset_at l (unix_sec t) = off"
    by (rule offset_at_steady [OF region])
      (use near ls loc in \<open>simp_all add: day_seconds_def algebra_simps\<close>)
  then have "n * 86400 - off \<le> unix_sec t" "unix_sec t < n * 86400 - off + 86400"
    using ls loc by simp_all
  then have "(n * 86400 - off) * second \<le> t_ns t" "t_ns t < (n * 86400 - off + 86400) * second"
    by (simp_all only: seconds_of_ns unix_sec_def)
  then show ?thesis
    using Bounds_steady [OF st]
    by (simp add: n_def local_midnight_def day_seconds_def second_def minute_def)
qed

section \<open>The text of a date\<close>

lemma char_digit_inj: "char_digit c = Some k \<Longrightarrow> char_digit e = Some k \<Longrightarrow> c = e"
  by (auto simp: char_digit_def Let_def split: if_splits)

lemma char_digit_range: "char_digit c = Some k \<Longrightarrow> 0 \<le> k \<and> k \<le> 9"
  by (auto simp: char_digit_def Let_def split: if_splits)

lemma digits_value_append:
  "digits_value a (xs @ ys) = (case digits_value a xs of None \<Rightarrow> None | Some b \<Rightarrow> digits_value b ys)"
  by (induction xs arbitrary: a) (auto split: option.splits)

lemma digits_value_inj:
  "digits_value a xs = Some v \<Longrightarrow> digits_value b ys = Some v \<Longrightarrow> length xs = length ys \<Longrightarrow> a = b \<and> xs = ys"
proof (induction xs arbitrary: a b ys)
  case (Cons x xs)
  then obtain y ys' where ys: "ys = y # ys'" by (cases ys) auto
  obtain k l where k: "char_digit x = Some k" "char_digit y = Some l"
    using Cons.prems ys by (auto split: option.splits)
  have "10 * a + k = 10 * b + l \<and> xs = ys'"
    using Cons.prems ys k by (intro Cons.IH) auto
  then have e: "10 * a + k = 10 * b + l" and r: "0 \<le> k" "k \<le> 9" "0 \<le> l" "l \<le> 9"
    using char_digit_range k by auto
  from e r have "a = b" by linarith
  with e have "k = l" by simp
  with \<open>a = b\<close> show ?case using char_digit_inj [of x l y] k ys \<open>10 * a + k = 10 * b + l \<and> xs = ys'\<close> by auto
qed simp

lemma digits_value_zeros: "digits_value 0 (replicate n CHR ''0'' @ s) = digits_value 0 s"
  by (induction n) (simp_all add: char_digit_def)

lemma char_digit_of: "0 \<le> k \<Longrightarrow> k \<le> 9 \<Longrightarrow> char_digit (digit_char k) = Some k"
  by (auto simp: char_digit_def digit_char_def Let_def of_char_of take_bit_eq_mod)

lemma digits_value_decimal: "digits_value 0 (decimal n) = Some (int n)"
proof (induction n rule: decimal.induct)
  case (1 n)
  show ?case
  proof (cases "n < 10")
    case True
    then show ?thesis by (subst decimal.simps) (simp add: char_digit_of)
  next
    case False
    have "char_digit (digit_char (int (n mod 10))) = Some (int (n mod 10))" by (rule char_digit_of) auto
    moreover have "10 * int (n div 10) + int (n mod 10) = int n" by (simp add: zdiv_int zmod_int)
    ultimately show ?thesis using False 1 by (subst decimal.simps) (simp add: digits_value_append)
  qed
qed

lemma length_decimal: "0 < w \<Longrightarrow> n < 10 ^ w \<Longrightarrow> length (decimal n) \<le> w"
proof (induction n arbitrary: w rule: decimal.induct)
  case (1 n)
  show ?case
  proof (cases "n < 10")
    case True
    then show ?thesis using 1(2) by (subst decimal.simps) simp
  next
    case False
    obtain v where w: "w = Suc v" using 1(2) by (cases w) auto
    have v: "w = Suc v" "0 < v" using 1(3) False w by (cases v; simp)+
    have "n div 10 < 10 ^ v" using 1(3) v by (simp add: less_mult_imp_div_less mult.commute)
    then have "length (decimal (n div 10)) \<le> v" using 1(1) False v by simp
    then show ?thesis using False v by (subst decimal.simps) simp
  qed
qed

lemma sprintf_0d_digits:
  assumes "0 \<le> n" "n < 10 ^ w" "0 < w"
  shows "length (sprintf_0d w n) = w \<and> digits_value 0 (sprintf_0d w n) = Some n"
proof -
  have "nat n < 10 ^ w" using assms by (simp add: nat_less_iff)
  then have "length (decimal (nat n)) \<le> w" using assms(3) by (intro length_decimal)
  then show ?thesis
    using assms by (simp add: sprintf_0d_def zero_pad_def digits_value_zeros digits_value_decimal)
qed

lemma sprintf_0d_unique:
  assumes "digits_value 0 s = Some n" "length s = w" "0 \<le> n" "n < 10 ^ w" "0 < w"
  shows "s = sprintf_0d w n"
  using sprintf_0d_digits [OF assms(3-5)] digits_value_inj [OF assms(1), of 0 "sprintf_0d w n"] assms(2) by simp

lemma digits_value_bounds: "digits_value a s = Some v \<Longrightarrow> 0 \<le> a \<Longrightarrow>
    a * 10 ^ length s \<le> v \<and> v < (a + 1) * 10 ^ length s"
proof (induction s arbitrary: a)
  case (Cons c s)
  then obtain k where k: "char_digit c = Some k" "digits_value (10 * a + k) s = Some v"
    by (auto split: option.splits)
  have r: "0 \<le> k" "k \<le> 9" using char_digit_range k(1) by auto
  then have "(10 * a + k) * 10 ^ length s \<le> v \<and> v < (10 * a + k + 1) * 10 ^ length s"
    using Cons.IH k(2) Cons.prems(2) by simp
  moreover have "(10 * a + k) * 10 ^ length s = a * (10 * 10 ^ length s) + k * 10 ^ length s"
    "(10 * a + k + 1) * 10 ^ length s + (9 - k) * 10 ^ length s = (a + 1) * (10 * 10 ^ length s)"
    by (simp_all add: algebra_simps)
  moreover have "0 \<le> k * 10 ^ length s" "0 \<le> (9 - k) * 10 ^ length s" using r by simp_all
  ultimately show ?case by simp
qed simp

definition wire_date :: "date \<Rightarrow> bool" where
  "wire_date d \<longleftrightarrow> valid_date d \<and> 0 \<le> d_Year d \<and> d_Year d \<le> 9999"

lemma days_in_month_bound: "days_in_month y m \<le> 31"
  by (simp add: days_in_month_def days_before_month_def Let_def)

lemma wire_date_ranges: "wire_date d \<Longrightarrow> 0 \<le> d_Month d \<and> d_Month d < 100 \<and> 0 \<le> d_Day d \<and> d_Day d < 100"
  using days_in_month_bound [of "d_Year d" "d_Month d"] by (auto simp: wire_date_def valid_date_def valid_civil_def)

section \<open>A day on which the offset changes\<close>

text \<open>
  The offset changes from \<open>o1\<close> to \<open>o2\<close> at the second \<open>T\<close>, and at no other time between the seconds \<open>a\<close> and
  \<open>b\<close>; the lookup of a second tells the range it lies in.
\<close>

definition offset_change :: "location \<Rightarrow> int \<Rightarrow> int \<Rightarrow> int \<Rightarrow> int \<Rightarrow> int \<Rightarrow> bool" where
  "offset_change l o1 o2 T a b \<longleftrightarrow>
     (\<forall>s. a \<le> s \<and> s < T \<longrightarrow> (\<exists>st. loc_lookup l s = (o1, st, T) \<and> st \<le> a)) \<and>
     (\<forall>s. T \<le> s \<and> s < b \<longrightarrow> (\<exists>en. loc_lookup l s = (o2, T, en) \<and> b \<le> en))"

text \<open>
  The change happens inside the local day \<open>n\<close>: by both clocks after the midnight that begins it, and at least
  the length of the jump before the one that ends it.
\<close>

definition change_in_day :: "location \<Rightarrow> int \<Rightarrow> int \<Rightarrow> int \<Rightarrow> int \<Rightarrow> bool" where
  "change_in_day l o1 o2 T n \<longleftrightarrow> \<bar>o1\<bar> < day_seconds \<and> \<bar>o2\<bar> < day_seconds \<and>
     offset_change l o1 o2 T ((n - 1) * day_seconds) ((n + 2) * day_seconds) \<and>
     n * day_seconds < T + min o1 o2 \<and> T + max o1 o2 + \<bar>o2 - o1\<bar> \<le> (n + 1) * day_seconds"

text \<open>The offsets with which the local day \<open>n\<close> begins and ends.\<close>

definition day_offsets :: "location \<Rightarrow> int \<Rightarrow> int \<Rightarrow> int \<Rightarrow> bool" where
  "day_offsets l o1 o2 n \<longleftrightarrow> steady_day l o1 n \<and> o2 = o1 \<or> (\<exists>T. change_in_day l o1 o2 T n)"

lemma day_offsets_steady: "steady_day l off n \<Longrightarrow> day_offsets l off off n"
  by (simp add: day_offsets_def)

lemma change_lookup:
  assumes "offset_change l o1 o2 T a b" "a \<le> s" "s < b"
  obtains st where "s < T" "loc_lookup l s = (o1, st, T)" "st \<le> a"
  | en where "T \<le> s" "loc_lookup l s = (o2, T, en)" "b \<le> en"
  using assms unfolding offset_change_def by (metis linorder_not_le)

lemma change_offset_at:
  assumes "offset_change l o1 o2 T a b" "a \<le> s" "s < b"
  shows "offset_at l s = (if s < T then o1 else o2)"
  by (rule change_lookup [OF assms]) (simp_all add: offset_at_def)

text \<open>A wall clock time is resolved with one of the two offsets, and rightly when they agree on the side.\<close>

lemma resolve_wall_change:
  assumes c: "offset_change l o1 o2 T a b" and u: "a \<le> u" "u < b"
    and r: "a \<le> u - o1" "u - o1 < b" "a \<le> u - o2" "u - o2 < b"
  shows "resolve_wall l u = u - o1 \<and> (u - o1 < T \<or> u - o2 < T) \<or>
    resolve_wall l u = u - o2 \<and> (T \<le> u - o1 \<or> T \<le> u - o2)"
  using c u
proof (cases rule: change_lookup)
  case (1 st)
  then show ?thesis
    using r(1) change_offset_at [OF c r(1,2)] by (simp add: resolve_wall_def Let_def)
next
  case (2 en)
  then show ?thesis
    using r(4) change_offset_at [OF c r(3,4)] by (simp add: resolve_wall_def Let_def)
qed

lemma change_wall:
  assumes c: "change_in_day l o1 o2 T n" and u: "n * day_seconds \<le> u" "u \<le> (n + 1) * day_seconds"
  shows "resolve_wall l u = u - o1 \<and> (u - o1 < T \<or> u - o2 < T) \<or>
    resolve_wall l u = u - o2 \<and> (T \<le> u - o1 \<or> T \<le> u - o2)"
proof -
  have h: "offset_change l o1 o2 T ((n - 1) * day_seconds) ((n + 2) * day_seconds)"
      "\<bar>o1\<bar> < day_seconds" "\<bar>o2\<bar> < day_seconds"
    using c by (simp_all add: change_in_day_def)
  have n1: "(n + 1) * day_seconds = n * day_seconds + day_seconds" "(n - 1) * day_seconds = n * day_seconds - day_seconds"
    "(n + 2) * day_seconds = n * day_seconds + 2 * day_seconds" by (simp_all add: algebra_simps)
  have "(n - 1) * day_seconds \<le> u" "u < (n + 2) * day_seconds"
    "(n - 1) * day_seconds \<le> u - o1" "u - o1 < (n + 2) * day_seconds"
    "(n - 1) * day_seconds \<le> u - o2" "u - o2 < (n + 2) * day_seconds"
    using h(2,3) u unfolding n1 by linarith+
  from resolve_wall_change [OF h(1) this] show ?thesis .
qed

text \<open>The bounds of such a day are its midnights, each with its own offset.\<close>

lemma midnight_wall: "t_ns (go_date y m d 0 mi 0 0 l) = resolve_wall l (days_of_civil y m d * day_seconds + mi * 60) * second"
  by (simp add: go_date_def wall_sec_def)

lemma Bounds_wall:
  "t_ns (iv_start (Bounds d l)) = resolve_wall l (epoch_day d * day_seconds) * second"
  "t_ns (iv_end (Bounds d l)) = resolve_wall l ((epoch_day d + 1) * day_seconds) * second"
  using midnight_wall [of "d_Year d" "d_Month d" "d_Day d" 0 l] midnight_wall [of "d_Year d" "d_Month d" "d_Day d + 1" 0 l]
  by (simp_all add: Bounds_def epoch_day_def days_of_civil_next)

lemma change_midnights:
  assumes "change_in_day l o1 o2 T n"
  shows "resolve_wall l (n * day_seconds) = n * day_seconds - o1"
    and "resolve_wall l ((n + 1) * day_seconds) = (n + 1) * day_seconds - o2"
proof -
  have h: "n * day_seconds < T + min o1 o2" "T + max o1 o2 + \<bar>o2 - o1\<bar> \<le> (n + 1) * day_seconds"
    using assms by (simp_all add: change_in_day_def)
  have le: "n * day_seconds \<le> (n + 1) * day_seconds" by (simp add: day_seconds_def algebra_simps)
  show "resolve_wall l (n * day_seconds) = n * day_seconds - o1"
    using change_wall [OF assms order.refl le] h(1) by linarith
  show "resolve_wall l ((n + 1) * day_seconds) = (n + 1) * day_seconds - o2"
    using change_wall [OF assms le order.refl] h(2) by linarith
qed

lemma Bounds_offsets:
  assumes "day_offsets l o1 o2 (epoch_day d)"
  shows "t_ns (iv_start (Bounds d l)) = (epoch_day d * day_seconds - o1) * second"
    and "t_ns (iv_end (Bounds d l)) = ((epoch_day d + 1) * day_seconds - o2) * second"
proof -
  have "t_ns (iv_start (Bounds d l)) = (epoch_day d * day_seconds - o1) * second \<and>
    t_ns (iv_end (Bounds d l)) = ((epoch_day d + 1) * day_seconds - o2) * second"
    using assms unfolding day_offsets_def
  proof (elim disjE conjE exE)
    assume "steady_day l o1 (epoch_day d)" "o2 = o1"
    then show ?thesis
      using Bounds_steady [of l o1 d] by (simp add: local_midnight_def day_seconds_def second_def minute_def algebra_simps)
  next
    fix T assume "change_in_day l o1 o2 T (epoch_day d)"
    from change_midnights [OF this] show ?thesis by (simp add: Bounds_wall)
  qed
  then show "t_ns (iv_start (Bounds d l)) = (epoch_day d * day_seconds - o1) * second"
    "t_ns (iv_end (Bounds d l)) = ((epoch_day d + 1) * day_seconds - o2) * second" by simp_all
qed

text \<open>Opening hours inside the day lie between its midnights, and so does an instant of that date between them.\<close>

lemma change_window:
  assumes c: "change_in_day l o1 o2 T (epoch_day d)" and w: "Window h d l = Some w" "h (date_weekday d) = Some oh"
    and oh: "within_day_hours oh" and t: "t_ns (w_Open w) \<le> t_ns t" "t_ns t < t_ns (w_Close w)" and d: "DateOf t l = d"
  shows "(epoch_day d * day_seconds - o1) * second \<le> t_ns t"
    and "t_ns (w_Close w) \<le> ((epoch_day d + 1) * day_seconds - o2) * second"
proof -
  let ?n = "epoch_day d"
  define uo uc where "uo = ?n * day_seconds + OpensAt oh * 60" and "uc = ?n * day_seconds + ClosesAt oh * 60"
  have h: "\<bar>o1\<bar> < day_seconds" "\<bar>o2\<bar> < day_seconds" "?n * day_seconds < T + min o1 o2"
      "T + max o1 o2 + \<bar>o2 - o1\<bar> \<le> (?n + 1) * day_seconds"
      "offset_change l o1 o2 T ((?n - 1) * day_seconds) ((?n + 2) * day_seconds)"
    using c by (simp_all add: change_in_day_def)
  have n1: "(?n + 1) * day_seconds = ?n * day_seconds + day_seconds" "(?n - 1) * day_seconds = ?n * day_seconds - day_seconds"
    "(?n + 2) * day_seconds = ?n * day_seconds + 2 * day_seconds" by (simp_all add: algebra_simps)
  have open_close: "t_ns (w_Open w) = resolve_wall l uo * second" "t_ns (w_Close w) = resolve_wall l uc * second"
    using w by (auto simp: Window_def midnight_wall epoch_day_def uo_def uc_def)
  have u: "?n * day_seconds \<le> uo" "uo \<le> (?n + 1) * day_seconds" "?n * day_seconds \<le> uc" "uc \<le> (?n + 1) * day_seconds"
    using oh by (simp_all add: within_day_hours_def uo_def uc_def day_seconds_def)
  have lo: "?n * day_seconds - day_seconds < resolve_wall l uo"
    using change_wall [OF c u(1,2)] u(1) h(1,2) by linarith
  have hi: "resolve_wall l uc \<le> (?n + 1) * day_seconds - o2"
    using change_wall [OF c u(3,4)] u(4) h(3,4) by linarith
  then show "t_ns (w_Close w) \<le> ((?n + 1) * day_seconds - o2) * second"
    by (simp add: open_close second_def)
  have s: "resolve_wall l uo \<le> unix_sec t" "unix_sec t < resolve_wall l uc"
    using t by (simp_all add: open_close seconds_of_ns unix_sec_def)
  have off: "offset_at l (unix_sec t) = (if unix_sec t < T then o1 else o2)"
    by (rule change_offset_at [OF h(5)]) (use s lo hi h(2) in \<open>simp_all add: n1\<close>)
  have "local_sec (in_loc t l) div day_seconds = ?n" using DateOf_epoch_day(1) [of t l] d by simp
  then have "?n * day_seconds \<le> local_sec (in_loc t l)"
    using mult_div_mod_eq [of day_seconds "local_sec (in_loc t l)"] pos_mod_sign [of day_seconds "local_sec (in_loc t l)"]
    by (simp add: day_seconds_def)
  moreover have "local_sec (in_loc t l) = unix_sec t + offset_at l (unix_sec t)" by (simp add: local_sec_def unix_sec_def)
  ultimately have "?n * day_seconds - o1 \<le> unix_sec t" using off h(3) by (auto split: if_splits)
  then show "(?n * day_seconds - o1) * second \<le> t_ns t" by (simp only: seconds_of_ns unix_sec_def)
qed

lemma validated_in_day:
  assumes "ValidateBookingTime start dur now loc hours = Inr iv"
    and "steady_day loc off (epoch_day (DateOf start loc))"
    and "\<forall>wd oh. hours wd = Some oh \<longrightarrow> within_day_hours oh"
  shows "t_ns (iv_start (Bounds (DateOf (iv_start iv) loc) loc)) \<le> t_ns (iv_start iv) \<and>
    t_ns (iv_end iv) \<le> t_ns (iv_end (Bounds (DateOf (iv_start iv) loc) loc))"
proof -
  obtain w where iv: "iv = NewInterval start dur" and w: "Window hours (DateOf start loc) loc = Some w"
    and b: "t_ns (w_Open w) \<le> t_ns start" "t_ns start + dur \<le> t_ns (w_Close w)"
    using assms(1) by (auto simp: ValidateBookingTime_Inr)
  obtain oh where oh: "hours (date_weekday (DateOf start loc)) = Some oh"
    using w by (auto simp: Window_def split: option.splits)
  have in_day: "within_day_hours oh" using assms(3) oh by blast
  then have "0 \<le> OpensAt oh * minute" "ClosesAt oh * minute \<le> 1440 * minute"
    by (simp_all add: within_day_hours_def minute_def)
  then show ?thesis
    using b Window_steady [OF assms(2) w oh in_day] Bounds_steady [OF assms(2)] by (simp add: iv)
qed

lemma validated_in_bounds:
  assumes "ValidateBookingTime start dur now loc hours = Inr iv"
    and "day_offsets loc o1 o2 (epoch_day (DateOf start loc))"
    and "\<forall>wd oh. hours wd = Some oh \<longrightarrow> within_day_hours oh"
  shows "t_ns (iv_start (Bounds (DateOf start loc) loc)) \<le> t_ns (iv_start iv) \<and>
    t_ns (iv_end iv) \<le> t_ns (iv_end (Bounds (DateOf start loc) loc))"
proof -
  obtain w where iv: "iv = NewInterval start dur" and w: "Window hours (DateOf start loc) loc = Some w"
    and b: "t_ns (w_Open w) \<le> t_ns start" "t_ns start < t_ns (w_Close w)" "t_ns start + dur \<le> t_ns (w_Close w)"
    using assms(1) by (auto simp: ValidateBookingTime_Inr)
  obtain oh where oh: "hours (date_weekday (DateOf start loc)) = Some oh"
    using w by (auto simp: Window_def split: option.splits)
  show ?thesis
    using assms(2) unfolding day_offsets_def
  proof (elim disjE conjE exE)
    assume "steady_day loc o1 (epoch_day (DateOf start loc))"
    from validated_in_day [OF assms(1) this assms(3)] show ?thesis by (simp add: iv)
  next
    fix T assume T: "change_in_day loc o1 o2 T (epoch_day (DateOf start loc))"
    have "within_day_hours oh" using assms(3) oh by blast
    note c = change_window [OF T w oh this b(1,2) refl]
    show ?thesis using c b(3) Bounds_offsets [OF assms(2)] by (simp add: iv NewInterval_def add_duration_def)
  qed
qed

section \<open>Properties\<close>

text \<open>C20: a requested start is accepted, with the interval of the service from that start, exactly when it is
  not in the past, its local date is a business day, and the service begins inside and ends within
  the opening hours of that day; otherwise the first failing check gives the code.\<close>

theorem validate_booking_time_exact:
  "(ValidateBookingTime start dur now loc hours = Inr iv \<longleftrightarrow>
      iv = NewInterval start dur \<and> t_ns now \<le> t_ns start \<and>
      (\<exists>w. Window hours (DateOf start loc) loc = Some w \<and> t_ns (w_Open w) \<le> t_ns start \<and>
           t_ns start < t_ns (w_Close w) \<and> t_ns start + dur \<le> t_ns (w_Close w))) \<and>
   (case booking_time_verdict start dur now loc hours of
      None \<Rightarrow> \<exists>iv. ValidateBookingTime start dur now loc hours = Inr iv
    | Some c \<Rightarrow> \<exists>m. ValidateBookingTime start dur now loc hours = Inl (EDomain (NewError c m)))"
  using ValidateBookingTime_Inr [of start dur now loc hours iv] ValidateBookingTime_verdict [of start dur now loc hours]
  by (auto split: option.splits)

text \<open>C33: an accepted appointment lies within the bounds of its start's local date, the range whose appointments
  the transaction reads and locks: from the midnight that begins the date to the one that ends it, by
  the offsets in force at each. So they are 24 hours apart when the offset stays, and an hour less or
  more on a day on which summer time begins or ends. The change must not touch a midnight, and the
  opening hours lie inside one day.\<close>

theorem accepted_booking_within_its_day:
  assumes "ValidateBookingTime start dur now loc hours = Inr iv"
    and "day_offsets loc o1 o2 (epoch_day (DateOf start loc))"
    and "\<forall>wd oh. hours wd = Some oh \<longrightarrow> within_day_hours oh"
  shows "t_ns (iv_start (Bounds (DateOf (iv_start iv) loc) loc)) \<le> t_ns (iv_start iv) \<and>
    t_ns (iv_end iv) \<le> t_ns (iv_end (Bounds (DateOf (iv_start iv) loc) loc)) \<and>
    t_ns (iv_start (Bounds (DateOf (iv_start iv) loc) loc)) =
      (epoch_day (DateOf start loc) * day_seconds - o1) * second \<and>
    t_ns (iv_end (Bounds (DateOf (iv_start iv) loc) loc)) =
      ((epoch_day (DateOf start loc) + 1) * day_seconds - o2) * second"
proof -
  have "iv_start iv = start" using assms(1) by (auto simp: ValidateBookingTime_Inr NewInterval_def)
  then show ?thesis using validated_in_bounds [OF assms] Bounds_offsets [OF assms(2)] by simp
qed

text \<open>In a zone that keeps one offset around the day the civil date of an instant is a given date exactly when the instant lies
  between its two midnights.\<close>

lemma date_of_iff_in_bounds:
  assumes "steady_day l off (epoch_day d)" "valid_date d" "\<bar>offset_at l (unix_sec t)\<bar> < day_seconds"
  shows "DateOf t l = d \<longleftrightarrow> t_ns (iv_start (Bounds d l)) \<le> t_ns t \<and> t_ns t < t_ns (iv_end (Bounds d l))"
  using Bounds_of_DateOf [of l off t] DateOf_in_Bounds [of l off d t] assms by metis

lemma ParseDate_iff:
  "ParseDate s = Inr d \<longleftrightarrow> wire_date d \<and> s = date_text d"
proof
  assume p: "ParseDate s = Inr d"
  then have len: "length s = 10" and dash: "s ! 4 = CHR ''-''" "s ! 7 = CHR ''-''"
    by (auto simp: ParseDate_def Let_def split: if_splits)
  have v: "digits_value 0 (take 4 s) = Some (d_Year d)" "digits_value 0 (take 2 (drop 5 s)) = Some (d_Month d)"
      "digits_value 0 (drop 8 s) = Some (d_Day d)" "valid_civil (d_Year d) (d_Month d) (d_Day d)"
    using p by (auto simp: ParseDate_def Let_def split: if_splits option.splits)
  note b = digits_value_bounds [OF v(1)] digits_value_bounds [OF v(2)] digits_value_bounds [OF v(3)]
  have "take 4 s = sprintf_0d 4 (d_Year d)" "take 2 (drop 5 s) = sprintf_0d 2 (d_Month d)"
      "drop 8 s = sprintf_0d 2 (d_Day d)"
    using b len by (intro sprintf_0d_unique v; simp)+
  moreover have "s = take 4 s @ [s ! 4] @ take 2 (drop 5 s) @ [s ! 7] @ drop 8 s"
    using id_take_nth_drop [of 4 s] id_take_nth_drop [of 2 "drop 5 s"] len by simp
  ultimately have "s = date_text d" using dash by (simp add: date_text_def)
  moreover have "wire_date d" using b(1) v len by (simp add: wire_date_def valid_date_def)
  ultimately show "wire_date d \<and> s = date_text d" by simp
next
  assume w: "wire_date d \<and> s = date_text d"
  have y: "length (sprintf_0d 4 (d_Year d)) = 4" "digits_value 0 (sprintf_0d 4 (d_Year d)) = Some (d_Year d)"
    using sprintf_0d_digits [of "d_Year d" 4] w by (auto simp: wire_date_def)
  have m: "length (sprintf_0d 2 (d_Month d)) = 2" "digits_value 0 (sprintf_0d 2 (d_Month d)) = Some (d_Month d)"
    using sprintf_0d_digits [of "d_Month d" 2] wire_date_ranges w by auto
  have e: "length (sprintf_0d 2 (d_Day d)) = 2" "digits_value 0 (sprintf_0d 2 (d_Day d)) = Some (d_Day d)"
    using sprintf_0d_digits [of "d_Day d" 2] wire_date_ranges w by auto
  show "ParseDate s = Inr d"
    using w y m e by (simp add: ParseDate_def date_text_def Let_def nth_append wire_date_def valid_date_def)
qed

text \<open>C34: the text of a date of the years 0 to 9999 is the only text that parses, and parses to that date.\<close>

theorem parse_date_iff_text:
  "ParseDate s = Inr d \<longleftrightarrow> wire_date d \<and> s = date_text d"
  by (rule ParseDate_iff)

definition ict :: location where "ict = fixed_zone ''ICT'' 25200"

lemma steady_day_ict: "-1000000 \<le> n \<Longrightarrow> n \<le> 1000000 \<Longrightarrow> steady_day ict 25200 n"
  by (auto simp: steady_day_def ict_def day_seconds_def min_int64_def max_int64_def intro!: steady_fixed_zone)

text \<open>Eastern time around the beginning of summer time in 2030: 10 March, 7:00 UTC.\<close>

definition eastern :: location where
  "eastern = \<lparr>loc_name = ''America/New_York'', loc_lookup = (\<lambda>s.
     if s < 1899356400 then (-18000, 1888470000, 1899356400) else (-14400, 1899356400, 1919916000))\<rparr>"

lemma eastern_change: "change_in_day eastern (-18000) (-14400) 1899356400 21983"
  by (auto simp: change_in_day_def offset_change_def eastern_def day_seconds_def)

theorem accepted_booking_within_its_day_witness:
  "t_ns (iv_end (Bounds (DateOf (go_date 2030 3 10 9 0 0 0 eastern) eastern) eastern)) -
   t_ns (iv_start (Bounds (DateOf (go_date 2030 3 10 9 0 0 0 eastern) eastern) eastern)) = 23 * hour"
proof -
  let ?start = "go_date 2030 3 10 9 0 0 0 eastern" and ?hours = "\<lambda>_. Some \<lparr>OpensAt = 480, ClosesAt = 1020\<rparr>"
  have d: "DateOf ?start eastern = \<lparr>d_Year = 2030, d_Month = 3, d_Day = 10\<rparr>" by code_simp
  have e: "epoch_day \<lparr>d_Year = 2030, d_Month = 3, d_Day = 10\<rparr> = 21983" by code_simp
  have "case Window ?hours (DateOf ?start eastern) eastern of None \<Rightarrow> False
      | Some w \<Rightarrow> t_ns (w_Open w) \<le> t_ns ?start \<and> t_ns ?start < t_ns (w_Close w) \<and> t_ns ?start + hour \<le> t_ns (w_Close w)"
    by code_simp
  then have v: "ValidateBookingTime ?start hour ?start eastern ?hours = Inr (NewInterval ?start hour)"
    by (auto simp: ValidateBookingTime_Inr split: option.splits)
  have o': "day_offsets eastern (-18000) (-14400) (epoch_day (DateOf ?start eastern))"
    using eastern_change by (auto simp: day_offsets_def d e)
  have "within_day_hours \<lparr>OpensAt = 480, ClosesAt = 1020\<rparr>" by (simp add: within_day_hours_def)
  then show ?thesis
    using accepted_booking_within_its_day [OF v o'] by (simp add: NewInterval_def day_seconds_def second_def hour_def)
qed

lemma date_of_iff_in_bounds_witness:
  "DateOf (go_date 2030 3 4 23 59 0 0 ict) ict = \<lparr>d_Year = 2030, d_Month = 3, d_Day = 4\<rparr>"
proof -
  let ?d = "\<lparr>d_Year = 2030, d_Month = 3, d_Day = 4\<rparr>" and ?t = "go_date 2030 3 4 23 59 0 0 ict"
  have e: "epoch_day ?d = 21977" by code_simp
  have v: "valid_date ?d" by code_simp
  have o': "\<bar>offset_at ict (unix_sec ?t)\<bar> < day_seconds" by (simp add: offset_at_def ict_def fixed_zone_def day_seconds_def)
  have b: "t_ns (iv_start (Bounds ?d ict)) \<le> t_ns ?t \<and> t_ns ?t < t_ns (iv_end (Bounds ?d ict))" by code_simp
  show ?thesis using date_of_iff_in_bounds [of ict 25200 ?d ?t] steady_day_ict [of 21977] v o' b by (simp add: e)
qed

end
