(* ===== verification/Entity.thy ===== *)
theory Entity
  imports Hours
begin

text \<open>
  \<^verbatim>\<open>internal/domain/entity.go\<close>: the entities the scheduler works on. Identifiers and names
  are strings; a bay type and a status, strings in the code, are constructors with one more for
  any other string.
\<close>

datatype bay_type = BayTypeGeneral | BayTypeAlignment | BayTypeEV | BayTypeOther string

fun bay_type_text :: "bay_type \<Rightarrow> string" where
  "bay_type_text BayTypeGeneral = ''GENERAL''"
| "bay_type_text BayTypeAlignment = ''ALIGNMENT''"
| "bay_type_text BayTypeEV = ''EV''"
| "bay_type_text (BayTypeOther s) = s"

definition bay_type_of_text :: "string \<Rightarrow> bay_type" where
  "bay_type_of_text s =
     (if s = ''GENERAL'' then BayTypeGeneral else if s = ''ALIGNMENT'' then BayTypeAlignment
      else if s = ''EV'' then BayTypeEV else BayTypeOther s)"

text \<open>\<^verbatim>\<open>ParseBayType\<close>: the three declared values, or the empty one and false.\<close>

definition ParseBayType :: "string \<Rightarrow> bay_type \<times> bool" where
  "ParseBayType s =
     (if bay_type_of_text s \<in> {BayTypeGeneral, BayTypeAlignment, BayTypeEV}
      then (bay_type_of_text s, True) else (BayTypeOther [], False))"

lemma bay_type_text_of_text [simp]: "bay_type_text (bay_type_of_text s) = s"
  by (simp add: bay_type_of_text_def)

lemma ParseBayType_roundtrip:
  "ParseBayType s = (b, True) \<Longrightarrow> bay_type_text b = s \<and> b \<in> {BayTypeGeneral, BayTypeAlignment, BayTypeEV}"
  by (auto simp: ParseBayType_def bay_type_of_text_def split: if_splits)

datatype appointment_status = StatusConfirmed | StatusCancelled | StatusOther string

fun status_text :: "appointment_status \<Rightarrow> string" where
  "status_text StatusConfirmed = ''CONFIRMED''"
| "status_text StatusCancelled = ''CANCELLED''"
| "status_text (StatusOther s) = s"

record dealership =
  dl_ID :: string
  dl_Name :: string
  dl_Location :: location
  dl_Hours :: business_hours

record skill =
  sk_ID :: string
  sk_Code :: string
  sk_Name :: string

record service_type =
  st_ID :: string
  st_Name :: string
  st_Duration :: duration
  st_RequiredSkillID :: string
  st_RequiredBayType :: bay_type

record technician =
  tech_ID :: string
  tech_Name :: string
  tech_SkillIDs :: "string list"

fun skill_loop :: "string \<Rightarrow> string list \<Rightarrow> bool" where
  "skill_loop skillID [] = False"
| "skill_loop skillID (s # ss) = (if s = skillID then True else skill_loop skillID ss)"

definition HasSkill :: "technician \<Rightarrow> string \<Rightarrow> bool" where
  "HasSkill t skillID = skill_loop skillID (tech_SkillIDs t)"

lemma HasSkill_iff [domain_simps]: "HasSkill t k \<longleftrightarrow> k \<in> set (tech_SkillIDs t)"
proof -
  have "skill_loop k ss \<longleftrightarrow> k \<in> set ss" for ss by (induction ss) auto
  then show ?thesis by (simp add: HasSkill_def)
qed

record bay =
  bay_ID :: string
  bay_Name :: string
  bay_Type :: bay_type

record customer =
  cu_ID :: string
  cu_Name :: string

record vehicle =
  ve_ID :: string
  ve_DealershipID :: string
  ve_CustomerID :: string
  ve_VIN :: string
  ve_Model :: string

record appointment =
  ap_ID :: string
  ap_DealershipID :: string
  ap_Status :: appointment_status
  ap_Interval :: interval
  ap_Customer :: customer
  ap_Vehicle :: vehicle
  ap_ServiceType :: service_type
  ap_Technician :: technician
  ap_Bay :: bay
  ap_CreatedAt :: gtime

text \<open>Zero values, which the code returns beside an error.\<close>

definition zero_technician :: technician where
  "zero_technician = \<lparr>tech_ID = [], tech_Name = [], tech_SkillIDs = []\<rparr>"

definition zero_bay :: bay where
  "zero_bay = \<lparr>bay_ID = [], bay_Name = [], bay_Type = BayTypeOther []\<rparr>"

definition zero_customer :: customer where "zero_customer = \<lparr>cu_ID = [], cu_Name = []\<rparr>"

definition zero_vehicle :: vehicle where
  "zero_vehicle = \<lparr>ve_ID = [], ve_DealershipID = [], ve_CustomerID = [], ve_VIN = [], ve_Model = []\<rparr>"

definition zero_service_type :: service_type where
  "zero_service_type = \<lparr>st_ID = [], st_Name = [], st_Duration = 0, st_RequiredSkillID = [],
     st_RequiredBayType = BayTypeOther []\<rparr>"

definition zero_appointment :: appointment where
  "zero_appointment = \<lparr>ap_ID = [], ap_DealershipID = [], ap_Status = StatusOther [],
     ap_Interval = zero_interval, ap_Customer = zero_customer, ap_Vehicle = zero_vehicle,
     ap_ServiceType = zero_service_type, ap_Technician = zero_technician, ap_Bay = zero_bay,
     ap_CreatedAt = zero_time\<rparr>"

end
