(* ===== verification/Policy.thy ===== *)
theory Policy
  imports Entity
begin

text \<open>
  \<^verbatim>\<open>internal/domain/policy.go\<close>: candidates, the policy interface and the least-loaded policy
  (BR-6). The interface is the locale \<open>policy_contract\<close>, extended by \<open>deterministic_policy\<close>;
  the least-loaded policy interprets both, and its choice is the minimum of the candidates in
  the order by load, then identifier.
\<close>

record candidate =
  cand_ID :: string
  cand_LoadMinutes :: int

type_synonym assignment_policy = "candidate list \<Rightarrow> candidate \<times> bool"

definition zero_candidate :: candidate where
  "zero_candidate = \<lparr>cand_ID = [], cand_LoadMinutes = 0\<rparr>"

text \<open>The comparison the code gives to \<^verbatim>\<open>sort.SliceStable\<close>.\<close>

definition candidate_less :: "candidate \<Rightarrow> candidate \<Rightarrow> bool" where
  "candidate_less i j =
     (if cand_LoadMinutes i \<noteq> cand_LoadMinutes j then cand_LoadMinutes i < cand_LoadMinutes j
      else cand_ID i < cand_ID j)"

definition LeastLoaded :: assignment_policy where
  "LeastLoaded candidates =
     (if candidates = [] then (zero_candidate, False)
      else let sorted = slice_stable candidate_less candidates in (sorted ! 0, True))"

section \<open>Candidates are linearly ordered\<close>

instantiation candidate_ext :: (linorder) linorder
begin

definition less_eq_candidate_ext :: "'a candidate_ext \<Rightarrow> 'a candidate_ext \<Rightarrow> bool" where
  "c \<le> d \<longleftrightarrow> (cand_LoadMinutes c, cand_ID c, candidate.more c)
     \<le> (cand_LoadMinutes d, cand_ID d, candidate.more d)"

definition less_candidate_ext :: "'a candidate_ext \<Rightarrow> 'a candidate_ext \<Rightarrow> bool" where
  "c < d \<longleftrightarrow> (cand_LoadMinutes c, cand_ID c, candidate.more c)
     < (cand_LoadMinutes d, cand_ID d, candidate.more d)"

instance
  by standard (auto simp: less_eq_candidate_ext_def less_candidate_ext_def)

end

lemma candidate_less_iff: "candidate_less c d \<longleftrightarrow> c < d" for c :: candidate
  by (auto simp: candidate_less_def less_candidate_ext_def)

lemma candidate_le_iff:
  "c \<le> d \<longleftrightarrow> cand_LoadMinutes c < cand_LoadMinutes d
     \<or> cand_LoadMinutes c = cand_LoadMinutes d \<and> cand_ID c \<le> cand_ID d" for c :: candidate
  by (auto simp: less_eq_candidate_ext_def)

lemma slice_stable_candidates: "slice_stable candidate_less cs = sort cs"
proof -
  have "candidate_less = (<)" by (intro ext) (rule candidate_less_iff)
  then show ?thesis using slice_stable_sort [of cs] by simp
qed

lemma LeastLoaded_eq:
  "LeastLoaded cs = (if cs = [] then (zero_candidate, False) else (hd (sort cs), True))"
proof (cases "cs = []")
  case False
  then have "sort cs \<noteq> []" by (metis length_0_conv length_sort)
  with False show ?thesis by (simp add: LeastLoaded_def slice_stable_candidates hd_conv_nth)
qed (simp add: LeastLoaded_def)

lemma hd_sort_Min: "cs \<noteq> [] \<Longrightarrow> hd (sort cs) = Min (set cs)" for cs :: "candidate list"
  using hd_sort_key_least [of cs "\<lambda>x. x"] by (auto intro!: Min_eqI [symmetric])

section \<open>The interface\<close>

locale policy_contract =
  fixes pick :: assignment_policy
  assumes chosen_member: "pick cs = (c, True) \<Longrightarrow> c \<in> set cs"

locale deterministic_policy = policy_contract +
  assumes chooses: "cs \<noteq> [] \<Longrightarrow> snd (pick cs)"
    and order_free: "mset cs = mset ds \<Longrightarrow> pick cs = pick ds"
begin

lemma chosen_in: "cs \<noteq> [] \<Longrightarrow> fst (pick cs) \<in> set cs"
  using chooses [of cs] chosen_member [of cs "fst (pick cs)"] by (cases "pick cs") auto

end

interpretation least_loaded: deterministic_policy LeastLoaded
proof
  fix cs ds :: "candidate list" and c
  show "LeastLoaded cs = (c, True) \<Longrightarrow> c \<in> set cs"
    by (auto simp: LeastLoaded_eq hd_sort_Min split: if_splits)
  show "cs \<noteq> [] \<Longrightarrow> snd (LeastLoaded cs)" by (simp add: LeastLoaded_eq)
  assume "mset cs = mset ds"
  then have "sort cs = sort ds" and "cs = [] \<longleftrightarrow> ds = []"
    by (metis mset_sort properties_for_sort sorted_sort) (use \<open>mset cs = mset ds\<close> in auto)
  then show "LeastLoaded cs = LeastLoaded ds" by (simp add: LeastLoaded_eq)
qed

lemma LeastLoaded_least: "d \<in> set cs \<Longrightarrow> fst (LeastLoaded cs) \<le> d"
  by (auto simp: LeastLoaded_eq hd_sort_Min)

section \<open>Property\<close>

text \<open>C36: LeastLoaded returns false exactly for no candidates; otherwise it returns a candidate that no
  other one precedes by load and then identifier, whatever the order of the candidates.\<close>

theorem least_loaded_is_minimum:
  "(snd (LeastLoaded cs) \<longleftrightarrow> cs \<noteq> []) \<and>
   (\<forall>c. LeastLoaded cs = (c, True) \<longrightarrow> c \<in> set cs \<and> (\<forall>d \<in> set cs.
      cand_LoadMinutes c < cand_LoadMinutes d \<or> cand_LoadMinutes c = cand_LoadMinutes d \<and> cand_ID c \<le> cand_ID d)) \<and>
   (\<forall>ds. mset cs = mset ds \<longrightarrow> LeastLoaded cs = LeastLoaded ds)"
proof (intro conjI allI impI)
  show "snd (LeastLoaded cs) \<longleftrightarrow> cs \<noteq> []" by (simp add: LeastLoaded_eq)
  fix c assume c: "LeastLoaded cs = (c, True)"
  then show "c \<in> set cs" by (rule least_loaded.chosen_member)
  show "\<forall>d \<in> set cs. cand_LoadMinutes c < cand_LoadMinutes d \<or>
      cand_LoadMinutes c = cand_LoadMinutes d \<and> cand_ID c \<le> cand_ID d"
    using LeastLoaded_least [of _ cs] by (simp add: c candidate_le_iff)
qed (rule least_loaded.order_free)

theorem least_loaded_is_minimum_witness:
  "fst (LeastLoaded [\<lparr>cand_ID = ''b'', cand_LoadMinutes = 30\<rparr>, \<lparr>cand_ID = ''a'', cand_LoadMinutes = 30\<rparr>])
     = \<lparr>cand_ID = ''a'', cand_LoadMinutes = 30\<rparr> \<and>
   LeastLoaded [\<lparr>cand_ID = ''b'', cand_LoadMinutes = 30\<rparr>, \<lparr>cand_ID = ''a'', cand_LoadMinutes = 30\<rparr>] =
   LeastLoaded [\<lparr>cand_ID = ''a'', cand_LoadMinutes = 30\<rparr>, \<lparr>cand_ID = ''b'', cand_LoadMinutes = 30\<rparr>]"
proof -
  let ?cs = "[\<lparr>cand_ID = ''b'', cand_LoadMinutes = 30\<rparr>, \<lparr>cand_ID = ''a'', cand_LoadMinutes = 30\<rparr>]"
  let ?a = "\<lparr>cand_ID = ''a'', cand_LoadMinutes = 30\<rparr>"
  note th = least_loaded_is_minimum [of ?cs]
  obtain c where c: "LeastLoaded ?cs = (c, True)" using th by (cases "LeastLoaded ?cs") auto
  have "c \<in> set ?cs" "\<forall>d \<in> set ?cs. cand_LoadMinutes c < cand_LoadMinutes d \<or>
      cand_LoadMinutes c = cand_LoadMinutes d \<and> cand_ID c \<le> cand_ID d"
    using th c by blast+
  then have "c = ?a" by auto
  then have "fst (LeastLoaded ?cs) = ?a" using c by (metis fst_conv)
  moreover have "mset ?cs = mset (rev ?cs)" by (rule mset_rev [symmetric])
  then have "LeastLoaded ?cs = LeastLoaded (rev ?cs)" using th by blast
  ultimately show ?thesis by (metis append.simps rev.simps)
qed

end
