(* ===== verification/Assign.thy ===== *)
theory Assign
  imports Policy
begin

text \<open>
  \<^verbatim>\<open>internal/domain/qualification.go\<close> and \<^verbatim>\<open>assign.go\<close>: qualification filters and the selection
  of one technician and one bay for an interval. The abstract specification is the pair of
  predicates \<open>free_technician\<close>/\<open>free_bay\<close>: selection succeeds exactly when both have an element
  and the vehicle is free, and it then returns resources that satisfy them.
\<close>

record technician_schedule =
  ts_Technician :: technician
  ts_Booked :: "interval list"

record bay_schedule =
  bs_Bay :: bay
  bs_Booked :: "interval list"

record day_schedule =
  Technicians :: "technician_schedule list"
  Bays :: "bay_schedule list"
  VehicleBooked :: "interval list"

record assignment =
  as_Technician :: technician
  as_Bay :: bay

section \<open>Qualification\<close>

fun QualifiedTechnicians :: "technician_schedule list \<Rightarrow> string \<Rightarrow> technician_schedule list" where
  "QualifiedTechnicians [] skillID = []"
| "QualifiedTechnicians (t # techs) skillID =
     (if HasSkill (ts_Technician t) skillID then t # QualifiedTechnicians techs skillID
      else QualifiedTechnicians techs skillID)"

fun QualifiedBays :: "bay_schedule list \<Rightarrow> bay_type \<Rightarrow> bay_schedule list" where
  "QualifiedBays [] bayType = []"
| "QualifiedBays (b # bays) bayType =
     (if bay_Type (bs_Bay b) = bayType then b # QualifiedBays bays bayType
      else QualifiedBays bays bayType)"

lemma QualifiedTechnicians_filter [domain_simps]:
  "QualifiedTechnicians ts k = filter (\<lambda>t. HasSkill (ts_Technician t) k) ts"
  by (induction ts) auto

lemma QualifiedBays_filter [domain_simps]:
  "QualifiedBays bs ty = filter (\<lambda>b. bay_Type (bs_Bay b) = ty) bs"
  by (induction bs) auto

section \<open>Selection\<close>

fun load_loop :: "int \<Rightarrow> interval list \<Rightarrow> int" where
  "load_loop acc [] = acc"
| "load_loop acc (b # booked) = load_loop (acc + duration_minutes (Duration b)) booked"

definition LoadMinutes :: "interval list \<Rightarrow> int" where
  "LoadMinutes booked = load_loop 0 booked"

text \<open>The two candidate loops: a resource overlapping the interval is skipped.\<close>

fun collect_technicians ::
  "interval \<Rightarrow> technician_schedule list \<Rightarrow> (string \<rightharpoonup> technician) \<Rightarrow> candidate list
     \<Rightarrow> (string \<rightharpoonup> technician) \<times> candidate list" where
  "collect_technicians iv [] byID cands = (byID, cands)"
| "collect_technicians iv (ts # rest) byID cands =
     (if OverlapsAny iv (ts_Booked ts) then collect_technicians iv rest byID cands
      else collect_technicians iv rest
        (byID(tech_ID (ts_Technician ts) \<mapsto> ts_Technician ts))
        (cands @ [\<lparr>cand_ID = tech_ID (ts_Technician ts), cand_LoadMinutes = LoadMinutes (ts_Booked ts)\<rparr>]))"

fun collect_bays ::
  "interval \<Rightarrow> bay_schedule list \<Rightarrow> (string \<rightharpoonup> bay) \<Rightarrow> candidate list
     \<Rightarrow> (string \<rightharpoonup> bay) \<times> candidate list" where
  "collect_bays iv [] byID cands = (byID, cands)"
| "collect_bays iv (bs # rest) byID cands =
     (if OverlapsAny iv (bs_Booked bs) then collect_bays iv rest byID cands
      else collect_bays iv rest
        (byID(bay_ID (bs_Bay bs) \<mapsto> bs_Bay bs))
        (cands @ [\<lparr>cand_ID = bay_ID (bs_Bay bs), cand_LoadMinutes = LoadMinutes (bs_Booked bs)\<rparr>]))"

definition conflictingFor :: "bool \<Rightarrow> bool \<Rightarrow> resource_kind list" where
  "conflictingFor noBay noTechnician =
     (if noBay then [ResourceBay] else []) @ (if noTechnician then [ResourceTechnician] else [])"

definition Assign ::
  "day_schedule \<Rightarrow> service_type \<Rightarrow> interval \<Rightarrow> assignment_policy \<Rightarrow> go_error + assignment" where
  "Assign s st iv policy =
     (let (techByID, techCandidates) =
            collect_technicians iv (QualifiedTechnicians (Technicians s) (st_RequiredSkillID st)) Map.empty [];
          (bayByID, bayCandidates) =
            collect_bays iv (QualifiedBays (Bays s) (st_RequiredBayType st)) Map.empty [];
          conflicting = conflictingFor (bayCandidates = []) (techCandidates = [])
      in
      if conflicting \<noteq> []
      then Inl (EDomain \<lparr>err_Code = CodeNoAvailableResource,
             err_Message = ''no qualifying free resource for '' @ interval_text iv,
             err_Conflicting = conflicting\<rparr>)
      else if OverlapsAny iv (VehicleBooked s)
      then Inl (EDomain (NewError CodeVehicleAlreadyBooked
             (''vehicle already has an active appointment overlapping '' @ interval_text iv)))
      else
        let (tech, okTech) = policy techCandidates; (bay, okBay) = policy bayCandidates in
        if \<not> okTech \<or> \<not> okBay
        then Inl (EDomain \<lparr>err_Code = CodeNoAvailableResource,
               err_Message = ''assignment policy selected no resource for '' @ interval_text iv,
               err_Conflicting = conflictingFor (\<not> okBay) (\<not> okTech)\<rparr>)
        else Inr \<lparr>as_Technician = map_get zero_technician techByID (cand_ID tech),
                  as_Bay = map_get zero_bay bayByID (cand_ID bay)\<rparr>)"

section \<open>What the loops collect\<close>

definition free_technician :: "service_type \<Rightarrow> interval \<Rightarrow> technician_schedule \<Rightarrow> bool" where
  "free_technician st iv ts \<longleftrightarrow>
     HasSkill (ts_Technician ts) (st_RequiredSkillID st) \<and> \<not> OverlapsAny iv (ts_Booked ts)"

definition free_bay :: "service_type \<Rightarrow> interval \<Rightarrow> bay_schedule \<Rightarrow> bool" where
  "free_bay st iv bs \<longleftrightarrow>
     bay_Type (bs_Bay bs) = st_RequiredBayType st \<and> \<not> OverlapsAny iv (bs_Booked bs)"

definition technician_candidate :: "technician_schedule \<Rightarrow> candidate" where
  "technician_candidate ts =
     \<lparr>cand_ID = tech_ID (ts_Technician ts), cand_LoadMinutes = LoadMinutes (ts_Booked ts)\<rparr>"

definition bay_candidate :: "bay_schedule \<Rightarrow> candidate" where
  "bay_candidate bs = \<lparr>cand_ID = bay_ID (bs_Bay bs), cand_LoadMinutes = LoadMinutes (bs_Booked bs)\<rparr>"

abbreviation free_technicians :: "service_type \<Rightarrow> interval \<Rightarrow> day_schedule \<Rightarrow> technician_schedule list" where
  "free_technicians st iv s \<equiv> filter (free_technician st iv) (Technicians s)"

abbreviation free_bays :: "service_type \<Rightarrow> interval \<Rightarrow> day_schedule \<Rightarrow> bay_schedule list" where
  "free_bays st iv s \<equiv> filter (free_bay st iv) (Bays s)"

text \<open>The map an insertion loop builds from a list of entities.\<close>

definition index_by :: "('r \<Rightarrow> string) \<Rightarrow> ('r \<Rightarrow> 'v) \<Rightarrow> 'r list \<Rightarrow> (string \<rightharpoonup> 'v)" where
  "index_by ident val rs = map_of (rev (map (\<lambda>r. (ident r, val r)) rs))"

lemma index_by_Some: "index_by ident val rs k = Some v \<Longrightarrow> \<exists>r \<in> set rs. ident r = k \<and> val r = v"
  by (auto simp: index_by_def dest!: map_of_SomeD)

lemma index_by_member: "r \<in> set rs \<Longrightarrow> \<exists>v. index_by ident val rs (ident r) = Some v"
  by (metis (mono_tags, lifting) index_by_def image_eqI list.set_map map_of_eq_None_iff
      option.exhaust fst_conv set_rev)

lemma collect_technicians_eq:
  "collect_technicians iv ts byID cands =
     (let fr = filter (\<lambda>t. \<not> OverlapsAny iv (ts_Booked t)) ts in
      (byID ++ index_by (\<lambda>t. tech_ID (ts_Technician t)) ts_Technician fr, cands @ map technician_candidate fr))"
  by (induction ts arbitrary: byID cands)
    (simp_all add: Let_def index_by_def technician_candidate_def)

lemma collect_bays_eq:
  "collect_bays iv bs byID cands =
     (let fr = filter (\<lambda>b. \<not> OverlapsAny iv (bs_Booked b)) bs in
      (byID ++ index_by (\<lambda>b. bay_ID (bs_Bay b)) bs_Bay fr, cands @ map bay_candidate fr))"
  by (induction bs arbitrary: byID cands)
    (simp_all add: Let_def index_by_def bay_candidate_def)

lemma collect_qualified_technicians:
  "collect_technicians iv (QualifiedTechnicians (Technicians s) (st_RequiredSkillID st)) Map.empty [] =
     (index_by (\<lambda>t. tech_ID (ts_Technician t)) ts_Technician (free_technicians st iv s),
      map technician_candidate (free_technicians st iv s))"
  by (simp add: collect_technicians_eq domain_simps Let_def free_technician_def [abs_def] conj_commute)

lemma collect_qualified_bays:
  "collect_bays iv (QualifiedBays (Bays s) (st_RequiredBayType st)) Map.empty [] =
     (index_by (\<lambda>b. bay_ID (bs_Bay b)) bs_Bay (free_bays st iv s),
      map bay_candidate (free_bays st iv s))"
  by (simp add: collect_bays_eq domain_simps Let_def free_bay_def [abs_def] conj_commute)

text \<open>\<open>Assign\<close> over the free resources: the form every later proof starts from.\<close>

lemma Assign_eq:
  "Assign s st iv policy =
     (let fts = free_technicians st iv s; fbs = free_bays st iv s in
      if fbs = [] \<or> fts = []
      then Inl (EDomain \<lparr>err_Code = CodeNoAvailableResource,
             err_Message = ''no qualifying free resource for '' @ interval_text iv,
             err_Conflicting = conflictingFor (fbs = []) (fts = [])\<rparr>)
      else if OverlapsAny iv (VehicleBooked s)
      then Inl (EDomain (NewError CodeVehicleAlreadyBooked
             (''vehicle already has an active appointment overlapping '' @ interval_text iv)))
      else
        let (tech, okTech) = policy (map technician_candidate fts);
            (bay, okBay) = policy (map bay_candidate fbs) in
        if \<not> okTech \<or> \<not> okBay
        then Inl (EDomain \<lparr>err_Code = CodeNoAvailableResource,
               err_Message = ''assignment policy selected no resource for '' @ interval_text iv,
               err_Conflicting = conflictingFor (\<not> okBay) (\<not> okTech)\<rparr>)
        else Inr \<lparr>as_Technician = map_get zero_technician
                    (index_by (\<lambda>t. tech_ID (ts_Technician t)) ts_Technician fts) (cand_ID tech),
                  as_Bay = map_get zero_bay (index_by (\<lambda>b. bay_ID (bs_Bay b)) bs_Bay fbs) (cand_ID bay)\<rparr>)"
  unfolding Assign_def collect_qualified_technicians collect_qualified_bays Let_def split
  by (simp add: conflictingFor_def)

lemma Assign_code:
  "Assign s st iv policy = Inl err \<Longrightarrow> CodeOf err \<in> {CodeNoAvailableResource, CodeVehicleAlreadyBooked}"
  by (auto simp: Assign_eq Let_def split: if_splits prod.splits)

section \<open>Soundness and completeness of the selection\<close>

definition technician_assigned :: "day_schedule \<Rightarrow> service_type \<Rightarrow> interval \<Rightarrow> technician \<Rightarrow> bool" where
  "technician_assigned s st iv t \<longleftrightarrow>
     (\<exists>ts \<in> set (Technicians s). ts_Technician ts = t \<and> free_technician st iv ts)"

definition bay_assigned :: "day_schedule \<Rightarrow> service_type \<Rightarrow> interval \<Rightarrow> bay \<Rightarrow> bool" where
  "bay_assigned s st iv b \<longleftrightarrow>
     (\<exists>bs \<in> set (Bays s). bs_Bay bs = b \<and> free_bay st iv bs)"

lemma indexed_candidate:
  assumes "c \<in> set (map (\<lambda>r. \<lparr>cand_ID = ident r, cand_LoadMinutes = load r\<rparr>) rs)"
  shows "\<exists>r \<in> set rs. ident r = cand_ID c \<and>
           map_get z (index_by ident val rs) (cand_ID c) = val r"
proof -
  obtain r where r: "r \<in> set rs" "cand_ID c = ident r" using assms by auto
  obtain v where v: "index_by ident val rs (ident r) = Some v"
    using index_by_member [OF r(1), of ident val] by blast
  then show ?thesis using index_by_Some [OF v] r(2) by auto
qed

lemma indexed_technician:
  assumes "c \<in> set (map technician_candidate rs)"
  shows "\<exists>r \<in> set rs. tech_ID (ts_Technician r) = cand_ID c \<and>
    map_get z (index_by (\<lambda>t. tech_ID (ts_Technician t)) ts_Technician rs) (cand_ID c) = ts_Technician r"
  using assms unfolding technician_candidate_def [abs_def] by (rule indexed_candidate)

lemma indexed_bay:
  assumes "c \<in> set (map bay_candidate rs)"
  shows "\<exists>r \<in> set rs. bay_ID (bs_Bay r) = cand_ID c \<and>
    map_get z (index_by (\<lambda>b. bay_ID (bs_Bay b)) bs_Bay rs) (cand_ID c) = bs_Bay r"
  using assms unfolding bay_candidate_def [abs_def] by (rule indexed_candidate)

context policy_contract
begin

lemma assigned_resources:
  assumes "Assign s st iv pick = Inr a"
  shows "technician_assigned s st iv (as_Technician a) \<and> bay_assigned s st iv (as_Bay a) \<and>
    \<not> OverlapsAny iv (VehicleBooked s)"
proof -
  obtain ct cb where ct: "pick (map technician_candidate (free_technicians st iv s)) = (ct, True)"
    and cb: "pick (map bay_candidate (free_bays st iv s)) = (cb, True)"
    and veh: "\<not> OverlapsAny iv (VehicleBooked s)"
    and a: "as_Technician a = map_get zero_technician
         (index_by (\<lambda>t. tech_ID (ts_Technician t)) ts_Technician (free_technicians st iv s)) (cand_ID ct)"
      "as_Bay a = map_get zero_bay (index_by (\<lambda>b. bay_ID (bs_Bay b)) bs_Bay (free_bays st iv s)) (cand_ID cb)"
    using assms by (auto simp: Assign_eq Let_def split: if_splits prod.splits)
  show ?thesis
    using indexed_technician [OF chosen_member [OF ct], of zero_technician]
      indexed_bay [OF chosen_member [OF cb], of zero_bay] veh
    by (auto simp: technician_assigned_def bay_assigned_def a)
qed

end

text \<open>The verdict of a selection as a specification: first the resources, then the vehicle.\<close>

definition selection_verdict :: "day_schedule \<Rightarrow> service_type \<Rightarrow> interval \<Rightarrow> (code \<times> resource_kind list) option" where
  "selection_verdict s st iv =
     (let noBay = \<not> (\<exists>b \<in> set (Bays s). free_bay st iv b);
          noTech = \<not> (\<exists>t \<in> set (Technicians s). free_technician st iv t) in
      if noBay \<or> noTech then Some (CodeNoAvailableResource, conflictingFor noBay noTech)
      else if \<exists>j \<in> set (VehicleBooked s). Overlaps iv j then Some (CodeVehicleAlreadyBooked, [])
      else None)"

context deterministic_policy
begin

lemma assign_verdict:
  "case selection_verdict s st iv of
     None \<Rightarrow> \<exists>a. Assign s st iv pick = Inr a
   | Some (c, ks) \<Rightarrow> \<exists>e. Assign s st iv pick = Inl (EDomain e) \<and> err_Code e = c \<and> err_Conflicting e = ks"
proof (cases "free_technicians st iv s = [] \<or> free_bays st iv s = []")
  case True
  then show ?thesis
    by (auto simp: Assign_eq selection_verdict_def Let_def filter_empty_conv conflictingFor_def)
next
  case False
  then have "snd (pick (map technician_candidate (free_technicians st iv s)))"
    and "snd (pick (map bay_candidate (free_bays st iv s)))"
    by (auto intro!: chooses)
  with False show ?thesis
    by (auto simp: Assign_eq selection_verdict_def Let_def filter_empty_conv domain_simps
        split: prod.splits)
qed

lemma assign_succeeds_iff: "(\<exists>a. Assign s st iv pick = Inr a) \<longleftrightarrow> selection_verdict s st iv = None"
  using assign_verdict [of s st iv] by (auto split: option.splits)

end

section \<open>The order of the rows does not matter\<close>

text \<open>
  What the database returns without an ORDER BY may come in any order: two schedules are the same
  day when they have the same resources, each with the same bookings, as multisets.
\<close>

definition technician_view :: "technician_schedule \<Rightarrow> technician \<times> interval multiset" where
  "technician_view ts = (ts_Technician ts, mset (ts_Booked ts))"

definition bay_view :: "bay_schedule \<Rightarrow> bay \<times> interval multiset" where
  "bay_view bs = (bs_Bay bs, mset (bs_Booked bs))"

definition same_day :: "day_schedule \<Rightarrow> day_schedule \<Rightarrow> bool" where
  "same_day s s' \<longleftrightarrow>
     mset (map technician_view (Technicians s)) = mset (map technician_view (Technicians s')) \<and>
     mset (map bay_view (Bays s)) = mset (map bay_view (Bays s')) \<and>
     set (VehicleBooked s) = set (VehicleBooked s')"

definition distinct_resources :: "day_schedule \<Rightarrow> bool" where
  "distinct_resources s \<longleftrightarrow>
     distinct (map (\<lambda>t. tech_ID (ts_Technician t)) (Technicians s)) \<and>
     distinct (map (\<lambda>b. bay_ID (bs_Bay b)) (Bays s))"

lemma load_loop_sum: "load_loop n bs = n + (\<Sum>b \<in># mset bs. duration_minutes (Duration b))"
  by (induction bs arbitrary: n) simp_all

lemma LoadMinutes_sum [domain_simps]: "LoadMinutes bs = (\<Sum>b \<in># mset bs. duration_minutes (Duration b))"
  by (simp add: LoadMinutes_def load_loop_sum)

lemma index_by_iff:
  assumes "distinct (map ident rs)"
  shows "index_by ident val rs k = Some v \<longleftrightarrow> (\<exists>r \<in> set rs. ident r = k \<and> val r = v)"
proof
  assume "\<exists>r \<in> set rs. ident r = k \<and> val r = v"
  then obtain r where r: "r \<in> set rs" "ident r = k" "val r = v" by blast
  obtain w where w: "index_by ident val rs k = Some w"
    using index_by_member [OF r(1), of ident val] r(2) by auto
  then obtain r' where "r' \<in> set rs" "ident r' = k" "val r' = w"
    using index_by_Some [OF w] by blast
  then have "r' = r" using assms r by (auto simp: distinct_map inj_on_def)
  then show "index_by ident val rs k = Some v" using w r \<open>val r' = w\<close> by simp
qed (rule index_by_Some)

text \<open>A filtered and mapped list depends only on what a view keeps of its elements.\<close>

lemma view_cong:
  assumes "mset (map f xs) = mset (map f ys)" "P = Q \<circ> f" "g = h \<circ> f"
  shows "mset (map g (filter P xs)) = mset (map g (filter P ys))"
proof -
  have "mset (map g (filter P zs)) = image_mset h (filter_mset Q (mset (map f zs)))" for zs
    by (induction zs) (simp_all add: assms(2,3))
  then show ?thesis using assms(1) by metis
qed

lemma technician_views:
  "free_technician st iv = (\<lambda>(t, B). HasSkill t (st_RequiredSkillID st) \<and> \<not> (\<exists>j \<in># B. Overlaps iv j))
     \<circ> technician_view"
  "technician_candidate = (\<lambda>(t, B).
     \<lparr>cand_ID = tech_ID t, cand_LoadMinutes = (\<Sum>b \<in># B. duration_minutes (Duration b))\<rparr>) \<circ> technician_view"
  "(\<lambda>ts. (tech_ID (ts_Technician ts), ts_Technician ts)) = (\<lambda>(t, B). (tech_ID t, t)) \<circ> technician_view"
  by (auto simp: free_technician_def technician_view_def technician_candidate_def domain_simps fun_eq_iff)

lemma bay_views:
  "free_bay st iv = (\<lambda>(b, B). bay_Type b = st_RequiredBayType st \<and> \<not> (\<exists>j \<in># B. Overlaps iv j)) \<circ> bay_view"
  "bay_candidate = (\<lambda>(b, B).
     \<lparr>cand_ID = bay_ID b, cand_LoadMinutes = (\<Sum>b \<in># B. duration_minutes (Duration b))\<rparr>) \<circ> bay_view"
  "(\<lambda>bs. (bay_ID (bs_Bay bs), bs_Bay bs)) = (\<lambda>(b, B). (bay_ID b, b)) \<circ> bay_view"
  by (auto simp: free_bay_def bay_view_def bay_candidate_def domain_simps fun_eq_iff)

lemma index_by_cong:
  assumes "distinct (map ident rs)" "distinct (map ident rs')"
    and "set (map (\<lambda>r. (ident r, val r)) rs) = set (map (\<lambda>r. (ident r, val r)) rs')"
  shows "index_by ident val rs = index_by ident val rs'"
proof
  fix k
  have "index_by ident val rs k = Some v \<longleftrightarrow> index_by ident val rs' k = Some v" for v
    using assms(3) unfolding index_by_iff [OF assms(1)] index_by_iff [OF assms(2)]
    by (auto simp: image_iff set_eq_iff) metis+
  then show "index_by ident val rs k = index_by ident val rs' k"
    by (metis not_None_eq)
qed

lemma distinct_map_filter_id: "distinct (map f xs) \<Longrightarrow> distinct (map f (filter P xs))"
  by (induction xs) auto

lemma same_day_free:
  assumes "same_day s s'"
  shows "mset (map technician_candidate (free_technicians st iv s)) =
      mset (map technician_candidate (free_technicians st iv s'))"
    and "mset (map bay_candidate (free_bays st iv s)) = mset (map bay_candidate (free_bays st iv s'))"
    and "set (map (\<lambda>t. (tech_ID (ts_Technician t), ts_Technician t)) (free_technicians st iv s)) =
      set (map (\<lambda>t. (tech_ID (ts_Technician t), ts_Technician t)) (free_technicians st iv s'))"
    and "set (map (\<lambda>b. (bay_ID (bs_Bay b), bs_Bay b)) (free_bays st iv s)) =
      set (map (\<lambda>b. (bay_ID (bs_Bay b), bs_Bay b)) (free_bays st iv s'))"
proof -
  have t: "mset (map technician_view (Technicians s)) = mset (map technician_view (Technicians s'))"
    and b: "mset (map bay_view (Bays s)) = mset (map bay_view (Bays s'))"
    using assms by (simp_all add: same_day_def)
  show "mset (map technician_candidate (free_technicians st iv s)) =
      mset (map technician_candidate (free_technicians st iv s'))"
    by (rule view_cong [OF t technician_views(1,2)])
  show "mset (map bay_candidate (free_bays st iv s)) = mset (map bay_candidate (free_bays st iv s'))"
    by (rule view_cong [OF b bay_views(1,2)])
  show "set (map (\<lambda>t. (tech_ID (ts_Technician t), ts_Technician t)) (free_technicians st iv s)) =
      set (map (\<lambda>t. (tech_ID (ts_Technician t), ts_Technician t)) (free_technicians st iv s'))"
    by (rule mset_eq_setD [OF view_cong [OF t technician_views(1,3)]])
  show "set (map (\<lambda>b. (bay_ID (bs_Bay b), bs_Bay b)) (free_bays st iv s)) =
      set (map (\<lambda>b. (bay_ID (bs_Bay b), bs_Bay b)) (free_bays st iv s'))"
    by (rule mset_eq_setD [OF view_cong [OF b bay_views(1,3)]])
qed

context deterministic_policy
begin

lemma assign_order_free:
  assumes same: "same_day s s'" and d: "distinct_resources s" "distinct_resources s'"
  shows "Assign s st iv pick = Assign s' st iv pick"
proof -
  note f = same_day_free [OF same, of st iv]
  have empty: "free_technicians st iv s = [] \<longleftrightarrow> free_technicians st iv s' = []"
      "free_bays st iv s = [] \<longleftrightarrow> free_bays st iv s' = []"
    using f(1,2) by (metis map_is_Nil_conv mset_zero_iff)+
  have veh: "OverlapsAny iv (VehicleBooked s) \<longleftrightarrow> OverlapsAny iv (VehicleBooked s')"
    using same by (simp add: same_day_def domain_simps)
  have idx: "index_by (\<lambda>t. tech_ID (ts_Technician t)) ts_Technician (free_technicians st iv s) =
      index_by (\<lambda>t. tech_ID (ts_Technician t)) ts_Technician (free_technicians st iv s')"
      "index_by (\<lambda>b. bay_ID (bs_Bay b)) bs_Bay (free_bays st iv s) =
      index_by (\<lambda>b. bay_ID (bs_Bay b)) bs_Bay (free_bays st iv s')"
    using d f(3,4) by (auto simp: distinct_resources_def intro!: index_by_cong distinct_map_filter_id)
  show ?thesis
    unfolding Assign_eq Let_def empty veh idx order_free [OF f(1)] order_free [OF f(2)] ..
qed

end

section \<open>The least-loaded choice\<close>

lemma least_loaded_candidate:
  assumes d: "distinct (map ident rs)"
    and pick: "LeastLoaded (map (\<lambda>r. \<lparr>cand_ID = ident r, cand_LoadMinutes = load r\<rparr>) rs) = (c, True)"
  shows "\<exists>r \<in> set rs. map_get z (index_by ident val rs) (cand_ID c) = val r \<and>
    (\<forall>r' \<in> set rs. (load r, ident r) \<le> (load r', ident r'))"
proof -
  let ?cs = "map (\<lambda>r. \<lparr>cand_ID = ident r, cand_LoadMinutes = load r\<rparr>) rs"
  obtain r where r: "r \<in> set rs" "c = \<lparr>cand_ID = ident r, cand_LoadMinutes = load r\<rparr>"
    using least_loaded.chosen_member [OF pick] by auto
  have "index_by ident val rs (cand_ID c) = Some (val r)"
    using r by (auto simp: index_by_iff [OF d])
  moreover have "(load r, ident r) \<le> (load r', ident r')" if "r' \<in> set rs" for r'
  proof -
    have "c \<le> \<lparr>cand_ID = ident r', cand_LoadMinutes = load r'\<rparr>"
      using LeastLoaded_least [of "\<lparr>cand_ID = ident r', cand_LoadMinutes = load r'\<rparr>" ?cs] that pick
      by auto
    then show ?thesis by (auto simp: candidate_le_iff r(2))
  qed
  ultimately show ?thesis using r(1) by auto
qed

lemma assign_least_loaded:
  assumes "Assign s st iv LeastLoaded = Inr a" and d: "distinct_resources s"
  shows "(\<exists>ts \<in> set (free_technicians st iv s). ts_Technician ts = as_Technician a \<and>
      (\<forall>ts' \<in> set (free_technicians st iv s).
         (LoadMinutes (ts_Booked ts), tech_ID (ts_Technician ts))
         \<le> (LoadMinutes (ts_Booked ts'), tech_ID (ts_Technician ts')))) \<and>
    (\<exists>bs \<in> set (free_bays st iv s). bs_Bay bs = as_Bay a \<and>
      (\<forall>bs' \<in> set (free_bays st iv s).
         (LoadMinutes (bs_Booked bs), bay_ID (bs_Bay bs))
         \<le> (LoadMinutes (bs_Booked bs'), bay_ID (bs_Bay bs'))))"
proof -
  obtain ct cb where ct: "LeastLoaded (map technician_candidate (free_technicians st iv s)) = (ct, True)"
    and cb: "LeastLoaded (map bay_candidate (free_bays st iv s)) = (cb, True)"
    and a: "as_Technician a = map_get zero_technician
         (index_by (\<lambda>t. tech_ID (ts_Technician t)) ts_Technician (free_technicians st iv s)) (cand_ID ct)"
      "as_Bay a = map_get zero_bay (index_by (\<lambda>b. bay_ID (bs_Bay b)) bs_Bay (free_bays st iv s)) (cand_ID cb)"
    using assms(1) by (auto simp: Assign_eq Let_def split: if_splits prod.splits)
  have dt: "distinct (map (\<lambda>t. tech_ID (ts_Technician t)) (free_technicians st iv s))"
    and db: "distinct (map (\<lambda>b. bay_ID (bs_Bay b)) (free_bays st iv s))"
    using d by (auto simp: distinct_resources_def intro: distinct_map_filter_id)
  show ?thesis
    using least_loaded_candidate [OF dt ct [unfolded technician_candidate_def [abs_def]], of zero_technician ts_Technician]
      least_loaded_candidate [OF db cb [unfolded bay_candidate_def [abs_def]], of zero_bay bs_Bay]
    by (auto simp: a)
qed

section \<open>Properties\<close>

text \<open>C3: an assignment names a technician of the schedule that holds the required skill and a bay of the
  required type (INV-4, INV-5), neither with a booking that overlaps the interval, for a vehicle
  that is free then; and one is found exactly when such a technician, such a bay and a free vehicle exist.\<close>

theorem assign_sound_and_complete:
  "(\<forall>a. Assign s st iv LeastLoaded = Inr a \<longrightarrow>
      (\<exists>ts \<in> set (Technicians s). ts_Technician ts = as_Technician a \<and>
         st_RequiredSkillID st \<in> set (tech_SkillIDs (as_Technician a)) \<and> \<not> (\<exists>j \<in> set (ts_Booked ts). Overlaps iv j)) \<and>
      (\<exists>bs \<in> set (Bays s). bs_Bay bs = as_Bay a \<and> bay_Type (as_Bay a) = st_RequiredBayType st \<and>
         \<not> (\<exists>j \<in> set (bs_Booked bs). Overlaps iv j)) \<and>
      \<not> (\<exists>j \<in> set (VehicleBooked s). Overlaps iv j)) \<and>
   ((\<exists>a. Assign s st iv LeastLoaded = Inr a) \<longleftrightarrow>
      (\<exists>ts \<in> set (Technicians s). free_technician st iv ts) \<and> (\<exists>bs \<in> set (Bays s). free_bay st iv bs) \<and>
      \<not> (\<exists>j \<in> set (VehicleBooked s). Overlaps iv j))"
proof
  show "\<forall>a. Assign s st iv LeastLoaded = Inr a \<longrightarrow>
      (\<exists>ts \<in> set (Technicians s). ts_Technician ts = as_Technician a \<and>
         st_RequiredSkillID st \<in> set (tech_SkillIDs (as_Technician a)) \<and> \<not> (\<exists>j \<in> set (ts_Booked ts). Overlaps iv j)) \<and>
      (\<exists>bs \<in> set (Bays s). bs_Bay bs = as_Bay a \<and> bay_Type (as_Bay a) = st_RequiredBayType st \<and>
         \<not> (\<exists>j \<in> set (bs_Booked bs). Overlaps iv j)) \<and>
      \<not> (\<exists>j \<in> set (VehicleBooked s). Overlaps iv j)"
    using least_loaded.assigned_resources [of s st iv]
    by (fastforce simp: technician_assigned_def bay_assigned_def free_technician_def free_bay_def domain_simps)
  show "(\<exists>a. Assign s st iv LeastLoaded = Inr a) \<longleftrightarrow>
      (\<exists>ts \<in> set (Technicians s). free_technician st iv ts) \<and> (\<exists>bs \<in> set (Bays s). free_bay st iv bs) \<and>
      \<not> (\<exists>j \<in> set (VehicleBooked s). Overlaps iv j)"
    unfolding least_loaded.assign_succeeds_iff by (simp add: selection_verdict_def Let_def)
qed

text \<open>C16: a rejected selection says why: missing resources come first and are named, bay before technician,
  and only when both kinds are free is the vehicle's own appointment reported (AC-18).\<close>

theorem assign_rejection_precise:
  assumes "Assign s st iv LeastLoaded = Inl err"
  shows "\<exists>e. err = EDomain e \<and>
    (if (\<exists>b \<in> set (Bays s). free_bay st iv b) \<and> (\<exists>t \<in> set (Technicians s). free_technician st iv t)
     then err_Code e = CodeVehicleAlreadyBooked \<and> err_Conflicting e = [] \<and> (\<exists>j \<in> set (VehicleBooked s). Overlaps iv j)
     else err_Code e = CodeNoAvailableResource \<and> err_Conflicting e =
       (if \<exists>b \<in> set (Bays s). free_bay st iv b then [] else [ResourceBay]) @
       (if \<exists>t \<in> set (Technicians s). free_technician st iv t then [] else [ResourceTechnician]))"
proof -
  obtain c ks where v: "selection_verdict s st iv = Some (c, ks)"
    using least_loaded.assign_verdict [of s st iv] assms by (auto split: option.splits)
  then obtain e where e: "err = EDomain e" "err_Code e = c" "err_Conflicting e = ks"
    using least_loaded.assign_verdict [of s st iv] assms by auto
  then show ?thesis
    using v by (auto simp: selection_verdict_def Let_def conflictingFor_def split: if_splits)
qed

text \<open>C17: of the free qualified resources the least-loaded technician and the least-loaded bay of the day
  are chosen, ties going to the smaller identifier (BR-6).\<close>

theorem assign_picks_least_loaded:
  assumes "Assign s st iv LeastLoaded = Inr a" "distinct_resources s"
  shows "(\<exists>ts \<in> set (Technicians s). ts_Technician ts = as_Technician a \<and> free_technician st iv ts \<and>
      (\<forall>ts' \<in> set (Technicians s). free_technician st iv ts' \<longrightarrow>
         (LoadMinutes (ts_Booked ts), tech_ID (ts_Technician ts))
         \<le> (LoadMinutes (ts_Booked ts'), tech_ID (ts_Technician ts')))) \<and>
    (\<exists>bs \<in> set (Bays s). bs_Bay bs = as_Bay a \<and> free_bay st iv bs \<and>
      (\<forall>bs' \<in> set (Bays s). free_bay st iv bs' \<longrightarrow>
         (LoadMinutes (bs_Booked bs), bay_ID (bs_Bay bs))
         \<le> (LoadMinutes (bs_Booked bs'), bay_ID (bs_Bay bs'))))"
  using assign_least_loaded [OF assms] unfolding set_filter by blast

text \<open>C18: the selection does not depend on the order in which the database returns technicians, bays and
  appointments (AC-21).\<close>

theorem assign_ignores_row_order:
  assumes "same_day s s'" "distinct_resources s" "distinct_resources s'"
  shows "Assign s st iv LeastLoaded = Assign s' st iv LeastLoaded"
  using assms by (rule least_loaded.assign_order_free)

section \<open>Witnesses\<close>

definition at_hour :: "int \<Rightarrow> interval" where
  "at_hour n = NewInterval \<lparr>t_ns = n * hour, t_loc = UTC\<rparr> hour"

definition sample_service :: service_type where
  "sample_service = \<lparr>st_ID = ''s'', st_Name = ''Alignment'', st_Duration = hour, st_RequiredSkillID = ''k'',
     st_RequiredBayType = BayTypeAlignment\<rparr>"

definition sample_technician :: "string \<Rightarrow> interval list \<Rightarrow> technician_schedule" where
  "sample_technician i booked = \<lparr>ts_Technician = \<lparr>tech_ID = i, tech_Name = i, tech_SkillIDs = [''k'']\<rparr>, ts_Booked = booked\<rparr>"

definition sample_bay :: "string \<Rightarrow> interval list \<Rightarrow> bay_schedule" where
  "sample_bay i booked = \<lparr>bs_Bay = \<lparr>bay_ID = i, bay_Name = i, bay_Type = BayTypeAlignment\<rparr>, bs_Booked = booked\<rparr>"

definition sample_day :: day_schedule where
  "sample_day = \<lparr>Technicians = [sample_technician ''t2'' [], sample_technician ''t1'' [at_hour 9]],
     Bays = [sample_bay ''b1'' [at_hour 9]], VehicleBooked = []\<rparr>"

lemma sample_distinct: "distinct_resources sample_day"
  by (simp add: distinct_resources_def sample_day_def sample_technician_def sample_bay_def)

lemmas sample_simps = sample_day_def sample_technician_def sample_bay_def sample_service_def at_hour_def
  free_technician_def free_bay_def domain_simps go_time_simps

lemma small_assigned:
  "\<exists>a. Assign sample_day sample_service (at_hour 10) LeastLoaded = Inr a"
  unfolding least_loaded.assign_succeeds_iff
  by (simp add: selection_verdict_def Let_def sample_simps hour_def)

theorem assign_sound_and_complete_witness:
  "\<exists>a. Assign sample_day sample_service (at_hour 10) LeastLoaded = Inr a \<and>
     bay_Type (as_Bay a) = BayTypeAlignment \<and> ''k'' \<in> set (tech_SkillIDs (as_Technician a))"
proof -
  note th = assign_sound_and_complete [of sample_day sample_service "at_hour 10"]
  obtain a where a: "Assign sample_day sample_service (at_hour 10) LeastLoaded = Inr a"
    using small_assigned by blast
  with th show ?thesis by (auto simp: sample_service_def)
qed

theorem assign_rejection_precise_witness:
  "\<exists>e. Assign sample_day sample_service (at_hour 9) LeastLoaded = Inl (EDomain e) \<and>
     err_Code e = CodeNoAvailableResource \<and> err_Conflicting e = [ResourceBay]"
proof -
  have none: "\<not> (\<exists>b \<in> set (Bays sample_day). free_bay sample_service (at_hour 9) b)"
    and some: "\<exists>t \<in> set (Technicians sample_day). free_technician sample_service (at_hour 9) t"
    by (simp_all add: sample_simps hour_def)
  then have "\<not> (\<exists>a. Assign sample_day sample_service (at_hour 9) LeastLoaded = Inr a)"
    unfolding least_loaded.assign_succeeds_iff by (simp add: selection_verdict_def Let_def)
  then obtain err where e: "Assign sample_day sample_service (at_hour 9) LeastLoaded = Inl err"
    by (metis sum.exhaust)
  show ?thesis using assign_rejection_precise [OF e] none some e by auto
qed

theorem assign_picks_least_loaded_witness:
  "\<exists>a. Assign sample_day sample_service (at_hour 10) LeastLoaded = Inr a \<and> tech_ID (as_Technician a) = ''t2''"
proof -
  obtain a where a: "Assign sample_day sample_service (at_hour 10) LeastLoaded = Inr a"
    using small_assigned by blast
  obtain ts where ts: "ts \<in> set (Technicians sample_day)" "ts_Technician ts = as_Technician a"
    and least: "\<forall>ts' \<in> set (Technicians sample_day). free_technician sample_service (at_hour 10) ts' \<longrightarrow>
      (LoadMinutes (ts_Booked ts), tech_ID (ts_Technician ts)) \<le> (LoadMinutes (ts_Booked ts'), tech_ID (ts_Technician ts'))"
    using conjunct1 [OF assign_picks_least_loaded [OF a sample_distinct]] by blast
  have load: "LoadMinutes [] = 0" "LoadMinutes [at_hour 9] = 60" by code_simp+
  have "free_technician sample_service (at_hour 10) (sample_technician ''t2'' [])"
    by (simp add: sample_simps)
  then have "(LoadMinutes (ts_Booked ts), tech_ID (ts_Technician ts)) \<le> (0, ''t2'')"
    using least load by (auto simp: sample_day_def sample_technician_def)
  then have "tech_ID (ts_Technician ts) = ''t2''"
    using ts(1) load by (auto simp: sample_day_def sample_technician_def)
  then have "tech_ID (as_Technician a) = ''t2''" using ts(2) by simp
  with a show ?thesis by blast
qed

theorem assign_ignores_row_order_witness:
  "Assign sample_day sample_service (at_hour 10) LeastLoaded =
   Assign (sample_day\<lparr>Technicians := rev (Technicians sample_day)\<rparr>) sample_service (at_hour 10) LeastLoaded"
  by (rule assign_ignores_row_order [OF _ sample_distinct])
    (simp_all add: same_day_def distinct_resources_def sample_day_def sample_technician_def sample_bay_def
      technician_view_def)

end
