(* ===== verification/Availability.thy ===== *)
theory Availability
  imports Assign
begin

text \<open>
  \<^verbatim>\<open>internal/domain/availability.go\<close>: the bookable start times of a day. The loop is a function
  on the start time; the guard \<open>0 < granularity\<close>, which the code checks once before the loop, is
  repeated in it because it is what makes the loop end.
\<close>

definition DefaultSlotGranularity :: duration where
  "DefaultSlotGranularity = 30 * minute"

function slot_loop ::
  "day_window \<Rightarrow> service_type \<Rightarrow> day_schedule \<Rightarrow> gtime \<Rightarrow> duration \<Rightarrow> assignment_policy
     \<Rightarrow> location \<Rightarrow> gtime \<Rightarrow> gtime list" where
  "slot_loop window st s now granularity policy loc start =
     (if 0 < granularity \<and> \<not> after (add_duration start (st_Duration st)) (w_Close window)
      then
        if before start now
        then slot_loop window st s now granularity policy loc (add_duration start granularity)
        else
          (case Assign s st (NewInterval start (st_Duration st)) policy of
             Inl err \<Rightarrow> slot_loop window st s now granularity policy loc (add_duration start granularity)
           | Inr a \<Rightarrow> in_loc start loc
               # slot_loop window st s now granularity policy loc (add_duration start granularity))
      else [])"
  by pat_completeness auto
termination
  by (relation "measure (\<lambda>(window, st, s, now, g, policy, loc, start).
        nat (t_ns (w_Close window) + 1 - (t_ns start + st_Duration st)))")
    (auto simp: go_time_simps)

declare slot_loop.simps [simp del]

definition AvailableSlots ::
  "day_window \<Rightarrow> service_type \<Rightarrow> day_schedule \<Rightarrow> gtime \<Rightarrow> duration \<Rightarrow> assignment_policy \<Rightarrow> gtime list" where
  "AvailableSlots window st s now granularity policy =
     (if granularity \<le> 0 \<or> st_Duration st \<le> 0 then []
      else slot_loop window st s now granularity policy (t_loc (w_Open window)) (w_Open window))"

section \<open>The slots, characterised\<close>

definition bookable :: "day_window \<Rightarrow> service_type \<Rightarrow> day_schedule \<Rightarrow> gtime \<Rightarrow> assignment_policy \<Rightarrow> gtime \<Rightarrow> bool" where
  "bookable window st s now policy t \<longleftrightarrow>
     t_ns now \<le> t_ns t \<and> t_ns t + st_Duration st \<le> t_ns (w_Close window) \<and>
     (\<exists>a. Assign s st (NewInterval t (st_Duration st)) policy = Inr a)"

text \<open>Selection looks at instants only: the location of the slot does not change whether it succeeds.\<close>

lemma Overlaps_instant_cong:
  "t_ns (iv_start i) = t_ns (iv_start i') \<Longrightarrow> t_ns (iv_end i) = t_ns (iv_end i') \<Longrightarrow> Overlaps i j = Overlaps i' j"
  by (simp add: go_time_simps)

lemma slot_loop_unfold:
  assumes "0 < g"
  shows "slot_loop w st s now g pol loc start =
    (if t_ns start + st_Duration st \<le> t_ns (w_Close w)
     then (if bookable w st s now pol start then [in_loc start loc] else [])
          @ slot_loop w st s now g pol loc (add_duration start g)
     else [])"
  using assms
  by (subst slot_loop.simps) (auto simp: go_time_simps bookable_def split: sum.splits)

lemma slot_loop_set:
  assumes "0 < g"
  shows "set (slot_loop w st s now g pol loc start) =
    {in_loc (add_duration start (int k * g)) loc | k. bookable w st s now pol (add_duration start (int k * g))}"
  using assms
proof (induction w st s now g pol loc start rule: slot_loop.induct)
  case (1 w st s now g pol loc start)
  let ?slot = "\<lambda>x k. add_duration x (int k * g)"
  have shift: "?slot (add_duration start g) k = ?slot start (Suc k)" for k
    by (simp add: add_duration_def algebra_simps)
  show ?case
  proof (cases "t_ns start + st_Duration st \<le> t_ns (w_Close w)")
    case False
    have "\<not> bookable w st s now pol (?slot start k)" for k
    proof -
      have "0 \<le> int k * g" using 1(4) by simp
      then show ?thesis using False by (auto simp: bookable_def)
    qed
    with False show ?thesis by (simp add: slot_loop_unfold [OF 1(4)])
  next
    case True
    have rest: "set (slot_loop w st s now g pol loc (add_duration start g)) =
        {in_loc (?slot start (Suc k)) loc | k. bookable w st s now pol (?slot start (Suc k))}"
      using 1 True by (cases "before start now"; cases "Assign s st (NewInterval start (st_Duration st)) pol")
        (auto simp: go_time_simps shift)
    have zero: "?slot start 0 = start" by (simp add: add_duration_def)
    have "{in_loc (?slot start k) loc | k. bookable w st s now pol (?slot start k)} =
        (if bookable w st s now pol start then {in_loc start loc} else {}) \<union>
        {in_loc (?slot start (Suc k)) loc | k. bookable w st s now pol (?slot start (Suc k))}"
      using indexed_family_step [of "\<lambda>k. in_loc (?slot start k) loc" "\<lambda>k. bookable w st s now pol (?slot start k)"]
      unfolding zero .
    then show ?thesis using rest True by (simp add: slot_loop_unfold [OF 1(4), of w st s now pol loc start])
  qed
qed

lemma in_loc_same: "in_loc (add_duration t d) (t_loc t) = add_duration t d"
  by (simp add: in_loc_def add_duration_def)

lemma AvailableSlots_set:
  "set (AvailableSlots w st s now g pol) =
    (if 0 < g \<and> 0 < st_Duration st
     then {add_duration (w_Open w) (int k * g) | k. bookable w st s now pol (add_duration (w_Open w) (int k * g))}
     else {})"
  by (auto simp: AvailableSlots_def slot_loop_set in_loc_same)

lemma slot_loop_ge:
  assumes "0 < g" "t \<in> set (slot_loop w st s now g pol loc start)"
  shows "t_ns start \<le> t_ns t"
  using assms by (auto simp: slot_loop_set)

lemma slot_loop_sorted:
  assumes "0 < g"
  shows "sorted_wrt (\<lambda>a b. t_ns a < t_ns b) (slot_loop w st s now g pol loc start)"
  using assms
proof (induction w st s now g pol loc start rule: slot_loop.induct)
  case (1 w st s now g pol loc start)
  show ?case
  proof (cases "t_ns start + st_Duration st \<le> t_ns (w_Close w)")
    case True
    have "sorted_wrt (\<lambda>a b. t_ns a < t_ns b) (slot_loop w st s now g pol loc (add_duration start g))"
      using 1 True by (cases "before start now"; cases "Assign s st (NewInterval start (st_Duration st)) pol")
        (auto simp: go_time_simps)
    then show ?thesis
      using True 1(4) slot_loop_ge [OF 1(4), of _ w st s now pol loc "add_duration start g"]
      by (fastforce simp: slot_loop_unfold [OF 1(4), of w st s now pol loc start])
  qed (simp add: slot_loop_unfold [OF 1(4)])
qed

lemma AvailableSlots_sorted: "sorted_wrt (\<lambda>a b. t_ns a < t_ns b) (AvailableSlots w st s now g pol)"
  by (simp add: AvailableSlots_def slot_loop_sorted)

section \<open>Agreement with booking\<close>

lemma AvailableSlots_bookable:
  assumes "t \<in> set (AvailableSlots w st s now g pol)"
  shows "bookable w st s now pol t \<and> t_ns (w_Open w) \<le> t_ns t \<and> 0 < st_Duration st"
  using assms by (auto simp: AvailableSlots_set split: if_splits)

lemma slot_accepted_by_booking:
  assumes zone: "steady_day loc off (epoch_day d)" and d: "valid_date d"
    and w: "Window hours d loc = Some w" and oh: "hours (date_weekday d) = Some oh" "within_day_hours oh"
    and slot: "t \<in> set (AvailableSlots w st s now g pol)"
  shows "DateOf t loc = d" and "ValidateBookingTime t (st_Duration st) now loc hours = Inr (NewInterval t (st_Duration st)) \<and>
    (\<exists>a. Assign s st (NewInterval t (st_Duration st)) pol = Inr a)"
proof -
  note b = AvailableSlots_bookable [OF slot]
  have "OpensAt oh * minute \<ge> 0" and "ClosesAt oh * minute \<le> 1440 * minute"
    using oh(2) by (simp_all add: within_day_hours_def minute_def)
  then show date: "DateOf t loc = d"
    using b Window_steady [OF zone w oh] Bounds_steady [OF zone]
    by (intro DateOf_in_Bounds [OF zone d]) (simp_all add: bookable_def)
  show "ValidateBookingTime t (st_Duration st) now loc hours = Inr (NewInterval t (st_Duration st)) \<and>
    (\<exists>a. Assign s st (NewInterval t (st_Duration st)) pol = Inr a)"
    using b w date by (auto simp: ValidateBookingTime_Inr bookable_def)
qed

text \<open>A start at the instant of an offered slot is accepted, whatever location it carries.\<close>

lemma Assign_instant_cong:
  assumes "t_ns (iv_start i) = t_ns (iv_start i')" "t_ns (iv_end i) = t_ns (iv_end i')"
    and a: "Assign sched st i pol = Inr a"
  shows "Assign sched st i' pol = Inr a"
proof -
  have "Overlaps i = Overlaps i'" using Overlaps_instant_cong [OF assms(1,2)] by auto
  then have o: "OverlapsAny i bs = OverlapsAny i' bs" for bs by (simp add: OverlapsAny_iff)
  then have "free_technician st i = free_technician st i'" "free_bay st i = free_bay st i'"
    by (simp_all add: free_technician_def [abs_def] free_bay_def [abs_def])
  then show ?thesis
    using a by (auto simp: Assign_eq Let_def o split: if_splits prod.splits)
qed

lemma slot_start_accepted:
  assumes "steady_day loc off (epoch_day date)" "valid_date date" "Window hours date loc = Some w"
    and "\<forall>wd oh. hours wd = Some oh \<longrightarrow> within_day_hours oh"
    and slot: "slot \<in> set (AvailableSlots w st sched now g pol)" "t_ns start = t_ns slot"
  shows "DateOf start loc = date"
    and "t_ns now' \<le> t_ns start \<Longrightarrow>
      ValidateBookingTime start (st_Duration st) now' loc hours = Inr (NewInterval start (st_Duration st))"
    and "\<exists>a. Assign sched st (NewInterval start (st_Duration st)) pol = Inr a"
proof -
  obtain oh where oh: "hours (date_weekday date) = Some oh" "within_day_hours oh"
    using assms(3,4) by (auto simp: Window_def split: option.splits)
  note a = slot_accepted_by_booking [OF assms(1-3) oh slot(1)]
  have "in_loc start loc = in_loc slot loc" using slot(2) by (simp add: in_loc_def)
  then have d: "DateOf start loc = DateOf slot loc" by (simp add: DateOf_def)
  then show "DateOf start loc = date" using a(1) by simp
  show "ValidateBookingTime start (st_Duration st) now' loc hours = Inr (NewInterval start (st_Duration st))"
    if "t_ns now' \<le> t_ns start"
    using conjunct1 [OF a(2)] that slot(2) by (auto simp: ValidateBookingTime_Inr d)
  obtain x where "Assign sched st (NewInterval slot (st_Duration st)) pol = Inr x" using conjunct2 [OF a(2)] by blast
  then have "Assign sched st (NewInterval start (st_Duration st)) pol = Inr x"
    by (rule Assign_instant_cong [rotated 2]) (simp_all add: NewInterval_def slot(2))
  then show "\<exists>a. Assign sched st (NewInterval start (st_Duration st)) pol = Inr a" ..
qed

section \<open>Properties\<close>

text \<open>C19: the slots are exactly the times of the grid from opening that are not past, whose service ends by
  closing and for which a selection succeeds (AC-22, AC-23), in strictly increasing order; there are
  none for a granularity or duration that is not positive.\<close>

theorem available_slots_exact:
  "set (AvailableSlots w st s now g pol) =
     (if 0 < g \<and> 0 < st_Duration st
      then {t. \<exists>k. t = add_duration (w_Open w) (int k * g) \<and> t_ns now \<le> t_ns t \<and>
                   t_ns t + st_Duration st \<le> t_ns (w_Close w) \<and>
                   (\<exists>a. Assign s st (NewInterval t (st_Duration st)) pol = Inr a)}
      else {}) \<and>
   sorted_wrt (\<lambda>a b. t_ns a < t_ns b) (AvailableSlots w st s now g pol)"
  by (auto simp: AvailableSlots_set bookable_def AvailableSlots_sorted)

text \<open>C2: availability and booking agree: a time of the grid within the window is offered exactly when the
  time validation of a booking accepts it and a selection for it succeeds on the same schedule. The zone
  keeps one offset around the day, and opening hours lie inside one day.\<close>

theorem slots_agree_with_booking:
  assumes "steady_day loc off (epoch_day d)" "valid_date d" "Window hours d loc = Some w"
    and "\<forall>wd oh. hours wd = Some oh \<longrightarrow> within_day_hours oh" "0 < g" "0 < st_Duration st"
    and "t = add_duration (w_Open w) (int k * g)" "t_ns t < t_ns (w_Close w)"
  shows "t \<in> set (AvailableSlots w st s now g pol) \<longleftrightarrow>
    ValidateBookingTime t (st_Duration st) now loc hours = Inr (NewInterval t (st_Duration st)) \<and>
    (\<exists>a. Assign s st (NewInterval t (st_Duration st)) pol = Inr a)"
proof -
  obtain oh where oh: "hours (date_weekday d) = Some oh" "within_day_hours oh"
    using assms(3,4) by (auto simp: Window_def split: option.splits)
  have day: "OpensAt oh * minute \<ge> 0" "ClosesAt oh * minute \<le> 1440 * minute"
    using oh(2) by (simp_all add: within_day_hours_def minute_def)
  have "0 \<le> int k * g" using assms(5) by simp
  then have t: "t_ns (w_Open w) \<le> t_ns t" using assms(7) by simp
  have date: "DateOf t loc = d"
    using t assms(8) day Window_steady [OF assms(1,3) oh] Bounds_steady [OF assms(1)]
    by (intro DateOf_in_Bounds [OF assms(1,2)]) simp_all
  show ?thesis
  proof
    assume "t \<in> set (AvailableSlots w st s now g pol)"
    then show "ValidateBookingTime t (st_Duration st) now loc hours = Inr (NewInterval t (st_Duration st)) \<and>
        (\<exists>a. Assign s st (NewInterval t (st_Duration st)) pol = Inr a)"
      by (rule slot_accepted_by_booking(2) [OF assms(1-3) oh])
  next
    assume b: "ValidateBookingTime t (st_Duration st) now loc hours = Inr (NewInterval t (st_Duration st)) \<and>
        (\<exists>a. Assign s st (NewInterval t (st_Duration st)) pol = Inr a)"
    then have "bookable w st s now pol t"
      using date assms(3) by (auto simp: ValidateBookingTime_Inr bookable_def)
    then show "t \<in> set (AvailableSlots w st s now g pol)"
      using assms(5-7) by (auto simp: AvailableSlots_set)
  qed
qed

theorem slots_agree_with_booking_witness:
  "\<exists>w. Window (\<lambda>_. Some \<lparr>OpensAt = 480, ClosesAt = 1020\<rparr>) \<lparr>d_Year = 2030, d_Month = 3, d_Day = 4\<rparr> ict = Some w \<and>
     (w_Open w \<in> set (AvailableSlots w sample_service sample_day zero_time DefaultSlotGranularity LeastLoaded) \<longleftrightarrow>
      ValidateBookingTime (w_Open w) hour zero_time ict (\<lambda>_. Some \<lparr>OpensAt = 480, ClosesAt = 1020\<rparr>)
        = Inr (NewInterval (w_Open w) hour) \<and>
      (\<exists>a. Assign sample_day sample_service (NewInterval (w_Open w) hour) LeastLoaded = Inr a))"
proof -
  let ?d = "\<lparr>d_Year = 2030, d_Month = 3, d_Day = 4\<rparr>" and ?hours = "\<lambda>_. Some \<lparr>OpensAt = 480, ClosesAt = 1020\<rparr>"
  have e: "epoch_day ?d = 21977" by code_simp
  have v: "valid_date ?d" by code_simp
  obtain w where w: "Window ?hours ?d ict = Some w" by (simp add: Window_def)
  have "case Window ?hours ?d ict of None \<Rightarrow> False | Some w \<Rightarrow> t_ns (w_Open w) < t_ns (w_Close w)" by code_simp
  then have lt: "t_ns (w_Open w) < t_ns (w_Close w)" by (simp add: w)
  have hrs: "\<forall>wd oh. ?hours wd = Some oh \<longrightarrow> within_day_hours oh" by (auto simp: within_day_hours_def)
  have zero: "w_Open w = add_duration (w_Open w) (int 0 * DefaultSlotGranularity)" by (simp add: add_duration_def)
  have dur: "0 < DefaultSlotGranularity" "0 < st_Duration sample_service" "st_Duration sample_service = hour"
    by (simp_all add: DefaultSlotGranularity_def minute_def sample_service_def hour_def)
  have st: "steady_day ict 25200 (epoch_day ?d)" using steady_day_ict [of 21977] by (simp add: e)
  show ?thesis
    using slots_agree_with_booking [OF st v w hrs dur(1,2) zero lt, of sample_day zero_time LeastLoaded] w
    by (auto simp: dur(3))
qed

end
