(* ===== verification/Ports.thy ===== *)
theory Ports
  imports Availability
begin

text \<open>
  \<^verbatim>\<open>internal/service/ports.go\<close>: the persistence ports the service consumes. A Go interface is a
  record of its methods over the state \<open>'s\<close> of whatever implements it; each method takes the
  state and returns its result and the next state. An error is \<open>Inl\<close>, a nil error \<open>Inr\<close> or, for a
  method with no other result, \<open>None\<close>. Contexts (cancellation, tracing) are not modelled.
\<close>

record schedule_query =
  sq_DealershipID :: string
  sq_Day :: interval
  sq_VehicleID :: string

record new_appointment =
  na_DealershipID :: string
  na_VehicleID :: string
  na_CustomerID :: string
  na_ServiceTypeID :: string
  na_RequiredSkillID :: string
  na_RequiredBayType :: bay_type
  na_TechnicianID :: string
  na_BayID :: string
  na_Interval :: interval

record idempotency_record =
  ir_DealershipID :: string
  ir_Key :: string
  ir_Fingerprint :: string
  ir_AppointmentID :: string
  ir_ErrorCode :: code
  ir_Conflicting :: "resource_kind list"
  ir_ExpiresAt :: gtime

record 's booking_tx =
  tx_DaySchedule :: "schedule_query \<Rightarrow> 's \<Rightarrow> (go_error + day_schedule) \<times> 's"
  tx_InsertAppointment :: "new_appointment \<Rightarrow> 's \<Rightarrow> (go_error + appointment) \<times> 's"
  tx_Appointment :: "string \<Rightarrow> 's \<Rightarrow> (go_error + appointment) \<times> 's"
  tx_LockIdempotencyKey :: "string \<Rightarrow> string \<Rightarrow> 's \<Rightarrow> go_error option \<times> 's"
  tx_LockSchedulingDay :: "string \<Rightarrow> date \<Rightarrow> 's \<Rightarrow> go_error option \<times> 's"
  tx_FindIdempotencyRecord ::
    "string \<Rightarrow> string \<Rightarrow> gtime \<Rightarrow> 's \<Rightarrow> (go_error + idempotency_record option) \<times> 's"
  tx_SaveIdempotencyRecord :: "idempotency_record \<Rightarrow> 's \<Rightarrow> go_error option \<times> 's"

text \<open>
  The function given to \<^verbatim>\<open>InTx\<close> closes over the variables \<^verbatim>\<open>appt\<close> and \<^verbatim>\<open>outcome\<close> of its caller:
  it returns their values beside its own error.
\<close>

type_synonym booking_vars = "appointment \<times> go_error option"
type_synonym 's tx_body = "'s booking_tx \<Rightarrow> 's \<Rightarrow> (go_error option \<times> booking_vars) \<times> 's"

record 's repository =
  repo_Dealership :: "string \<Rightarrow> 's \<Rightarrow> (go_error + dealership) \<times> 's"
  repo_ServiceType :: "string \<Rightarrow> 's \<Rightarrow> (go_error + service_type) \<times> 's"
  repo_VehicleWithOwner :: "string \<Rightarrow> string \<Rightarrow> 's \<Rightarrow> (go_error + vehicle \<times> customer) \<times> 's"
  repo_Appointment :: "string \<Rightarrow> 's \<Rightarrow> (go_error + appointment) \<times> 's"
  repo_DaySchedule :: "schedule_query \<Rightarrow> 's \<Rightarrow> (go_error + day_schedule) \<times> 's"
  repo_InTx :: "'s tx_body \<Rightarrow> 's \<Rightarrow> (go_error option \<times> booking_vars) \<times> 's"

section \<open>What an implementation keeps between states\<close>

text \<open>
  A relation between the state before and after every port operation: reflexive, transitive and
  respected by each method. An invariant, a frame or a monotonicity property of the store is an
  instance of it, and it is then kept by everything the service composes from the methods.
\<close>

locale state_preorder =
  fixes R :: "'s \<Rightarrow> 's \<Rightarrow> bool"
  assumes R_refl: "R s s"
    and R_trans: "R s t \<Longrightarrow> R t u \<Longrightarrow> R s u"

locale transaction_steps = state_preorder R for R :: "'s \<Rightarrow> 's \<Rightarrow> bool" +
  fixes tx :: "'s booking_tx"
  assumes step_DaySchedule: "R s (snd (tx_DaySchedule tx q s))"
    and step_InsertAppointment: "R s (snd (tx_InsertAppointment tx na s))"
    and step_Appointment: "R s (snd (tx_Appointment tx i s))"
    and step_LockIdempotencyKey: "R s (snd (tx_LockIdempotencyKey tx d k s))"
    and step_LockSchedulingDay: "R s (snd (tx_LockSchedulingDay tx d dt s))"
    and step_FindIdempotencyRecord: "R s (snd (tx_FindIdempotencyRecord tx d k now s))"
    and step_SaveIdempotencyRecord: "R s (snd (tx_SaveIdempotencyRecord tx rec s))"

text \<open>
  What a booking relies on besides: the rows a transaction has written so far are its own, only a
  successful insert adds one, an insert that loses a race adds none, and any other failure of an
  insert is no rejection; only saving an idempotency record writes a key.
\<close>

locale booking_store = transaction_steps R tx for R :: "'s \<Rightarrow> 's \<Rightarrow> bool" and tx :: "'s booking_tx" +
  fixes Ok :: "'s \<Rightarrow> bool"
    and own :: "'s \<Rightarrow> 'r list"
    and keys :: "'s \<Rightarrow> 'k"
    and stored :: "new_appointment \<Rightarrow> appointment \<Rightarrow> 'r \<Rightarrow> bool"
  assumes Ok_kept: "R s t \<Longrightarrow> Ok s \<Longrightarrow> Ok t"
    and own_DaySchedule: "own (snd (tx_DaySchedule tx q s)) = own s"
    and keys_DaySchedule: "keys (snd (tx_DaySchedule tx q s)) = keys s"
    and own_Appointment: "own (snd (tx_Appointment tx i s)) = own s"
    and keys_Appointment: "keys (snd (tx_Appointment tx i s)) = keys s"
    and own_LockIdempotencyKey: "own (snd (tx_LockIdempotencyKey tx d k s)) = own s"
    and keys_LockIdempotencyKey: "keys (snd (tx_LockIdempotencyKey tx d k s)) = keys s"
    and own_LockSchedulingDay: "own (snd (tx_LockSchedulingDay tx d dt s)) = own s"
    and keys_LockSchedulingDay: "keys (snd (tx_LockSchedulingDay tx d dt s)) = keys s"
    and own_FindIdempotencyRecord: "own (snd (tx_FindIdempotencyRecord tx d k now s)) = own s"
    and keys_FindIdempotencyRecord: "keys (snd (tx_FindIdempotencyRecord tx d k now s)) = keys s"
    and own_SaveIdempotencyRecord: "own (snd (tx_SaveIdempotencyRecord tx rec s)) = own s"
    and keys_InsertAppointment: "keys (snd (tx_InsertAppointment tx na s)) = keys s"
    and insert_done: "Ok s \<Longrightarrow> tx_InsertAppointment tx na s = (Inr appt, t) \<Longrightarrow>
      \<exists>r. own t = own s @ [r] \<and> stored na appt r"
    and insert_failed: "Ok s \<Longrightarrow> tx_InsertAppointment tx na s = (Inl err, t) \<Longrightarrow>
      (if error_is err ELostRace then own t = own s else AsError err = None)"
    and schedule_failed: "tx_DaySchedule tx q s = (Inl err, t) \<Longrightarrow> CodeOf err \<noteq> CodeContention"

end
