(* ===== verification/Scheduler.thy ===== *)
theory Scheduler
  imports Ports
begin

text \<open>
  \<^verbatim>\<open>internal/service/scheduler.go\<close> and \<^verbatim>\<open>instrumentation.go\<close>: the use cases over the ports. The
  runtime record holds what the standard library gives and the development does not define: the
  process clock and the hexadecimal SHA-256 of a string. Tracing spans have no effect on results
  and are not modelled; metrics are, through the instrumentation interface.
\<close>

definition IdempotencyRetention :: duration where
  "IdempotencyRetention = 24 * hour"

record 's runtime =
  rt_Now :: "'s \<Rightarrow> gtime"
  rt_sha256_hex :: "string \<Rightarrow> string"

record 's instrumentation =
  BookingStarted :: "'s \<Rightarrow> 's"
  BookingFinished :: "go_error option \<Rightarrow> duration \<Rightarrow> 's \<Rightarrow> 's"

definition noopInstrumentation :: "'s instrumentation" where
  "noopInstrumentation = \<lparr>BookingStarted = (\<lambda>s. s), BookingFinished = (\<lambda>err elapsed s. s)\<rparr>"

record 's scheduler =
  sch_repo :: "'s repository"
  sch_policy :: assignment_policy
  sch_now :: "'s \<Rightarrow> gtime"
  sch_granularity :: duration
  sch_maxAttempts :: int
  sch_metrics :: "'s instrumentation"

section \<open>Construction\<close>

type_synonym 's scheduler_option = "'s scheduler \<Rightarrow> 's scheduler"

definition WithClock :: "('s \<Rightarrow> gtime) \<Rightarrow> 's scheduler_option" where
  "WithClock now sch = sch\<lparr>sch_now := now\<rparr>"

definition WithPolicy :: "assignment_policy \<Rightarrow> 's scheduler_option" where
  "WithPolicy p sch = sch\<lparr>sch_policy := p\<rparr>"

definition WithSlotGranularity :: "duration \<Rightarrow> 's scheduler_option" where
  "WithSlotGranularity d sch = sch\<lparr>sch_granularity := d\<rparr>"

definition WithMaxAttempts :: "int \<Rightarrow> 's scheduler_option" where
  "WithMaxAttempts n sch = sch\<lparr>sch_maxAttempts := (if n < 1 then 1 else n)\<rparr>"

definition WithInstrumentation :: "'s instrumentation \<Rightarrow> 's scheduler_option" where
  "WithInstrumentation i sch = sch\<lparr>sch_metrics := i\<rparr>"

definition New :: "'s runtime \<Rightarrow> 's repository \<Rightarrow> 's scheduler_option list \<Rightarrow> 's scheduler" where
  "New rt repo opts = fold (\<lambda>opt sch. opt sch) opts
     \<lparr>sch_repo = repo, sch_policy = LeastLoaded, sch_now = rt_Now rt,
      sch_granularity = DefaultSlotGranularity, sch_maxAttempts = 3,
      sch_metrics = noopInstrumentation\<rparr>"

section \<open>Availability (FR-1)\<close>

record availability_query =
  aq_DealershipID :: string
  aq_ServiceTypeID :: string
  aq_Date :: string
  aq_VehicleID :: string

record availability_result =
  ar_Date :: date
  ar_ServiceType :: service_type
  ar_Slots :: "gtime list"

definition Availability ::
  "'s scheduler \<Rightarrow> availability_query \<Rightarrow> 's \<Rightarrow> (go_error + availability_result) \<times> 's" where
  "Availability sch q s =
     (case ParseDate (aq_Date q) of
        Inl e \<Rightarrow> (Inl (EDomain (NewError CodeValidationError
          (''date '' @ go_quote (aq_Date q) @ '' is not a valid calendar date (YYYY-MM-DD)''))), s)
      | Inr date \<Rightarrow>
     (case repo_Dealership (sch_repo sch) (aq_DealershipID q) s of
        (Inl err, s1) \<Rightarrow> (Inl err, s1)
      | (Inr dealership, s1) \<Rightarrow>
     (case repo_ServiceType (sch_repo sch) (aq_ServiceTypeID q) s1 of
        (Inl err, s2) \<Rightarrow> (Inl err, s2)
      | (Inr st, s2) \<Rightarrow>
        if aq_VehicleID q = []
        then (Inl (EDomain (NewError CodeValidationError
          ''vehicleId is required: availability is evaluated for a specific vehicle (INV-3)'')), s2)
        else
     (case repo_VehicleWithOwner (sch_repo sch) (aq_DealershipID q) (aq_VehicleID q) s2 of
        (Inl err, s3) \<Rightarrow> (Inl err, s3)
      | (Inr vc, s3) \<Rightarrow>
     (case Window (dl_Hours dealership) date (dl_Location dealership) of
        None \<Rightarrow> (Inr \<lparr>ar_Date = date, ar_ServiceType = st, ar_Slots = []\<rparr>, s3)
      | Some window \<Rightarrow>
     (case repo_DaySchedule (sch_repo sch)
             \<lparr>sq_DealershipID = aq_DealershipID q, sq_Day = Bounds date (dl_Location dealership),
              sq_VehicleID = aq_VehicleID q\<rparr> s3 of
        (Inl err, s4) \<Rightarrow> (Inl err, s4)
      | (Inr schedule, s4) \<Rightarrow>
          (Inr \<lparr>ar_Date = date, ar_ServiceType = st,
                ar_Slots = AvailableSlots window st schedule (sch_now sch s4) (sch_granularity sch) (sch_policy sch)\<rparr>,
           s4)))))))"

section \<open>Booking (FR-2, FR-4)\<close>

record book_request =
  rq_DealershipID :: string
  rq_VehicleID :: string
  rq_ServiceTypeID :: string
  rq_StartTime :: gtime
  rq_IdempotencyKey :: string

definition fingerprint_text :: "book_request \<Rightarrow> string" where
  "fingerprint_text r = rq_DealershipID r @ ''|'' @ rq_VehicleID r @ ''|'' @ rq_ServiceTypeID r @ ''|''
     @ format_rfc3339_nano (in_loc (rq_StartTime r) UTC)"

definition fingerprint :: "'s runtime \<Rightarrow> book_request \<Rightarrow> string" where
  "fingerprint rt r = rt_sha256_hex rt (fingerprint_text r)"

text \<open>\<^verbatim>\<open>replay\<close> returns the appointment, the outcome and the error, as the source does.\<close>

definition replay ::
  "'s booking_tx \<Rightarrow> idempotency_record \<Rightarrow> string \<Rightarrow> 's
     \<Rightarrow> (appointment \<times> go_error option \<times> go_error option) \<times> 's" where
  "replay tx rec fp s =
     (if ir_Fingerprint rec \<noteq> fp
      then ((zero_appointment, Some (EDomain (NewError CodeIdempotencyKeyReused
             (''Idempotency-Key '' @ go_quote (ir_Key rec)
              @ '' was already used with a different request body''))), None), s)
      else if ir_AppointmentID rec \<noteq> []
      then (case tx_Appointment tx (ir_AppointmentID rec) s of
              (Inl err, s1) \<Rightarrow> ((zero_appointment, None,
                 Some (EWrap (''replay appointment '' @ ir_AppointmentID rec) err)), s1)
            | (Inr appt, s1) \<Rightarrow> ((appt, None, None), s1))
      else ((zero_appointment, Some (EDomain \<lparr>err_Code = ir_ErrorCode rec,
               err_Message = ''replayed result of a previous request with the same Idempotency-Key'',
               err_Conflicting = ir_Conflicting rec\<rparr>), None), s))"

text \<open>
  \<^verbatim>\<open>assignAndInsert\<close>: the attempts, with the budget fixed by the first schedule, and the decision
  on fresh data when they run out. The result is the appointment, the outcome and whether it is
  transient. \<^verbatim>\<open>lastRace\<close> only reaches a span attribute.
\<close>

definition qualified_resources :: "day_schedule \<Rightarrow> service_type \<Rightarrow> int" where
  "qualified_resources schedule st =
     min (int (length (QualifiedTechnicians (Technicians schedule) (st_RequiredSkillID st))))
         (int (length (QualifiedBays (Bays schedule) (st_RequiredBayType st))))"

definition exhausted ::
  "'s scheduler \<Rightarrow> 's booking_tx \<Rightarrow> schedule_query \<Rightarrow> service_type \<Rightarrow> new_appointment \<Rightarrow> 's
     \<Rightarrow> (appointment \<times> go_error option \<times> bool) \<times> 's" where
  "exhausted sch tx q st na s =
     (case tx_DaySchedule tx q s of
        (Inl err, s1) \<Rightarrow> ((zero_appointment, Some err, False), s1)
      | (Inr schedule, s1) \<Rightarrow>
          (case Assign schedule st (na_Interval na) (sch_policy sch) of
             Inl err \<Rightarrow> ((zero_appointment, Some err, False), s1)
           | Inr a \<Rightarrow> ((zero_appointment, Some (EDomain Contention), True), s1)))"

definition with_assignment :: "new_appointment \<Rightarrow> assignment \<Rightarrow> new_appointment" where
  "with_assignment na a =
     na\<lparr>na_TechnicianID := tech_ID (as_Technician a), na_BayID := bay_ID (as_Bay a)\<rparr>"

function attempts ::
  "'s scheduler \<Rightarrow> 's booking_tx \<Rightarrow> schedule_query \<Rightarrow> service_type \<Rightarrow> int \<Rightarrow> int \<Rightarrow> new_appointment \<Rightarrow> 's
     \<Rightarrow> (appointment \<times> go_error option \<times> bool) \<times> 's" where
  "attempts sch tx q st attempt budget na s =
     (if attempt < budget
      then
        (case tx_DaySchedule tx q s of
           (Inl err, s1) \<Rightarrow> ((zero_appointment, Some err, False), s1)
         | (Inr schedule, s1) \<Rightarrow>
             let budget' = (if attempt = 0 then max budget (qualified_resources schedule st + 1) else budget) in
             (case Assign schedule st (na_Interval na) (sch_policy sch) of
                Inl err \<Rightarrow> ((zero_appointment, Some err, False), s1)
              | Inr a \<Rightarrow>
                  let na' = with_assignment na a in
                  (case tx_InsertAppointment tx na' s1 of
                     (Inr appt, s2) \<Rightarrow> ((appt, None, False), s2)
                   | (Inl err, s2) \<Rightarrow>
                       if \<not> error_is err ELostRace then ((zero_appointment, Some err, False), s2)
                       else attempts sch tx q st (attempt + 1) budget' na' s2)))
      else exhausted sch tx q st na s)"
  by pat_completeness auto
termination
  by (relation "measures [\<lambda>(sch, tx, q, st, attempt, budget, na, s). nat (1 - attempt),
        \<lambda>(sch, tx, q, st, attempt, budget, na, s). nat (budget - attempt)]") auto

declare attempts.simps [simp del]

definition assignAndInsert ::
  "'s scheduler \<Rightarrow> 's booking_tx \<Rightarrow> schedule_query \<Rightarrow> service_type \<Rightarrow> new_appointment \<Rightarrow> 's
     \<Rightarrow> (appointment \<times> go_error option \<times> bool) \<times> 's" where
  "assignAndInsert sch tx q st na s = attempts sch tx q st 0 (sch_maxAttempts sch) na s"

text \<open>The record \<^verbatim>\<open>Book\<close> stores for a durable outcome.\<close>

definition outcome_record ::
  "'s runtime \<Rightarrow> book_request \<Rightarrow> gtime \<Rightarrow> appointment \<Rightarrow> go_error option \<Rightarrow> idempotency_record" where
  "outcome_record rt req now appt outcome =
     (let rec = \<lparr>ir_DealershipID = rq_DealershipID req, ir_Key = rq_IdempotencyKey req,
                 ir_Fingerprint = fingerprint rt req, ir_AppointmentID = [], ir_ErrorCode = no_code,
                 ir_Conflicting = [], ir_ExpiresAt = add_duration now IdempotencyRetention\<rparr> in
      case outcome of
        None \<Rightarrow> rec\<lparr>ir_AppointmentID := ap_ID appt\<rparr>
      | Some e \<Rightarrow> (case AsError e of
                     Some de \<Rightarrow> rec\<lparr>ir_ErrorCode := err_Code de, ir_Conflicting := err_Conflicting de\<rparr>
                   | None \<Rightarrow> rec))"

text \<open>The transaction after the key lookup: day lock, selection and insert, outcome record.\<close>

definition book_fresh ::
  "'s runtime \<Rightarrow> 's scheduler \<Rightarrow> book_request \<Rightarrow> gtime \<Rightarrow> date \<Rightarrow> schedule_query \<Rightarrow> service_type
     \<Rightarrow> new_appointment \<Rightarrow> 's tx_body" where
  "book_fresh rt sch req now day query st newAppt tx s =
     (case tx_LockSchedulingDay tx (rq_DealershipID req) day s of
        (Some err, s1) \<Rightarrow> ((Some err, zero_appointment, None), s1)
      | (None, s1) \<Rightarrow>
          (case assignAndInsert sch tx query st newAppt s1 of
             ((appt, outcome, transient), s2) \<Rightarrow>
               if outcome \<noteq> None \<and> AsError (the outcome) = None
               then ((outcome, appt, outcome), s2)
               else if rq_IdempotencyKey req \<noteq> [] \<and> \<not> transient
               then (case tx_SaveIdempotencyRecord tx (outcome_record rt req now appt outcome) s2 of
                       (Some err, s3) \<Rightarrow> ((Some err, appt, outcome), s3)
                     | (None, s3) \<Rightarrow> ((None, appt, outcome), s3))
               else ((None, appt, outcome), s2)))"

definition book_body ::
  "'s runtime \<Rightarrow> 's scheduler \<Rightarrow> book_request \<Rightarrow> gtime \<Rightarrow> date \<Rightarrow> schedule_query \<Rightarrow> service_type
     \<Rightarrow> new_appointment \<Rightarrow> 's tx_body" where
  "book_body rt sch req now day query st newAppt tx s =
     (if rq_IdempotencyKey req \<noteq> []
      then
        (case tx_LockIdempotencyKey tx (rq_DealershipID req) (rq_IdempotencyKey req) s of
           (Some err, s1) \<Rightarrow> ((Some err, zero_appointment, None), s1)
         | (None, s1) \<Rightarrow>
             (case tx_FindIdempotencyRecord tx (rq_DealershipID req) (rq_IdempotencyKey req) now s1 of
                (Inl err, s2) \<Rightarrow> ((Some err, zero_appointment, None), s2)
              | (Inr (Some rec), s2) \<Rightarrow>
                  (case replay tx rec (fingerprint rt req) s2 of
                     ((appt, outcome, err), s3) \<Rightarrow> ((err, appt, outcome), s3))
              | (Inr None, s2) \<Rightarrow> book_fresh rt sch req now day query st newAppt tx s2))
      else book_fresh rt sch req now day query st newAppt tx s)"

definition book_in_tx ::
  "'s runtime \<Rightarrow> 's scheduler \<Rightarrow> book_request \<Rightarrow> 's \<Rightarrow> (go_error + appointment) \<times> 's" where
  "book_in_tx rt sch req s =
     (case repo_Dealership (sch_repo sch) (rq_DealershipID req) s of
        (Inl err, s1) \<Rightarrow> (Inl err, s1)
      | (Inr dealership, s1) \<Rightarrow>
     (case repo_ServiceType (sch_repo sch) (rq_ServiceTypeID req) s1 of
        (Inl err, s2) \<Rightarrow> (Inl err, s2)
      | (Inr st, s2) \<Rightarrow>
     (case repo_VehicleWithOwner (sch_repo sch) (rq_DealershipID req) (rq_VehicleID req) s2 of
        (Inl err, s3) \<Rightarrow> (Inl err, s3)
      | (Inr (vehicle, customer), s3) \<Rightarrow>
        let now = sch_now sch s3 in
     (case ValidateBookingTime (rq_StartTime req) (st_Duration st) now (dl_Location dealership) (dl_Hours dealership) of
        Inl err \<Rightarrow> (Inl err, s3)
      | Inr iv \<Rightarrow>
        let day = DateOf (iv_start iv) (dl_Location dealership);
            query = \<lparr>sq_DealershipID = rq_DealershipID req,
                     sq_Day = Bounds day (dl_Location dealership), sq_VehicleID = ve_ID vehicle\<rparr>;
            newAppt = \<lparr>na_DealershipID = rq_DealershipID req, na_VehicleID = ve_ID vehicle,
                       na_CustomerID = cu_ID customer, na_ServiceTypeID = st_ID st,
                       na_RequiredSkillID = st_RequiredSkillID st, na_RequiredBayType = st_RequiredBayType st,
                       na_TechnicianID = [], na_BayID = [], na_Interval = iv\<rparr> in
        (case repo_InTx (sch_repo sch) (book_body rt sch req now day query st newAppt) s3 of
           ((Some err, appt, outcome), s4) \<Rightarrow> (Inl err, s4)
         | ((None, appt, Some o'), s4) \<Rightarrow> (Inl o', s4)
         | ((None, appt, None), s4) \<Rightarrow> (Inr appt, s4))))))"

definition result_error :: "go_error + 'a \<Rightarrow> go_error option" where
  "result_error r = (case r of Inl e \<Rightarrow> Some e | Inr x \<Rightarrow> None)"

text \<open>\<^verbatim>\<open>Book\<close>: the use case between the two instrumentation calls.\<close>

definition Book :: "'s runtime \<Rightarrow> 's scheduler \<Rightarrow> book_request \<Rightarrow> 's \<Rightarrow> (go_error + appointment) \<times> 's" where
  "Book rt sch req s =
     (let started = rt_Now rt s;
          s1 = BookingStarted (sch_metrics sch) s;
          (r, s2) = book_in_tx rt sch req s1
      in (r, BookingFinished (sch_metrics sch) (result_error r) (sub_time (rt_Now rt s2) started) s2))"

definition GetAppointment :: "'s scheduler \<Rightarrow> string \<Rightarrow> 's \<Rightarrow> (go_error + appointment) \<times> 's" where
  "GetAppointment sch ident s = repo_Appointment (sch_repo sch) ident s"

section \<open>Construction keeps a positive attempt budget\<close>

datatype 's known_option =
    OptClock "'s \<Rightarrow> gtime"
  | OptPolicy assignment_policy
  | OptGranularity duration
  | OptMaxAttempts int
  | OptInstrumentation "'s instrumentation"

fun option_fun :: "'s known_option \<Rightarrow> 's scheduler_option" where
  "option_fun (OptClock now) = WithClock now"
| "option_fun (OptPolicy p) = WithPolicy p"
| "option_fun (OptGranularity d) = WithSlotGranularity d"
| "option_fun (OptMaxAttempts n) = WithMaxAttempts n"
| "option_fun (OptInstrumentation i) = WithInstrumentation i"

lemma option_keeps_budget: "1 \<le> sch_maxAttempts sch \<Longrightarrow> 1 \<le> sch_maxAttempts (option_fun opt sch)"
  by (cases opt) (simp_all add: WithClock_def WithPolicy_def WithSlotGranularity_def
      WithMaxAttempts_def WithInstrumentation_def)

lemma New_budget: "1 \<le> sch_maxAttempts (New rt repo (map option_fun opts))"
proof -
  have "1 \<le> sch_maxAttempts sch \<Longrightarrow> 1 \<le> sch_maxAttempts (fold (\<lambda>opt sch. opt sch) (map option_fun opts) sch)"
    for sch :: "'a scheduler"
    by (induction opts arbitrary: sch) (simp_all add: option_keeps_budget)
  then show ?thesis by (simp add: New_def)
qed

section \<open>Induction over the attempts\<close>

lemma with_assignment_sel [simp]:
  "na_Interval (with_assignment na a) = na_Interval na"
  "na_DealershipID (with_assignment na a) = na_DealershipID na"
  "na_VehicleID (with_assignment na a) = na_VehicleID na"
  "na_CustomerID (with_assignment na a) = na_CustomerID na"
  "na_ServiceTypeID (with_assignment na a) = na_ServiceTypeID na"
  "na_RequiredSkillID (with_assignment na a) = na_RequiredSkillID na"
  "na_RequiredBayType (with_assignment na a) = na_RequiredBayType na"
  "na_TechnicianID (with_assignment na a) = tech_ID (as_Technician a)"
  "na_BayID (with_assignment na a) = bay_ID (as_Bay a)"
  by (simp_all add: with_assignment_def)

definition next_budget :: "int \<Rightarrow> int \<Rightarrow> day_schedule \<Rightarrow> service_type \<Rightarrow> int" where
  "next_budget attempt budget schedule st =
     (if attempt = 0 then max budget (qualified_resources schedule st + 1) else budget)"

text \<open>One lost race leads to the next attempt; every other way out is an exit of the loop.\<close>

lemma attempts_induct [case_names attempt]:
  fixes sch :: "'s scheduler" and tx :: "'s booking_tx" and q :: schedule_query and st :: service_type
  assumes step: "\<And>attempt budget na s.
      (\<And>schedule s1 a err s2. attempt < budget \<Longrightarrow> tx_DaySchedule tx q s = (Inr schedule, s1) \<Longrightarrow>
         Assign schedule st (na_Interval na) (sch_policy sch) = Inr a \<Longrightarrow>
         tx_InsertAppointment tx (with_assignment na a) s1 = (Inl err, s2) \<Longrightarrow> error_is err ELostRace \<Longrightarrow>
         P (attempt + 1) (next_budget attempt budget schedule st) (with_assignment na a) s2) \<Longrightarrow>
      P attempt budget na s"
  shows "P attempt budget na s"
proof -
  have "sch' = sch \<longrightarrow> tx' = tx \<longrightarrow> q' = q \<longrightarrow> st' = st \<longrightarrow> P attempt budget na s"
    for sch' :: "'s scheduler" and tx' :: "'s booking_tx" and q' :: schedule_query and st' :: service_type
  proof (induction sch' tx' q' st' attempt budget na s rule: attempts.induct)
    case (1 sch' tx' q' st' attempt budget na s)
    show ?case
    proof (intro impI, rule step)
      fix schedule s1 a err s2
      assume eqs: "sch' = sch" "tx' = tx" "q' = q" "st' = st"
        and hyps: "attempt < budget" "tx_DaySchedule tx q s = (Inr schedule, s1)"
          "Assign schedule st (na_Interval na) (sch_policy sch) = Inr a"
          "tx_InsertAppointment tx (with_assignment na a) s1 = (Inl err, s2)" "error_is err ELostRace"
      from "1.IH" [of "Inr schedule" s1 schedule "next_budget attempt budget schedule st" a
          "with_assignment na a" "Inl err" s2 err] eqs hyps
      show "P (attempt + 1) (next_budget attempt budget schedule st) (with_assignment na a) s2"
        by (cases "attempt = 0") (simp_all add: next_budget_def)
    qed
  qed
  then show ?thesis by simp
qed

lemma attempts_unfold:
  "attempts sch tx q st attempt budget na s =
     (if attempt < budget
      then
        (case tx_DaySchedule tx q s of
           (Inl err, s1) \<Rightarrow> ((zero_appointment, Some err, False), s1)
         | (Inr schedule, s1) \<Rightarrow>
             (case Assign schedule st (na_Interval na) (sch_policy sch) of
                Inl err \<Rightarrow> ((zero_appointment, Some err, False), s1)
              | Inr a \<Rightarrow>
                  (case tx_InsertAppointment tx (with_assignment na a) s1 of
                     (Inr appt, s2) \<Rightarrow> ((appt, None, False), s2)
                   | (Inl err, s2) \<Rightarrow>
                       if error_is err ELostRace
                       then attempts sch tx q st (attempt + 1) (next_budget attempt budget schedule st)
                              (with_assignment na a) s2
                       else ((zero_appointment, Some err, False), s2))))
      else exhausted sch tx q st na s)"
  by (subst attempts.simps) (simp add: next_budget_def Let_def split: prod.splits sum.splits)

text \<open>The five ways an attempt ends, as an elimination rule.\<close>

lemma attempts_cases:
  assumes "attempts sch tx q st attempt budget na s = r"
  obtains (over) "\<not> attempt < budget" "r = exhausted sch tx q st na s"
    | (schedule_error) err s1 where "attempt < budget" "tx_DaySchedule tx q s = (Inl err, s1)"
        "r = ((zero_appointment, Some err, False), s1)"
    | (rejected) schedule s1 err where "attempt < budget" "tx_DaySchedule tx q s = (Inr schedule, s1)"
        "Assign schedule st (na_Interval na) (sch_policy sch) = Inl err"
        "r = ((zero_appointment, Some err, False), s1)"
    | (inserted) schedule s1 a appt s2 where "attempt < budget" "tx_DaySchedule tx q s = (Inr schedule, s1)"
        "Assign schedule st (na_Interval na) (sch_policy sch) = Inr a"
        "tx_InsertAppointment tx (with_assignment na a) s1 = (Inr appt, s2)" "r = ((appt, None, False), s2)"
    | (insert_error) schedule s1 a err s2 where "attempt < budget" "tx_DaySchedule tx q s = (Inr schedule, s1)"
        "Assign schedule st (na_Interval na) (sch_policy sch) = Inr a"
        "tx_InsertAppointment tx (with_assignment na a) s1 = (Inl err, s2)" "\<not> error_is err ELostRace"
        "r = ((zero_appointment, Some err, False), s2)"
    | (lost_race) schedule s1 a err s2 where "attempt < budget" "tx_DaySchedule tx q s = (Inr schedule, s1)"
        "Assign schedule st (na_Interval na) (sch_policy sch) = Inr a"
        "tx_InsertAppointment tx (with_assignment na a) s1 = (Inl err, s2)" "error_is err ELostRace"
        "r = attempts sch tx q st (attempt + 1) (next_budget attempt budget schedule st) (with_assignment na a) s2"
  using assms unfolding attempts_unfold [of sch tx q st attempt budget na s]
  by (auto split: if_splits prod.splits sum.splits)

section \<open>The ways a booking ends\<close>

text \<open>The query and the appointment that \<open>book_in_tx\<close> hands to its transaction.\<close>

definition booking_query :: "book_request \<Rightarrow> dealership \<Rightarrow> vehicle \<Rightarrow> interval \<Rightarrow> schedule_query" where
  "booking_query req d v iv =
     \<lparr>sq_DealershipID = rq_DealershipID req,
      sq_Day = Bounds (DateOf (iv_start iv) (dl_Location d)) (dl_Location d), sq_VehicleID = ve_ID v\<rparr>"

definition booking_appointment ::
  "book_request \<Rightarrow> service_type \<Rightarrow> vehicle \<Rightarrow> customer \<Rightarrow> interval \<Rightarrow> new_appointment" where
  "booking_appointment req st v c iv =
     \<lparr>na_DealershipID = rq_DealershipID req, na_VehicleID = ve_ID v, na_CustomerID = cu_ID c,
      na_ServiceTypeID = st_ID st, na_RequiredSkillID = st_RequiredSkillID st,
      na_RequiredBayType = st_RequiredBayType st, na_TechnicianID = [], na_BayID = [], na_Interval = iv\<rparr>"

definition tx_result :: "go_error option \<Rightarrow> appointment \<Rightarrow> go_error option \<Rightarrow> go_error + appointment" where
  "tx_result r appt out = (case r of Some e \<Rightarrow> Inl e | None \<Rightarrow> (case out of Some e \<Rightarrow> Inl e | None \<Rightarrow> Inr appt))"

lemma tx_result_simps [simp]:
  "tx_result r appt out = Inr a \<longleftrightarrow> r = None \<and> out = None \<and> a = appt"
  by (auto simp: tx_result_def split: option.splits)

lemma book_in_tx_cases:
  assumes "book_in_tx rt sch req s = (res, t)"
  obtains (no_dealership) err where "repo_Dealership (sch_repo sch) (rq_DealershipID req) s = (Inl err, t)"
        "res = Inl err"
    | (no_service) d s1 err where "repo_Dealership (sch_repo sch) (rq_DealershipID req) s = (Inr d, s1)"
        "repo_ServiceType (sch_repo sch) (rq_ServiceTypeID req) s1 = (Inl err, t)" "res = Inl err"
    | (no_vehicle) d s1 st s2 err where "repo_Dealership (sch_repo sch) (rq_DealershipID req) s = (Inr d, s1)"
        "repo_ServiceType (sch_repo sch) (rq_ServiceTypeID req) s1 = (Inr st, s2)"
        "repo_VehicleWithOwner (sch_repo sch) (rq_DealershipID req) (rq_VehicleID req) s2 = (Inl err, t)"
        "res = Inl err"
    | (bad_time) d s1 st s2 v c err where "repo_Dealership (sch_repo sch) (rq_DealershipID req) s = (Inr d, s1)"
        "repo_ServiceType (sch_repo sch) (rq_ServiceTypeID req) s1 = (Inr st, s2)"
        "repo_VehicleWithOwner (sch_repo sch) (rq_DealershipID req) (rq_VehicleID req) s2 = (Inr (v, c), t)"
        "ValidateBookingTime (rq_StartTime req) (st_Duration st) (sch_now sch t) (dl_Location d) (dl_Hours d) = Inl err"
        "res = Inl err"
    | (in_tx) d s1 st s2 v c s3 iv r appt out where
        "repo_Dealership (sch_repo sch) (rq_DealershipID req) s = (Inr d, s1)"
        "repo_ServiceType (sch_repo sch) (rq_ServiceTypeID req) s1 = (Inr st, s2)"
        "repo_VehicleWithOwner (sch_repo sch) (rq_DealershipID req) (rq_VehicleID req) s2 = (Inr (v, c), s3)"
        "ValidateBookingTime (rq_StartTime req) (st_Duration st) (sch_now sch s3) (dl_Location d) (dl_Hours d) = Inr iv"
        "repo_InTx (sch_repo sch) (book_body rt sch req (sch_now sch s3) (DateOf (iv_start iv) (dl_Location d))
           (booking_query req d v iv) st (booking_appointment req st v c iv)) s3 = ((r, appt, out), t)"
        "res = tx_result r appt out"
proof -
  note b = assms [unfolded book_in_tx_def Let_def, folded booking_query_def booking_appointment_def]
  obtain x1 s1 where 1: "repo_Dealership (sch_repo sch) (rq_DealershipID req) s = (x1, s1)" by fastforce
  show ?thesis
  proof (cases x1)
    case (Inl e)
    then show ?thesis using b 1 no_dealership by simp
  next
    case x1: (Inr d)
    obtain x2 s2 where 2: "repo_ServiceType (sch_repo sch) (rq_ServiceTypeID req) s1 = (x2, s2)" by fastforce
    show ?thesis
    proof (cases x2)
      case (Inl e)
      then show ?thesis using b 1 2 x1 no_service by simp
    next
      case x2: (Inr st)
      obtain x3 s3 where 3: "repo_VehicleWithOwner (sch_repo sch) (rq_DealershipID req) (rq_VehicleID req) s2 = (x3, s3)"
        by fastforce
      show ?thesis
      proof (cases x3)
        case (Inl e)
        then show ?thesis using b 1 2 3 x1 x2 no_vehicle by simp
      next
        case x3: (Inr vc)
        obtain v c where vc: "vc = (v, c)" by fastforce
        show ?thesis
        proof (cases "ValidateBookingTime (rq_StartTime req) (st_Duration st) (sch_now sch s3) (dl_Location d) (dl_Hours d)")
          case (Inl e)
          then show ?thesis using b 1 2 3 x1 x2 x3 vc bad_time by simp
        next
          case (Inr iv)
          obtain r appt out u where tx: "repo_InTx (sch_repo sch) (book_body rt sch req (sch_now sch s3)
             (DateOf (iv_start iv) (dl_Location d)) (booking_query req d v iv) st
             (booking_appointment req st v c iv)) s3 = ((r, appt, out), u)"
            by (metis prod.exhaust)
          have "(res, t) = (tx_result r appt out, u)"
            using b by (simp add: 1 2 3 x1 x2 x3 vc Inr tx tx_result_def split: option.splits)
          then show ?thesis
            using in_tx [OF 1 [unfolded x1] 2 [unfolded x2] 3 [unfolded x3 vc] Inr] tx by simp
        qed
      qed
    qed
  qed
qed

section \<open>What every step of a booking keeps\<close>

context transaction_steps
begin

lemma exhausted_R: "R s (snd (exhausted sch tx q st na s))"
  using step_DaySchedule [of s q]
  by (auto simp: exhausted_def split: prod.splits sum.splits)

lemma attempts_R: "R s (snd (attempts sch tx q st attempt budget na s))"
proof (induction attempt budget na s rule: attempts_induct [where tx = tx and q = q and st = st and sch = sch])
  case (attempt attempt budget na s)
  have sched: "R s s1" if "tx_DaySchedule tx q s = (x, s1)" for x s1
    using step_DaySchedule [of s q] that by simp
  have ins: "R s s2" if "tx_DaySchedule tx q s = (x, s1)" "tx_InsertAppointment tx n s1 = (y, s2)" for x y n s1 s2
    using step_InsertAppointment [of s1 n] that(2) by (auto intro: R_trans [OF sched [OF that(1)]])
  from refl [of "attempts sch tx q st attempt budget na s"] show ?case
  proof (cases rule: attempts_cases)
    case over
    then show ?thesis by (simp add: exhausted_R)
  next
    case (lost_race schedule s1 a err s2)
    then have "R s2 (snd (attempts sch tx q st attempt budget na s))" using attempt by simp
    then show ?thesis using R_trans [OF ins [OF lost_race(2,4)]] by blast
  qed (simp_all add: sched ins)
qed

lemma assignAndInsert_R: "R s (snd (assignAndInsert sch tx q st na s))"
  unfolding assignAndInsert_def by (rule attempts_R)

lemma replay_R: "R s (snd (replay tx rec fp s))"
  using step_Appointment [of s "ir_AppointmentID rec"] R_refl
  by (auto simp: replay_def split: prod.splits sum.splits)

lemma book_fresh_R: "R s (snd (book_fresh rt sch req now day q st na tx s))"
proof -
  obtain r1 s1 where l: "tx_LockSchedulingDay tx (rq_DealershipID req) day s = (r1, s1)" by fastforce
  obtain appt outcome transient s2 where a: "assignAndInsert sch tx q st na s1 = ((appt, outcome, transient), s2)"
    by (metis prod.exhaust)
  have "R s s1" using step_LockSchedulingDay [of s "rq_DealershipID req" day] l by simp
  moreover have "R s1 s2" using assignAndInsert_R [of s1 sch q st na] a by simp
  ultimately have "R s s1" "R s s2" by (auto intro: R_trans)
  moreover have "R s s3" if "tx_SaveIdempotencyRecord tx rec s2 = (x, s3)" for rec x s3
    using step_SaveIdempotencyRecord [of s2 rec] that by (auto intro: R_trans [OF \<open>R s s2\<close>])
  ultimately show ?thesis by (auto simp: book_fresh_def l a split: option.splits prod.splits)
qed

lemma book_body_R: "R s (snd (book_body rt sch req now day q st na tx s))"
proof -
  obtain r1 s1 where l: "tx_LockIdempotencyKey tx (rq_DealershipID req) (rq_IdempotencyKey req) s = (r1, s1)"
    by fastforce
  obtain r2 s2 where f: "tx_FindIdempotencyRecord tx (rq_DealershipID req) (rq_IdempotencyKey req) now s1 = (r2, s2)"
    by fastforce
  have "R s s1" using step_LockIdempotencyKey [of s "rq_DealershipID req" "rq_IdempotencyKey req"] l by simp
  moreover have "R s1 s2"
    using step_FindIdempotencyRecord [of s1 "rq_DealershipID req" "rq_IdempotencyKey req" now] f by simp
  ultimately have R12: "R s s1" "R s s2" by (auto intro: R_trans)
  have rep: "R s s3" if "replay tx rec fp s2 = (x, s3)" for rec fp x s3
    using replay_R [of s2 rec fp] that by (auto intro: R_trans [OF R12(2)])
  have fr: "R s (snd (book_fresh rt sch req now day q st na tx s2))"
    by (rule R_trans [OF R12(2) book_fresh_R])
  show ?thesis
    using R12 rep fr book_fresh_R
    by (auto simp: book_body_def l f split: option.splits sum.splits prod.splits)
qed

end

section \<open>What a booking writes\<close>

lemma with_assignment_absorb [simp]: "with_assignment (with_assignment na a) b = with_assignment na b"
  by (simp add: with_assignment_def)

context booking_store
begin

lemma exhausted_own:
  assumes "exhausted sch tx q st na s = ((appt, out, tr), t)"
  shows "own t = own s" "out \<noteq> None" "tr \<Longrightarrow> out = Some (EDomain Contention)"
  using assms own_DaySchedule [of q s]
  by (auto simp: exhausted_def split: prod.splits sum.splits)

text \<open>Success appends one row for an assignment selected on a schedule of the store; a rejection none.\<close>

lemma attempts_own:
  assumes "Ok s" "attempts sch tx q st attempt budget na s = ((appt, out, tr), t)"
  shows "(out = None \<longrightarrow> \<not> tr \<and> (\<exists>r a schedule s0 s1. own t = own s @ [r] \<and> stored (with_assignment na a) appt r \<and>
            tx_DaySchedule tx q s0 = (Inr schedule, s1) \<and>
            Assign schedule st (na_Interval na) (sch_policy sch) = Inr a)) \<and>
         (out \<noteq> None \<longrightarrow> AsError (the out) \<noteq> None \<longrightarrow> own t = own s) \<and>
         (tr \<longrightarrow> out = Some (EDomain Contention))"
  using assms
proof (induction attempt budget na s rule: attempts_induct [where tx = tx and q = q and st = st and sch = sch])
  case (attempt attempt budget na s)
  have sched: "own s1 = own s" "Ok s1" if "tx_DaySchedule tx q s = (x, s1)" for x s1
    using own_DaySchedule [of q s] step_DaySchedule [of s q] Ok_kept [of s s1] that attempt.prems(1) by auto
  have ins: "Ok s2" if "tx_DaySchedule tx q s = (x, s1)" "tx_InsertAppointment tx n s1 = (y, s2)" for x y n s1 s2
    using Ok_kept [of s1 s2] step_InsertAppointment [of s1 n] sched(2) [OF that(1)] that(2) by simp
  from attempt.prems(2) show ?case
  proof (cases rule: attempts_cases)
    case over
    then show ?thesis using exhausted_own [of sch q st na s appt out tr t] by auto
  next
    case (inserted schedule s1 a appt' s2)
    obtain r where "own t = own s @ [r]" "stored (with_assignment na a) appt r"
      using insert_done [OF sched(2) [OF inserted(2)] inserted(4)] sched(1) [OF inserted(2)] inserted(5) by auto
    then show ?thesis using inserted by auto
  next
    case (insert_error schedule s1 a err s2)
    then show ?thesis
      using insert_failed [OF sched(2) [OF insert_error(2)] insert_error(4)] by simp
  next
    case (lost_race schedule s1 a err s2)
    have "own s2 = own s"
      using insert_failed [OF sched(2) [OF lost_race(2)] lost_race(4)] sched(1) [OF lost_race(2)] lost_race(5) by auto
    then show ?thesis
      using attempt.IH [OF lost_race(1-5) ins [OF lost_race(2,4)]] lost_race(6) by simp
  qed (use sched(1) in auto)
qed

text \<open>One row more, for resources selected on a schedule that the store returned.\<close>

definition placed ::
  "'s scheduler \<Rightarrow> schedule_query \<Rightarrow> service_type \<Rightarrow> new_appointment \<Rightarrow> appointment \<Rightarrow> 's \<Rightarrow> 's \<Rightarrow> bool" where
  "placed sch q st na appt s t \<longleftrightarrow>
     (\<exists>r a schedule s0 s1. own t = own s @ [r] \<and> stored (with_assignment na a) appt r \<and>
        tx_DaySchedule tx q s0 = (Inr schedule, s1) \<and>
        Assign schedule st (na_Interval na) (sch_policy sch) = Inr a)"

lemma placed_cong: "own s = own s' \<Longrightarrow> own t = own t' \<Longrightarrow> placed sch q st na appt s t = placed sch q st na appt s' t'"
  by (simp add: placed_def)

lemma assignAndInsert_own:
  assumes "Ok s" "assignAndInsert sch tx q st na s = ((appt, out, tr), t)"
  shows "out = None \<Longrightarrow> \<not> tr \<and> placed sch q st na appt s t"
    and "out \<noteq> None \<Longrightarrow> AsError (the out) \<noteq> None \<Longrightarrow> own t = own s"
    and "tr \<Longrightarrow> out = Some (EDomain Contention)"
  using attempts_own [OF assms(1) assms(2) [unfolded assignAndInsert_def]]
  unfolding placed_def by blast+

lemma book_fresh_own:
  assumes Ok: "Ok s" and b: "book_fresh rt sch req now day q st na tx s = ((None, appt, outcome), t)"
  shows "case outcome of
           None \<Rightarrow> placed sch q st na appt s t
         | Some e \<Rightarrow> AsError e \<noteq> None \<and> own t = own s"
proof -
  obtain r1 s1 where l: "tx_LockSchedulingDay tx (rq_DealershipID req) day s = (r1, s1)" by fastforce
  obtain ap out tr s2 where a: "assignAndInsert sch tx q st na s1 = ((ap, out, tr), s2)"
    by (metis prod.exhaust)
  have s1: "own s1 = own s" "Ok s1"
    using own_LockSchedulingDay [of "rq_DealershipID req" day s] l Ok
      Ok_kept [OF step_LockSchedulingDay [of s "rq_DealershipID req" day]] by auto
  have save: "own s3 = own s2" if "tx_SaveIdempotencyRecord tx rec s2 = (x, s3)" for rec x s3
    using own_SaveIdempotencyRecord [of rec s2] that by simp
  have r1: "r1 = None" using b by (auto simp: book_fresh_def l split: option.splits)
  have out: "ap = appt" "out = outcome" "own t = own s2" "out \<noteq> None \<longrightarrow> AsError (the out) \<noteq> None"
    using b save by (auto simp: book_fresh_def l r1 a split: if_splits prod.splits option.splits)
  show ?thesis
    using assignAndInsert_own [OF s1(2) a] out s1(1) placed_cong [of s1 s s2 t]
    by (auto split: option.splits)
qed

text \<open>A transaction that commits either replayed a recorded outcome or decided afresh.\<close>

lemma book_body_own:
  assumes Ok: "Ok s" and b: "book_body rt sch req now day q st na tx s = ((None, appt, outcome), t)"
  obtains (replayed) rec s1 s2 where
      "rq_IdempotencyKey req \<noteq> []"
      "tx_FindIdempotencyRecord tx (rq_DealershipID req) (rq_IdempotencyKey req) now s1 = (Inr (Some rec), s2)"
      "replay tx rec (fingerprint rt req) s2 = ((appt, outcome, None), t)" "own t = own s"
    | (fresh) "case outcome of
           None \<Rightarrow> placed sch q st na appt s t
         | Some e \<Rightarrow> AsError e \<noteq> None \<and> own t = own s"
proof (cases "rq_IdempotencyKey req = []")
  case True
  then show ?thesis using b book_fresh_own [OF Ok] fresh by (simp add: book_body_def)
next
  case False
  obtain r1 s1 where l: "tx_LockIdempotencyKey tx (rq_DealershipID req) (rq_IdempotencyKey req) s = (r1, s1)"
    by fastforce
  obtain r2 s2 where f: "tx_FindIdempotencyRecord tx (rq_DealershipID req) (rq_IdempotencyKey req) now s1 = (r2, s2)"
    by fastforce
  have s1: "own s1 = own s" "Ok s1"
    using own_LockIdempotencyKey [of "rq_DealershipID req" "rq_IdempotencyKey req" s] l Ok
      Ok_kept [OF step_LockIdempotencyKey [of s "rq_DealershipID req" "rq_IdempotencyKey req"]] by auto
  have s2: "own s2 = own s" "Ok s2"
    using own_FindIdempotencyRecord [of "rq_DealershipID req" "rq_IdempotencyKey req" now s1] f s1
      Ok_kept [OF step_FindIdempotencyRecord [of s1 "rq_DealershipID req" "rq_IdempotencyKey req" now]] by auto
  have r1: "r1 = None" using b False by (auto simp: book_body_def l split: option.splits)
  consider rec where "r2 = Inr (Some rec)" | "r2 = Inr None"
    using b False by (auto simp: book_body_def l r1 f split: sum.splits option.splits)
  then show ?thesis
  proof cases
    case (1 rec)
    then have rep: "replay tx rec (fingerprint rt req) s2 = ((appt, outcome, None), t)"
      using b False by (auto simp: book_body_def l r1 f split: prod.splits)
    moreover have "own t = own s2"
      using rep own_Appointment [of "ir_AppointmentID rec" s2]
      by (auto simp: replay_def split: if_splits prod.splits sum.splits)
    ultimately show ?thesis using replayed [OF False f [unfolded 1]] s2(1) by simp
  next
    case 2
    then have "book_fresh rt sch req now day q st na tx s2 = ((None, appt, outcome), t)"
      using b False by (simp add: book_body_def l r1 f)
    from book_fresh_own [OF s2(2) this] show ?thesis
      using fresh placed_cong [of s2 s t t] s2(1) by (auto split: option.splits)
  qed
qed

text \<open>A recorded outcome is never CONTENTION: that code leaves the stored keys alone.\<close>

lemma attempts_keys:
  assumes "Ok s" "attempts sch tx q st attempt budget na s = ((appt, out, tr), t)"
  shows "keys t = keys s \<and> (out \<noteq> None \<longrightarrow> \<not> tr \<longrightarrow> CodeOf (the out) \<noteq> CodeContention)"
  using assms
proof (induction attempt budget na s rule: attempts_induct [where tx = tx and q = q and st = st and sch = sch])
  case (attempt attempt budget na s)
  have sched: "keys s1 = keys s" "Ok s1" if "tx_DaySchedule tx q s = (x, s1)" for x s1
    using keys_DaySchedule [of q s] step_DaySchedule [of s q] Ok_kept [of s s1] that attempt.prems(1) by auto
  have ins: "keys s2 = keys s" "Ok s2"
    if "tx_DaySchedule tx q s = (x, s1)" "tx_InsertAppointment tx n s1 = (y, s2)" for x y n s1 s2
    using Ok_kept [of s1 s2] step_InsertAppointment [of s1 n] keys_InsertAppointment [of n s1] sched [OF that(1)] that(2)
    by simp_all
  from attempt.prems(2) show ?case
  proof (cases rule: attempts_cases)
    case over
    obtain x s1 where x: "tx_DaySchedule tx q s = (x, s1)" by fastforce
    show ?thesis
    proof (cases x)
      case (Inl err)
      then show ?thesis using over x sched(1) schedule_failed [of q s err s1] by (simp add: exhausted_def)
    next
      case (Inr schedule)
      show ?thesis
      proof (cases "Assign schedule st (na_Interval na) (sch_policy sch)")
        case (Inl err)
        then show ?thesis using over x Inr sched(1) Assign_code [OF Inl] by (auto simp: exhausted_def)
      next
        case (Inr a)
        then show ?thesis using over x \<open>x = Inr schedule\<close> sched(1) by (auto simp: exhausted_def)
      qed
    qed
  next
    case (schedule_error err s1)
    then show ?thesis using sched(1) schedule_failed [of q s err s1] by auto
  next
    case (rejected schedule s1 err)
    then show ?thesis using sched(1) Assign_code [OF rejected(3)] by auto
  next
    case (insert_error schedule s1 a err s2)
    then show ?thesis
      using insert_failed [OF sched(2) [OF insert_error(2)] insert_error(4)] ins(1) [OF insert_error(2,4)]
      by (simp add: CodeOf_def no_code_def)
  next
    case (lost_race schedule s1 a err s2)
    then show ?thesis
      using attempt.IH [OF lost_race(1-5) ins(2) [OF lost_race(2,4)]] ins(1) [OF lost_race(2,4)] by simp
  qed (use ins(1) in auto)
qed

lemma book_fresh_keys:
  assumes Ok: "Ok s" and b: "book_fresh rt sch req now day q st na tx s = ((None, appt, Some e), t)"
    and c: "CodeOf e = CodeContention"
  shows "keys t = keys s"
proof -
  obtain r1 s1 where l: "tx_LockSchedulingDay tx (rq_DealershipID req) day s = (r1, s1)" by fastforce
  obtain ap out tr s2 where a: "assignAndInsert sch tx q st na s1 = ((ap, out, tr), s2)"
    by (metis prod.exhaust)
  have s1: "keys s1 = keys s" "Ok s1"
    using keys_LockSchedulingDay [of "rq_DealershipID req" day s] l Ok
      Ok_kept [OF step_LockSchedulingDay [of s "rq_DealershipID req" day]] by auto
  have r1: "r1 = None" using b by (auto simp: book_fresh_def l split: option.splits)
  have "out = Some e" using b by (auto simp: book_fresh_def l r1 a split: if_splits prod.splits option.splits)
  then have "tr" "keys s2 = keys s"
    using attempts_keys [OF s1(2) a [unfolded assignAndInsert_def]] c s1(1) by auto
  then show ?thesis using b by (auto simp: book_fresh_def l r1 a split: if_splits)
qed

lemma book_body_keys:
  assumes Ok: "Ok s" and b: "book_body rt sch req now day q st na tx s = ((None, appt, Some e), t)"
    and c: "CodeOf e = CodeContention"
  shows "keys t = keys s"
proof (cases "rq_IdempotencyKey req = []")
  case True
  then show ?thesis using b book_fresh_keys [OF Ok _ c] by (simp add: book_body_def)
next
  case False
  obtain r1 s1 where l: "tx_LockIdempotencyKey tx (rq_DealershipID req) (rq_IdempotencyKey req) s = (r1, s1)"
    by fastforce
  obtain r2 s2 where f: "tx_FindIdempotencyRecord tx (rq_DealershipID req) (rq_IdempotencyKey req) now s1 = (r2, s2)"
    by fastforce
  have "R s s1" "R s1 s2"
    using step_LockIdempotencyKey [of s "rq_DealershipID req" "rq_IdempotencyKey req"] l f
      step_FindIdempotencyRecord [of s1 "rq_DealershipID req" "rq_IdempotencyKey req" now] by simp_all
  then have s2: "keys s2 = keys s" "Ok s2"
    using keys_LockIdempotencyKey [of "rq_DealershipID req" "rq_IdempotencyKey req" s] l Ok f Ok_kept
      keys_FindIdempotencyRecord [of "rq_DealershipID req" "rq_IdempotencyKey req" now s1] by auto
  have r1: "r1 = None" using b False by (auto simp: book_body_def l split: option.splits)
  have rep: "keys s3 = keys s2" if "replay tx rec fp s2 = (x, s3)" for rec fp x s3
    using that keys_Appointment [of "ir_AppointmentID rec" s2]
    by (auto simp: replay_def split: if_splits prod.splits sum.splits)
  show ?thesis
    using b False s2 rep book_fresh_keys [OF s2(2) _ c]
    by (auto simp: book_body_def l r1 f split: sum.splits option.splits prod.splits)
qed

end

end
