(* ===== verification/Database.thy ===== *)
theory Database
  imports Scheduler
begin

text \<open>
  The relational store of \<^verbatim>\<open>internal/repository/postgres\<close>: the tables of the migrations, the
  constraints they declare (CHECK, exclusion, foreign keys) with the SQLSTATE and name the code
  reads, and a session that runs one statement at a time at READ COMMITTED. What is not in the
  repository is a parameter of the model, collected in the record \<open>pg_env\<close>: the driver's time
  encoding, the server's generated identifiers and clock, the hash of the advisory locks, the zone
  data, and a script of what other sessions commit and what fails before each statement. Every
  theorem is about an arbitrary script: that is how concurrency appears in the model.
\<close>

section \<open>Identifiers\<close>

definition is_hex :: "char \<Rightarrow> bool" where
  "is_hex c = (let n = of_char c :: nat in
     (48 \<le> n \<and> n \<le> 57) \<or> (97 \<le> n \<and> n \<le> 102) \<or> (65 \<le> n \<and> n \<le> 70))"

text \<open>The regular expression of 8, 4, 4, 4 and 12 hexadecimal digits, anchored at both ends.\<close>

definition is_uuid :: "string \<Rightarrow> bool" where
  "is_uuid s \<longleftrightarrow> length s = 36 \<and>
     list_all (\<lambda>(i, c). if i \<in> {8, 13, 18, 23 :: nat} then c = CHR ''-'' else is_hex c) (zip [0..<36] s)"

definition lower_char :: "char \<Rightarrow> char" where
  "lower_char c = (let n = of_char c :: nat in if 65 \<le> n \<and> n \<le> 90 then char_of (n + 32) else c)"

definition to_lower :: "string \<Rightarrow> string" where
  "to_lower s = map lower_char s"

text \<open>A uuid column compares values, not spellings; rows hold the canonical lower-case one.\<close>

definition uuid_is :: "string \<Rightarrow> string \<Rightarrow> bool" where
  "uuid_is column param \<longleftrightarrow> column = to_lower param"

section \<open>Tables\<close>

record dealership_row =
  dlr_id :: string
  dlr_name :: string
  dlr_timezone :: string

record hours_row =
  hor_dealership :: string
  hor_weekday :: int
  hor_opens_at :: int
  hor_closes_at :: int

record service_type_row =
  svr_id :: string
  svr_name :: string
  svr_duration_minutes :: int
  svr_required_skill_id :: string
  svr_required_bay_type :: bay_type

record bay_row =
  bar_id :: string
  bar_dealership :: string
  bar_name :: string
  bar_type :: bay_type

record technician_row =
  ter_id :: string
  ter_dealership :: string
  ter_name :: string

record customer_row =
  cur_id :: string
  cur_name :: string

record vehicle_row =
  ver_id :: string
  ver_dealership :: string
  ver_customer :: string
  ver_vin :: string
  ver_model :: string

record appointment_row =
  row_id :: string
  row_dealership :: string
  row_vehicle :: string
  row_customer :: string
  row_service_type :: string
  row_skill :: string
  row_bay_type :: bay_type
  row_technician :: string
  row_bay :: string
  row_start :: int
  row_end :: int
  row_status :: appointment_status
  row_created :: int

record key_row =
  kr_fingerprint :: string
  kr_outcome :: string
  kr_appointment :: "string option"
  kr_error :: "string option"
  kr_conflicting :: "string list"
  kr_created :: int
  kr_expires :: int

record db =
  db_dealerships :: "dealership_row list"
  db_hours :: "hours_row list"
  db_service_types :: "service_type_row list"
  db_bays :: "bay_row list"
  db_technicians :: "technician_row list"
  db_technician_skills :: "(string \<times> string) list"
  db_customers :: "customer_row list"
  db_vehicles :: "vehicle_row list"
  db_appointments :: "appointment_row list"
  db_keys :: "string \<times> string \<rightharpoonup> key_row"

section \<open>Constraints\<close>

text \<open>\<^verbatim>\<open>tstzrange(start_time, end_time, '[)')\<close> and its overlap: an empty range overlaps nothing.\<close>

definition ranges_overlap :: "appointment_row \<Rightarrow> appointment_row \<Rightarrow> bool" where
  "ranges_overlap r r' \<longleftrightarrow> row_start r < row_end r \<and> row_start r' < row_end r' \<and>
     row_start r < row_end r' \<and> row_start r' < row_end r"

text \<open>\<^verbatim>\<open>EXCLUDE USING gist (column WITH =, range WITH &&) WHERE (status = 'CONFIRMED')\<close>.\<close>

definition excluded :: "(appointment_row \<Rightarrow> string) \<Rightarrow> appointment_row \<Rightarrow> appointment_row \<Rightarrow> bool" where
  "excluded column r r' \<longleftrightarrow> column r = column r' \<and> ranges_overlap r r' \<and>
     row_status r = StatusConfirmed \<and> row_status r' = StatusConfirmed"

definition ConstraintBayOverlap :: string where
  "ConstraintBayOverlap = ''appointment_no_bay_overlap''"
definition ConstraintTechnicianOverlap :: string where
  "ConstraintTechnicianOverlap = ''appointment_no_technician_overlap''"
definition ConstraintVehicleOverlap :: string where
  "ConstraintVehicleOverlap = ''appointment_no_vehicle_overlap''"
definition ConstraintRequiredSkillMatchesServiceType :: string where
  "ConstraintRequiredSkillMatchesServiceType = ''appointment_required_skill_matches_service_type''"
definition ConstraintRequiredBayTypeMatchesServiceType :: string where
  "ConstraintRequiredBayTypeMatchesServiceType = ''appointment_required_bay_type_matches_service_type''"
definition ConstraintTechnicianHoldsSkill :: string where
  "ConstraintTechnicianHoldsSkill = ''appointment_technician_holds_required_skill''"
definition ConstraintBayHasRequiredType :: string where
  "ConstraintBayHasRequiredType = ''appointment_bay_has_required_type''"

text \<open>The foreign keys of an appointment row, in the order the migrations declare them.\<close>

definition foreign_key_violation :: "db \<Rightarrow> appointment_row \<Rightarrow> string option" where
  "foreign_key_violation d r =
     (if \<not> (\<exists>x \<in> set (db_dealerships d). dlr_id x = row_dealership r)
      then Some ''appointment_dealership_id_fkey''
      else if \<not> (\<exists>x \<in> set (db_customers d). cur_id x = row_customer r)
      then Some ''appointment_customer_id_fkey''
      else if \<not> (\<exists>x \<in> set (db_service_types d). svr_id x = row_service_type r)
      then Some ''appointment_service_type_id_fkey''
      else if \<not> (\<exists>x \<in> set (db_vehicles d). ver_id x = row_vehicle r \<and> ver_dealership x = row_dealership r)
      then Some ''appointment_vehicle_same_dealership''
      else if \<not> (\<exists>x \<in> set (db_technicians d). ter_id x = row_technician r \<and> ter_dealership x = row_dealership r)
      then Some ''appointment_technician_same_dealership''
      else if \<not> (\<exists>x \<in> set (db_bays d). bar_id x = row_bay r \<and> bar_dealership x = row_dealership r)
      then Some ''appointment_bay_same_dealership''
      else if \<not> (\<exists>x \<in> set (db_service_types d). svr_id x = row_service_type r \<and> svr_required_skill_id x = row_skill r)
      then Some ConstraintRequiredSkillMatchesServiceType
      else if \<not> (\<exists>x \<in> set (db_service_types d). svr_id x = row_service_type r \<and> svr_required_bay_type x = row_bay_type r)
      then Some ConstraintRequiredBayTypeMatchesServiceType
      else if (row_technician r, row_skill r) \<notin> set (db_technician_skills d)
      then Some ConstraintTechnicianHoldsSkill
      else if \<not> (\<exists>x \<in> set (db_bays d). bar_id x = row_bay r \<and> bar_type x = row_bay_type r)
      then Some ConstraintBayHasRequiredType
      else None)"

text \<open>
  What the server answers to an insert: the CHECK first, then the unique and exclusion indexes in
  the order of their creation, then the foreign keys at the end of the statement.
\<close>

definition pg_error_of :: "string \<Rightarrow> string \<Rightarrow> pg_error" where
  "pg_error_of code name = \<lparr>pg_Code = code, pg_ConstraintName = name\<rparr>"

definition insert_violation :: "db \<Rightarrow> appointment_row \<Rightarrow> pg_error option" where
  "insert_violation d r =
     (if \<not> row_start r < row_end r then Some (pg_error_of ''23514'' ''appointment_start_before_end'')
      else if \<exists>x \<in> set (db_appointments d). row_id x = row_id r
      then Some (pg_error_of ''23505'' ''appointment_pkey'')
      else if \<exists>x \<in> set (db_appointments d). excluded row_bay r x
      then Some (pg_error_of ''23P01'' ConstraintBayOverlap)
      else if \<exists>x \<in> set (db_appointments d). excluded row_technician r x
      then Some (pg_error_of ''23P01'' ConstraintTechnicianOverlap)
      else if \<exists>x \<in> set (db_appointments d). excluded row_vehicle r x
      then Some (pg_error_of ''23P01'' ConstraintVehicleOverlap)
      else (case foreign_key_violation d r of
              Some name \<Rightarrow> Some (pg_error_of ''23503'' name)
            | None \<Rightarrow> None))"

definition key_violation :: "db \<Rightarrow> string \<Rightarrow> key_row \<Rightarrow> pg_error option" where
  "key_violation d dealership k =
     (if kr_outcome k \<notin> {''CREATED'', ''REJECTED''}
      then Some (pg_error_of ''23514'' ''idempotency_key_outcome_check'')
      else if \<not> (kr_outcome k = ''CREATED'' \<and> kr_appointment k \<noteq> None \<and> kr_error k = None \<or>
                 kr_outcome k = ''REJECTED'' \<and> kr_appointment k = None \<and> kr_error k \<noteq> None)
      then Some (pg_error_of ''23514'' ''idempotency_outcome_shape'')
      else if \<not> (\<exists>x \<in> set (db_dealerships d). dlr_id x = dealership)
      then Some (pg_error_of ''23503'' ''idempotency_key_dealership_id_fkey'')
      else if \<not> (case kr_appointment k of None \<Rightarrow> True
                 | Some i \<Rightarrow> \<exists>x \<in> set (db_appointments d). row_id x = i)
      then Some (pg_error_of ''23503'' ''idempotency_key_appointment_id_fkey'')
      else None)"

section \<open>The invariants of the schema\<close>

text \<open>INV-1 to INV-3: two rows conflict when they share a bay, a technician or a vehicle at one time.\<close>

definition double_booked :: "appointment_row \<Rightarrow> appointment_row \<Rightarrow> bool" where
  "double_booked r r' \<longleftrightarrow> excluded row_bay r r' \<or> excluded row_technician r r' \<or> excluded row_vehicle r r'"

definition no_double_booking :: "appointment_row list \<Rightarrow> bool" where
  "no_double_booking rows \<longleftrightarrow> sorted_wrt (\<lambda>r r'. \<not> double_booked r r') rows"

text \<open>INV-4, INV-5 and INV-7, and what else a stored row satisfies.\<close>

definition row_ok :: "db \<Rightarrow> appointment_row \<Rightarrow> bool" where
  "row_ok d r \<longleftrightarrow> row_start r < row_end r \<and> foreign_key_violation d r = None"

definition db_ok :: "db \<Rightarrow> bool" where
  "db_ok d \<longleftrightarrow> no_double_booking (db_appointments d) \<and>
     distinct (map row_id (db_appointments d)) \<and>
     (\<forall>r \<in> set (db_appointments d). row_ok d r) \<and>
     (\<forall>i k v. db_keys d (i, k) = Some v \<longrightarrow> key_violation d i v = None)"

lemma excluded_sym: "excluded c r r' \<longleftrightarrow> excluded c r' r"
  by (auto simp: excluded_def ranges_overlap_def)

lemma double_booked_sym: "double_booked r r' \<longleftrightarrow> double_booked r' r"
  by (auto simp: double_booked_def excluded_sym)

lemma no_double_booking_nth:
  "no_double_booking rows \<longleftrightarrow>
     (\<forall>i j. i < length rows \<longrightarrow> j < length rows \<longrightarrow> i \<noteq> j \<longrightarrow> \<not> double_booked (rows ! i) (rows ! j))"
proof -
  have "\<not> double_booked (rows ! i) (rows ! j)"
    if "\<forall>i j. i < j \<longrightarrow> j < length rows \<longrightarrow> \<not> double_booked (rows ! i) (rows ! j)"
      "i < length rows" "j < length rows" "i \<noteq> j" for i j
  proof (cases "i < j")
    case True
    with that show ?thesis by blast
  next
    case False
    with that have "\<not> double_booked (rows ! j) (rows ! i)" by (metis nat_neq_iff)
    then show ?thesis by (simp add: double_booked_sym [of "rows ! i" "rows ! j"])
  qed
  then show ?thesis
    by (auto simp: no_double_booking_def sorted_wrt_iff_nth_less)
qed

lemma no_double_booking_append:
  "no_double_booking (xs @ ys) \<longleftrightarrow> no_double_booking xs \<and> no_double_booking ys \<and>
     (\<forall>x \<in> set xs. \<forall>y \<in> set ys. \<not> double_booked x y)"
  by (auto simp: no_double_booking_def sorted_wrt_append)

lemma no_double_booking_insert:
  assumes "no_double_booking (xs @ ys)" "\<forall>x \<in> set (xs @ ys). \<not> double_booked r x"
  shows "no_double_booking (xs @ r # ys)"
proof -
  have "no_double_booking (r # ys)"
    using assms by (auto simp: no_double_booking_def sorted_wrt_append)
  then show ?thesis
    using assms by (auto simp: no_double_booking_append double_booked_sym)
qed

lemma foreign_key_violation_tables:
  assumes "db_dealerships d = db_dealerships d'" "db_customers d = db_customers d'"
    "db_service_types d = db_service_types d'" "db_vehicles d = db_vehicles d'"
    "db_technicians d = db_technicians d'" "db_bays d = db_bays d'"
    "db_technician_skills d = db_technician_skills d'"
  shows "foreign_key_violation d r = foreign_key_violation d' r"
  using assms by (simp add: foreign_key_violation_def)

text \<open>An accepted row meets every constraint; the three exclusion verdicts name a conflict.\<close>

lemma insert_violation_None:
  "insert_violation d r = None \<longleftrightarrow>
     row_start r < row_end r \<and> (\<forall>x \<in> set (db_appointments d). row_id x \<noteq> row_id r) \<and>
     (\<forall>x \<in> set (db_appointments d). \<not> double_booked r x) \<and> foreign_key_violation d r = None"
  by (auto simp: insert_violation_def double_booked_def split: option.splits)

lemma foreign_key_violation_None:
  assumes "foreign_key_violation d r = None"
  shows "\<exists>x \<in> set (db_technicians d). ter_id x = row_technician r \<and> ter_dealership x = row_dealership r"
    and "\<exists>x \<in> set (db_bays d). bar_id x = row_bay r \<and> bar_dealership x = row_dealership r"
    and "\<exists>x \<in> set (db_bays d). bar_id x = row_bay r \<and> bar_type x = row_bay_type r"
    and "\<exists>x \<in> set (db_vehicles d). ver_id x = row_vehicle r \<and> ver_dealership x = row_dealership r"
    and "(row_technician r, row_skill r) \<in> set (db_technician_skills d)"
    and "\<exists>x \<in> set (db_service_types d). svr_id x = row_service_type r \<and> svr_required_skill_id x = row_skill r"
    and "\<exists>x \<in> set (db_service_types d). svr_id x = row_service_type r \<and> svr_required_bay_type x = row_bay_type r"
  using assms by (simp_all add: foreign_key_violation_def split: if_splits)

section \<open>The invariant under inserts, cancellations and key writes\<close>

text \<open>Two states of the store with the same catalogue: everything but appointments and keys.\<close>

definition same_catalogue :: "db \<Rightarrow> db \<Rightarrow> bool" where
  "same_catalogue d e \<longleftrightarrow>
     d\<lparr>db_appointments := [], db_keys := Map.empty\<rparr> = e\<lparr>db_appointments := [], db_keys := Map.empty\<rparr>"

lemma same_catalogue_iff:
  "same_catalogue d e \<longleftrightarrow> db_dealerships d = db_dealerships e \<and> db_hours d = db_hours e \<and>
     db_service_types d = db_service_types e \<and> db_bays d = db_bays e \<and>
     db_technicians d = db_technicians e \<and> db_technician_skills d = db_technician_skills e \<and>
     db_customers d = db_customers e \<and> db_vehicles d = db_vehicles e"
  by (cases d; cases e) (auto simp: same_catalogue_def)

lemma foreign_key_violation_catalogue:
  "same_catalogue d e \<Longrightarrow> foreign_key_violation d r = foreign_key_violation e r"
  by (rule foreign_key_violation_tables) (simp_all add: same_catalogue_iff)

lemma foreign_key_violation_update [simp]:
  "foreign_key_violation (d\<lparr>db_appointments := rs\<rparr>) r = foreign_key_violation d r"
  "foreign_key_violation (d\<lparr>db_keys := ks\<rparr>) r = foreign_key_violation d r"
  by (rule foreign_key_violation_tables; simp)+

lemma key_violation_update [simp]: "key_violation (d\<lparr>db_keys := ks\<rparr>) i v = key_violation d i v"
  by (simp add: key_violation_def cong: option.case_cong)

lemma row_ok_update [simp]:
  "row_ok (d\<lparr>db_appointments := rs\<rparr>) r = row_ok d r" "row_ok (d\<lparr>db_keys := ks\<rparr>) r = row_ok d r"
  by (simp_all add: row_ok_def)

lemma row_ok_catalogue: "same_catalogue d e \<Longrightarrow> row_ok d r = row_ok e r"
  by (simp add: row_ok_def foreign_key_violation_catalogue)

lemma insert_violation_mono:
  assumes "insert_violation e r = None" "same_catalogue d e"
    and "set (db_appointments d) \<subseteq> set (db_appointments e)"
  shows "insert_violation d r = None"
  using assms foreign_key_violation_catalogue [OF assms(2), of r]
  by (auto simp: insert_violation_None)

lemma key_violation_mono:
  assumes "key_violation d i v = None" "same_catalogue d e"
    and "row_id ` set (db_appointments d) \<subseteq> row_id ` set (db_appointments e)"
  shows "key_violation e i v = None"
proof -
  have "\<exists>x \<in> set (db_appointments e). row_id x = j"
    if "\<exists>x \<in> set (db_appointments d). row_id x = j" for j
    using that assms(3) by (metis (no_types, lifting) image_iff subset_iff)
  with assms(1,2) show ?thesis
    by (auto simp: key_violation_def same_catalogue_iff split: if_splits option.splits)
qed

lemma db_ok_insert:
  assumes ok: "db_ok d" and v: "insert_violation d r = None" and d: "db_appointments d = xs @ ys"
  shows "db_ok (d\<lparr>db_appointments := xs @ r # ys\<rparr>)"
proof -
  let ?e = "d\<lparr>db_appointments := xs @ r # ys\<rparr>"
  have cat: "same_catalogue d ?e" by (simp add: same_catalogue_iff)
  have "no_double_booking (xs @ r # ys)"
    using ok v d by (intro no_double_booking_insert) (auto simp: db_ok_def insert_violation_None)
  moreover have "distinct (map row_id (xs @ r # ys))"
    using ok v d by (auto simp: db_ok_def insert_violation_None)
  moreover have "\<forall>x \<in> set (xs @ r # ys). row_ok ?e x"
    using ok v d by (auto simp: db_ok_def insert_violation_None row_ok_def)
  moreover have "key_violation ?e i k = None" if "key_violation d i k = None" for i k
    using that cat by (rule key_violation_mono) (auto simp: d)
  ultimately show ?thesis using ok by (simp add: db_ok_def)
qed

text \<open>Rows that at most lost their CONFIRMED status.\<close>

definition cancelled_or_same :: "appointment_row \<Rightarrow> appointment_row \<Rightarrow> bool" where
  "cancelled_or_same r r' \<longleftrightarrow> r' = r \<or> r' = r\<lparr>row_status := StatusCancelled\<rparr>"

lemma row_ok_status [simp]: "row_ok d (r\<lparr>row_status := st\<rparr>) = row_ok d r"
  by (simp add: row_ok_def foreign_key_violation_def)

lemma double_booked_cancelled [simp]:
  "\<not> double_booked (r\<lparr>row_status := StatusCancelled\<rparr>) x" "\<not> double_booked x (r\<lparr>row_status := StatusCancelled\<rparr>)"
  by (simp_all add: double_booked_def excluded_def)

lemma cancelled_or_same_id: "cancelled_or_same r r' \<Longrightarrow> row_id r' = row_id r"
  by (auto simp: cancelled_or_same_def)

lemma cancelled_or_same_ok: "cancelled_or_same r r' \<Longrightarrow> row_ok d r' = row_ok d r"
  by (auto simp: cancelled_or_same_def)

lemma cancelled_or_same_booked:
  "cancelled_or_same r r' \<Longrightarrow> cancelled_or_same x x' \<Longrightarrow> double_booked r' x' \<Longrightarrow> double_booked r x"
  by (auto simp: cancelled_or_same_def)

lemma cancelled_ids: "list_all2 cancelled_or_same xs ys \<Longrightarrow> map row_id ys = map row_id xs"
  by (induction rule: list_all2_induct) (auto dest: cancelled_or_same_id)

lemma no_double_booking_cancelled:
  assumes rel: "list_all2 cancelled_or_same xs ys" and "no_double_booking xs"
  shows "no_double_booking ys"
  unfolding no_double_booking_nth
proof (intro allI impI notI)
  fix i j assume ij: "i < length ys" "j < length ys" "i \<noteq> j" and db: "double_booked (ys ! i) (ys ! j)"
  have len: "length xs = length ys" by (rule list_all2_lengthD [OF rel])
  have "cancelled_or_same (xs ! i) (ys ! i)" "cancelled_or_same (xs ! j) (ys ! j)"
    using rel ij len by (simp_all add: list_all2_nthD)
  then have "double_booked (xs ! i) (xs ! j)" using db by (rule cancelled_or_same_booked)
  then show False using assms(2) ij len unfolding no_double_booking_nth by simp
qed

lemma db_ok_cancelled:
  assumes rel: "list_all2 cancelled_or_same (db_appointments d) rs" and ok: "db_ok d"
  shows "db_ok (d\<lparr>db_appointments := rs\<rparr>)"
proof -
  let ?e = "d\<lparr>db_appointments := rs\<rparr>"
  have cat: "same_catalogue d ?e" by (simp add: same_catalogue_iff)
  have ids: "map row_id rs = map row_id (db_appointments d)" by (rule cancelled_ids [OF rel])
  then have ids': "row_id ` set (db_appointments d) = row_id ` set rs" by (metis set_map)
  have "row_ok ?e x" if "x \<in> set rs" for x
  proof -
    from that obtain n where n: "n < length rs" "x = rs ! n" by (auto simp: in_set_conv_nth)
    have "cancelled_or_same (db_appointments d ! n) x"
      using list_all2_nthD2 [OF rel n(1)] n(2) by simp
    then have "row_ok d x = row_ok d (db_appointments d ! n)" by (rule cancelled_or_same_ok)
    moreover have "db_appointments d ! n \<in> set (db_appointments d)"
      using n(1) list_all2_lengthD [OF rel] by simp
    ultimately show ?thesis using ok unfolding db_ok_def row_ok_update by metis
  qed
  moreover have "key_violation ?e i k = None" if "key_violation d i k = None" for i k
    using that cat by (rule key_violation_mono) (simp add: ids')
  moreover have "no_double_booking rs"
    using no_double_booking_cancelled [OF rel] ok by (simp add: db_ok_def)
  ultimately show ?thesis using ok ids by (simp add: db_ok_def)
qed

lemma db_ok_keys:
  assumes "db_ok d" "\<And>i k v. ks (i, k) = Some v \<Longrightarrow> key_violation d i v = None"
  shows "db_ok (d\<lparr>db_keys := ks\<rparr>)"
  using assms by (simp add: db_ok_def)

end
