(* ===== verification/Session.thy ===== *)
theory Session
  imports Database
begin

text \<open>
  A database session, one statement at a time. Between two statements of the code other sessions
  commit rows, cancel appointments, hold advisory locks, and a statement or a COMMIT can fail or
  lose its acknowledgement: all of that is a script, a parameter of the model. The record
  \<open>pg_env\<close> holds it beside what else is not in the repository (the driver's encoding of times
  and uuids, the server's identifiers and clock, the lock hash, the zone data). The relation
  \<open>tx_step\<close> lists what one step of a transaction can do to the session; an invariant of the
  database is proved once by induction over its closure.
\<close>

section \<open>The environment\<close>

text \<open>What a statement can fail with: an error of the server, of the context, of the connection.\<close>

datatype failure = FailServer pg_error | FailCanceled | FailDeadline | FailConnection string

fun failure_error :: "failure \<Rightarrow> go_error" where
  "failure_error (FailServer p) = EPg p"
| "failure_error FailCanceled = ECanceled"
| "failure_error FailDeadline = EDeadlineExceeded"
| "failure_error (FailConnection s) = EText s"

lemma failure_error_kind [simp]:
  "AsError (failure_error f) = None" "\<not> error_is (failure_error f) ELostRace"
  "failure_error f \<noteq> ENoRows"
  by (cases f; simp)+

type_synonym lock_pair = "int \<times> int"

record db_event =
  ev_rows :: "(appointment_row \<times> lock_pair option) list"
  ev_cancels :: "string list"
  ev_keys :: "((string \<times> string) \<times> key_row) list"
  ev_fail :: "failure option"
  ev_lost_ack :: bool

definition quiet_event :: db_event where
  "quiet_event = \<lparr>ev_rows = [], ev_cancels = [], ev_keys = [], ev_fail = None, ev_lost_ack = False\<rparr>"

record pg_env =
  pe_ts :: "int \<Rightarrow> int"
  pe_local :: location
  pe_uuid :: "nat \<Rightarrow> string"
  pe_parse_uuid :: "string \<Rightarrow> string option"
  pe_load_location :: "string \<Rightarrow> location option"
  pe_hash :: "string \<Rightarrow> int"
  pe_clock :: "nat \<Rightarrow> int"
  pe_script :: "nat \<Rightarrow> db_event"

text \<open>What the code relies on: uuid text is read case-insensitively and generated canonically.\<close>

definition env_ok :: "pg_env \<Rightarrow> bool" where
  "env_ok env \<longleftrightarrow>
     (\<forall>s. is_uuid s \<longrightarrow> pe_parse_uuid env s = Some (to_lower s)) \<and>
     (\<forall>n. is_uuid (pe_uuid env n) \<and> to_lower (pe_uuid env n) = pe_uuid env n)"

text \<open>
  The session: the committed database, the uncommitted rows and keys of the open transaction, its
  advisory locks, whether a transaction is open and whether a failed statement has aborted it, and
  the number of statements run so far.
\<close>

record pg =
  pg_db :: db
  pg_own_rows :: "appointment_row list"
  pg_own_keys :: "string \<times> string \<rightharpoonup> key_row"
  pg_locks :: "lock_pair set"
  pg_open :: bool
  pg_aborted :: bool
  pg_tick :: nat

text \<open>READ COMMITTED: a statement sees what is committed when it runs, and the transaction's own writes.\<close>

definition view :: "'m pg_scheme \<Rightarrow> db" where
  "view s = (pg_db s)\<lparr>db_appointments := db_appointments (pg_db s) @ pg_own_rows s,
                      db_keys := db_keys (pg_db s) ++ pg_own_keys s\<rparr>"

definition add_row :: "appointment_row \<Rightarrow> db \<Rightarrow> db" where
  "add_row r d = d\<lparr>db_appointments := db_appointments d @ [r]\<rparr>"

definition set_key :: "string \<times> string \<Rightarrow> key_row \<Rightarrow> db \<Rightarrow> db" where
  "set_key k v d = d\<lparr>db_keys := (db_keys d)(k \<mapsto> v)\<rparr>"

definition cancel_rows :: "string list \<Rightarrow> db \<Rightarrow> db" where
  "cancel_rows ids d = d\<lparr>db_appointments :=
     map (\<lambda>r. if row_id r \<in> set ids then r\<lparr>row_status := StatusCancelled\<rparr> else r) (db_appointments d)\<rparr>"

section \<open>Other sessions\<close>

text \<open>
  A row of another session is committed unless its writer waits for an advisory lock this session
  holds, or the server rejects it (an uncommitted row of this session counts: the other insert
  waits for it).
\<close>

definition admit_row :: "appointment_row \<times> lock_pair option \<Rightarrow> 'm pg_scheme \<Rightarrow> 'm pg_scheme" where
  "admit_row w s =
     (case w of (r, l) \<Rightarrow>
        if (case l of None \<Rightarrow> False | Some p \<Rightarrow> p \<in> pg_locks s) \<or> insert_violation (view s) r \<noteq> None
        then s else s\<lparr>pg_db := add_row r (pg_db s)\<rparr>)"

definition admit_key :: "pg_env \<Rightarrow> (string \<times> string) \<times> key_row \<Rightarrow> 'm pg_scheme \<Rightarrow> 'm pg_scheme" where
  "admit_key env w s =
     (case w of ((d, k), v) \<Rightarrow>
        if (pe_hash env d, pe_hash env k) \<in> pg_locks s \<or> key_violation (pg_db s) d v \<noteq> None
        then s else s\<lparr>pg_db := set_key (d, k) v (pg_db s)\<rparr>)"

definition arrive :: "pg_env \<Rightarrow> 'm pg_scheme \<Rightarrow> 'm pg_scheme" where
  "arrive env s =
     (let ev = pe_script env (pg_tick s);
          s1 = s\<lparr>pg_db := cancel_rows (ev_cancels ev) (pg_db s)\<rparr>;
          s2 = fold admit_row (ev_rows ev) s1;
          s3 = fold (admit_key env) (ev_keys ev) s2
      in s3\<lparr>pg_tick := Suc (pg_tick s)\<rparr>)"

section \<open>Statements\<close>

definition pg_aborted_error :: go_error where
  "pg_aborted_error = EPg (pg_error_of ''25P02'' [])"

text \<open>
  One statement: what other sessions did is visible first; a parameter that is not a uuid is refused by
  the driver; in an aborted transaction nothing but a rollback runs; a failure aborts an open one.
\<close>

definition statement ::
  "pg_env \<Rightarrow> string list \<Rightarrow> ('m pg_scheme \<Rightarrow> (go_error + 'a) \<times> 'm pg_scheme)
     \<Rightarrow> 'm pg_scheme \<Rightarrow> (go_error + 'a) \<times> 'm pg_scheme" where
  "statement env uuids run s =
     (let s1 = arrive env s in
      if list_ex (\<lambda>u. pe_parse_uuid env u = None) uuids
      then (Inl (EText ''cannot encode uuid parameter''), s1)
      else if pg_aborted s1 then (Inl pg_aborted_error, s1)
      else case ev_fail (pe_script env (pg_tick s)) of
             Some f \<Rightarrow> (Inl (failure_error f), s1\<lparr>pg_aborted := pg_open s1\<rparr>)
           | None \<Rightarrow> run s1)"

definition query ::
  "pg_env \<Rightarrow> string list \<Rightarrow> (db \<Rightarrow> 'a) \<Rightarrow> 'm pg_scheme \<Rightarrow> (go_error + 'a) \<times> 'm pg_scheme" where
  "query env uuids f = statement env uuids (\<lambda>s. (Inr (f (view s)), s))"

definition uuid_arg :: "pg_env \<Rightarrow> string \<Rightarrow> string" where
  "uuid_arg env p = (case pe_parse_uuid env p of Some c \<Rightarrow> c | None \<Rightarrow> [])"

text \<open>A rejected write aborts the transaction like any other failure.\<close>

definition insert_row :: "appointment_row \<Rightarrow> 'm pg_scheme \<Rightarrow> (go_error + string) \<times> 'm pg_scheme" where
  "insert_row r s =
     (case insert_violation (view s) r of
        Some e \<Rightarrow> (Inl (EPg e), s\<lparr>pg_aborted := pg_open s\<rparr>)
      | None \<Rightarrow> (Inr (row_id r), s\<lparr>pg_own_rows := pg_own_rows s @ [r]\<rparr>))"

definition upsert_key ::
  "string \<times> string \<Rightarrow> key_row \<Rightarrow> 'm pg_scheme \<Rightarrow> (go_error + unit) \<times> 'm pg_scheme" where
  "upsert_key k v s =
     (case key_violation (view s) (fst k) v of
        Some e \<Rightarrow> (Inl (EPg e), s\<lparr>pg_aborted := pg_open s\<rparr>)
      | None \<Rightarrow> (Inr (), s\<lparr>pg_own_keys := (pg_own_keys s)(k \<mapsto> v)\<rparr>))"

definition advisory_lock :: "lock_pair \<Rightarrow> 'm pg_scheme \<Rightarrow> (go_error + unit) \<times> 'm pg_scheme" where
  "advisory_lock p s = (Inr (), s\<lparr>pg_locks := insert p (pg_locks s)\<rparr>)"

text \<open>The ends of a transaction. The locks are transaction-scoped.\<close>

definition close_tx :: "'m pg_scheme \<Rightarrow> 'm pg_scheme" where
  "close_tx s = s\<lparr>pg_own_rows := [], pg_own_keys := Map.empty, pg_locks := {}, pg_open := False,
                  pg_aborted := False\<rparr>"

definition apply_tx :: "'m pg_scheme \<Rightarrow> 'm pg_scheme" where
  "apply_tx s = close_tx (s\<lparr>pg_db := view s\<rparr>)"

definition open_tx :: "'m pg_scheme \<Rightarrow> 'm pg_scheme" where
  "open_tx s = s\<lparr>pg_open := True\<rparr>"

text \<open>COMMIT of an aborted transaction rolls back; a commit can be applied and its answer lost.\<close>

definition commit_tx :: "pg_env \<Rightarrow> 'm pg_scheme \<Rightarrow> go_error option \<times> 'm pg_scheme" where
  "commit_tx env s =
     (let s1 = arrive env s; ev = pe_script env (pg_tick s) in
      if pg_aborted s1 then (Some (EText ''commit unexpectedly resulted in rollback''), close_tx s1)
      else case ev_fail ev of
             Some f \<Rightarrow> (Some (failure_error f), if ev_lost_ack ev then apply_tx s1 else close_tx s1)
           | None \<Rightarrow> (None, apply_tx s1))"

section \<open>Steps of a session\<close>

text \<open>A generated identifier belongs to the statement that inserts: the tick before the current one.\<close>

inductive tx_step :: "pg_env \<Rightarrow> 'm pg_scheme \<Rightarrow> 'm pg_scheme \<Rightarrow> bool" for env :: pg_env where
  arrive: "tx_step env s (arrive env s)"
| insert: "insert_violation (view s) r = None \<Longrightarrow> pg_tick s = Suc n \<Longrightarrow> row_id r = pe_uuid env n \<Longrightarrow>
    tx_step env s (s\<lparr>pg_own_rows := pg_own_rows s @ [r]\<rparr>)"
| save: "key_violation (view s) (fst k) v = None \<Longrightarrow>
    tx_step env s (s\<lparr>pg_own_keys := (pg_own_keys s)(k \<mapsto> v)\<rparr>)"
| lock: "tx_step env s (s\<lparr>pg_locks := insert p (pg_locks s)\<rparr>)"
| abort: "tx_step env s (s\<lparr>pg_aborted := b\<rparr>)"

abbreviation tx_steps :: "pg_env \<Rightarrow> 'm pg_scheme \<Rightarrow> 'm pg_scheme \<Rightarrow> bool" where
  "tx_steps env \<equiv> (tx_step env)\<^sup>*\<^sup>*"

inductive_cases tx_stepE: "tx_step env s t"

inductive session_step :: "pg_env \<Rightarrow> 'm pg_scheme \<Rightarrow> 'm pg_scheme \<Rightarrow> bool" for env :: pg_env where
  tx: "tx_step env s t \<Longrightarrow> session_step env s t"
| start: "session_step env s (open_tx s)"
| rollback: "session_step env s (close_tx s)"
| commit: "session_step env s (apply_tx s)"
| observe: "session_step env s (s\<lparr>pg.more := x\<rparr>)"

abbreviation session_steps :: "pg_env \<Rightarrow> 'm pg_scheme \<Rightarrow> 'm pg_scheme \<Rightarrow> bool" where
  "session_steps env \<equiv> (session_step env)\<^sup>*\<^sup>*"

section \<open>The session invariant\<close>

definition session_ok :: "'m pg_scheme \<Rightarrow> bool" where
  "session_ok s \<longleftrightarrow> db_ok (pg_db s) \<and> db_ok (view s)"

lemma view_sel [simp]:
  "db_dealerships (view s) = db_dealerships (pg_db s)" "db_hours (view s) = db_hours (pg_db s)"
  "db_service_types (view s) = db_service_types (pg_db s)" "db_bays (view s) = db_bays (pg_db s)"
  "db_technicians (view s) = db_technicians (pg_db s)"
  "db_technician_skills (view s) = db_technician_skills (pg_db s)"
  "db_customers (view s) = db_customers (pg_db s)" "db_vehicles (view s) = db_vehicles (pg_db s)"
  "db_appointments (view s) = db_appointments (pg_db s) @ pg_own_rows s"
  "db_keys (view s) = db_keys (pg_db s) ++ pg_own_keys s"
  by (simp_all add: view_def)

lemma view_fields [simp]:
  "view (s\<lparr>pg_locks := l\<rparr>) = view s" "view (s\<lparr>pg_aborted := b\<rparr>) = view s"
  "view (s\<lparr>pg_open := b\<rparr>) = view s" "view (s\<lparr>pg_tick := n\<rparr>) = view s"
  by (simp_all add: view_def)

lemma session_ok_fields [simp]:
  "session_ok (s\<lparr>pg_locks := l\<rparr>) = session_ok s" "session_ok (s\<lparr>pg_aborted := b\<rparr>) = session_ok s"
  "session_ok (s\<lparr>pg_open := b\<rparr>) = session_ok s" "session_ok (s\<lparr>pg_tick := n\<rparr>) = session_ok s"
  by (simp_all add: session_ok_def)

lemma session_ok_admit_row: "session_ok s \<Longrightarrow> session_ok (admit_row w s)"
proof (cases w)
  case (Pair r l)
  assume ok: "session_ok s"
  have "session_ok (s\<lparr>pg_db := add_row r (pg_db s)\<rparr>)" if v: "insert_violation (view s) r = None"
  proof -
    have "insert_violation (pg_db s) r = None"
      using v by (rule insert_violation_mono) (simp_all add: same_catalogue_iff)
    then have "db_ok (add_row r (pg_db s))"
      using db_ok_insert [of "pg_db s" r "db_appointments (pg_db s)" "[]"] ok
      by (simp add: session_ok_def add_row_def)
    moreover have "db_ok ((view s)\<lparr>db_appointments := db_appointments (pg_db s) @ r # pg_own_rows s\<rparr>)"
      using ok v by (intro db_ok_insert) (simp_all add: session_ok_def)
    moreover have "(view s)\<lparr>db_appointments := db_appointments (pg_db s) @ r # pg_own_rows s\<rparr>
        = view (s\<lparr>pg_db := add_row r (pg_db s)\<rparr>)"
      by (simp add: view_def add_row_def)
    ultimately show ?thesis by (simp add: session_ok_def)
  qed
  with ok show ?thesis by (auto simp: admit_row_def Pair)
qed

lemma cancel_rows_rel:
  "list_all2 cancelled_or_same (db_appointments d) (db_appointments (cancel_rows ids d))"
  by (simp add: cancel_rows_def list_all2_map2 list_all2_same cancelled_or_same_def)

lemma session_ok_cancel:
  assumes "session_ok s"
  shows "session_ok (s\<lparr>pg_db := cancel_rows ids (pg_db s)\<rparr>)"
proof -
  have "db_ok (cancel_rows ids (pg_db s))"
    using db_ok_cancelled [OF cancel_rows_rel, of "pg_db s" ids] assms
    by (simp add: session_ok_def cancel_rows_def)
  moreover have "list_all2 cancelled_or_same (db_appointments (view s))
      (db_appointments (cancel_rows ids (pg_db s)) @ pg_own_rows s)"
    by (auto intro!: list_all2_appendI cancel_rows_rel simp: list_all2_same cancelled_or_same_def)
  then have "db_ok ((view s)\<lparr>db_appointments := db_appointments (cancel_rows ids (pg_db s)) @ pg_own_rows s\<rparr>)"
    using assms by (intro db_ok_cancelled) (simp_all add: session_ok_def)
  moreover have "(view s)\<lparr>db_appointments := db_appointments (cancel_rows ids (pg_db s)) @ pg_own_rows s\<rparr>
      = view (s\<lparr>pg_db := cancel_rows ids (pg_db s)\<rparr>)"
    by (simp add: view_def cancel_rows_def)
  ultimately show ?thesis by (simp add: session_ok_def)
qed

lemma db_ok_set_key:
  assumes "db_ok d" "key_violation d (fst k) v = None"
  shows "db_ok (d\<lparr>db_keys := (db_keys d)(k \<mapsto> v)\<rparr>)"
  using assms by (intro db_ok_keys) (auto simp: db_ok_def split: if_splits)

lemma db_ok_key: "db_ok d \<Longrightarrow> db_keys d (i, k) = Some v \<Longrightarrow> key_violation d i v = None"
  by (simp add: db_ok_def)

lemma session_ok_admit_key:
  assumes ok: "session_ok s"
  shows "session_ok (admit_key env w s)"
proof -
  obtain d k v where w: "w = ((d, k), v)" by (metis prod.exhaust)
  have "session_ok (s\<lparr>pg_db := set_key (d, k) v (pg_db s)\<rparr>)" if v: "key_violation (pg_db s) d v = None"
  proof -
    have "key_violation (view s) d v = None"
      using v by (rule key_violation_mono) (auto simp: same_catalogue_iff)
    moreover have "key_violation (view s) i x = None" if "db_keys (pg_db s) (i, j) = Some x" for i j x
    proof -
      have "key_violation (pg_db s) i x = None"
        using db_ok_key that ok unfolding session_ok_def by blast
      then show ?thesis by (rule key_violation_mono) (auto simp: same_catalogue_iff)
    qed
    moreover have "key_violation (view s) i x = None" if "pg_own_keys s (i, j) = Some x" for i j x
    proof -
      have "db_keys (view s) (i, j) = Some x" using that by simp
      then show ?thesis using db_ok_key ok unfolding session_ok_def by blast
    qed
    ultimately have "db_ok ((view s)\<lparr>db_keys := (db_keys (pg_db s))((d, k) \<mapsto> v) ++ pg_own_keys s\<rparr>)"
      using ok by (intro db_ok_keys) (auto simp: session_ok_def map_add_def split: option.splits if_splits)
    moreover have "(view s)\<lparr>db_keys := (db_keys (pg_db s))((d, k) \<mapsto> v) ++ pg_own_keys s\<rparr>
        = view (s\<lparr>pg_db := set_key (d, k) v (pg_db s)\<rparr>)"
      by (simp add: view_def set_key_def)
    moreover have "db_ok (set_key (d, k) v (pg_db s))"
      using ok v unfolding set_key_def session_ok_def by (intro db_ok_set_key) auto
    ultimately show ?thesis by (simp add: session_ok_def)
  qed
  with ok show ?thesis by (auto simp: admit_key_def w)
qed

lemma session_ok_insert:
  assumes "session_ok s" "insert_violation (view s) r = None"
  shows "session_ok (s\<lparr>pg_own_rows := pg_own_rows s @ [r]\<rparr>)"
proof -
  have "db_ok ((view s)\<lparr>db_appointments := (db_appointments (view s)) @ [r]\<rparr>)"
    using assms by (intro db_ok_insert) (simp_all add: session_ok_def)
  moreover have eq: "view (s\<lparr>pg_own_rows := pg_own_rows s @ [r]\<rparr>)
      = (view s)\<lparr>db_appointments := (db_appointments (view s)) @ [r]\<rparr>"
    by (simp add: view_def)
  ultimately show ?thesis using assms(1) unfolding session_ok_def eq by simp
qed

lemma session_ok_save:
  assumes "session_ok s" "key_violation (view s) (fst k) v = None"
  shows "session_ok (s\<lparr>pg_own_keys := (pg_own_keys s)(k \<mapsto> v)\<rparr>)"
proof -
  have "db_ok ((view s)\<lparr>db_keys := (db_keys (view s))(k \<mapsto> v)\<rparr>)"
    using assms by (intro db_ok_set_key) (simp_all add: session_ok_def)
  moreover have eq: "view (s\<lparr>pg_own_keys := (pg_own_keys s)(k \<mapsto> v)\<rparr>)
      = (view s)\<lparr>db_keys := (db_keys (view s))(k \<mapsto> v)\<rparr>"
    by (simp add: view_def)
  ultimately show ?thesis using assms(1) unfolding session_ok_def eq by simp
qed

lemma session_ok_close: "session_ok s \<Longrightarrow> session_ok (close_tx s)"
  by (simp add: session_ok_def close_tx_def view_def)

lemma view_apply: "view (apply_tx s) = view s" "pg_db (apply_tx s) = view s"
  by (simp_all add: apply_tx_def close_tx_def view_def)

lemma session_ok_apply: "session_ok s \<Longrightarrow> session_ok (apply_tx s)"
  by (simp add: session_ok_def view_apply)

section \<open>Relations kept by every step\<close>

text \<open>
  A reflexive and transitive relation that each elementary change keeps is kept by a whole
  transaction. What other sessions can do is assumed only of the events of the script.
\<close>

locale session_relation = state_preorder R for R :: "'m pg_scheme \<Rightarrow> 'm pg_scheme \<Rightarrow> bool" +
  fixes env :: pg_env
  assumes R_cancel: "R s (s\<lparr>pg_db := cancel_rows ids (pg_db s)\<rparr>)"
    and R_row: "w \<in> set (ev_rows (pe_script env n)) \<Longrightarrow> R s (admit_row w s)"
    and R_key: "kw \<in> set (ev_keys (pe_script env n)) \<Longrightarrow> R s (admit_key env kw s)"
    and R_tick: "pg_tick s \<le> n \<Longrightarrow> R s (s\<lparr>pg_tick := n\<rparr>)"
    and R_insert: "insert_violation (view s) r = None \<Longrightarrow> row_id r = pe_uuid env n \<Longrightarrow>
      R s (s\<lparr>pg_own_rows := pg_own_rows s @ [r]\<rparr>)"
    and R_save: "key_violation (view s) (fst k) v = None \<Longrightarrow>
      R s (s\<lparr>pg_own_keys := (pg_own_keys s)(k \<mapsto> v)\<rparr>)"
    and R_lock: "R s (s\<lparr>pg_locks := insert p (pg_locks s)\<rparr>)"
    and R_abort: "R s (s\<lparr>pg_aborted := b\<rparr>)"
begin

lemma arrive_R: "R s (arrive env s)"
proof -
  define ev where "ev = pe_script env (pg_tick s)"
  define s1 where "s1 = s\<lparr>pg_db := cancel_rows (ev_cancels ev) (pg_db s)\<rparr>"
  define s2 where "s2 = fold admit_row (ev_rows ev) s1"
  define s3 where "s3 = fold (admit_key env) (ev_keys ev) s2"
  have "R s s1" by (simp add: s1_def R_cancel)
  moreover have "R s1 s2"
    unfolding s2_def by (rule fold_keeps [OF R_refl R_trans]) (auto simp: ev_def intro: R_row)
  moreover have "R s2 s3"
    unfolding s3_def by (rule fold_keeps [OF R_refl R_trans]) (auto simp: ev_def intro: R_key)
  ultimately have "R s s3" by (auto intro: R_trans)
  moreover have "R s3 (s3\<lparr>pg_tick := Suc (pg_tick s)\<rparr>)"
  proof -
    have tick: "pg_tick (admit_row w u) = pg_tick u" "pg_tick (admit_key env v u) = pg_tick u" for w v and u :: "'m pg_scheme"
      by (auto simp: admit_row_def admit_key_def split: prod.splits)
    have "pg_tick (fold admit_row ws u) = pg_tick u" "pg_tick (fold (admit_key env) vs u) = pg_tick u"
      for ws vs and u :: "'m pg_scheme"
      by (induction ws arbitrary: u) (simp_all add: tick, induction vs arbitrary: u, simp_all add: tick)
    then show ?thesis by (intro R_tick) (simp add: s3_def s2_def s1_def)
  qed
  ultimately show ?thesis
    by (auto simp: arrive_def Let_def s1_def s2_def s3_def ev_def intro: R_trans)
qed

lemma tx_step_R: "tx_step env s t \<Longrightarrow> R s t"
  by (induction rule: tx_step.induct) (auto intro: arrive_R R_insert R_save R_lock R_abort)

lemma tx_steps_R: "tx_steps env s t \<Longrightarrow> R s t"
  by (induction rule: rtranclp_induct) (auto intro: R_refl R_trans tx_step_R)

end

text \<open>The same for a whole session: transactions begin and end, and metrics are updated beside it.\<close>

locale whole_session = session_relation R env for R :: "'m pg_scheme \<Rightarrow> 'm pg_scheme \<Rightarrow> bool" and env +
  assumes R_open: "R s (open_tx s)"
    and R_close: "R s (close_tx s)"
    and R_apply: "R s (apply_tx s)"
    and R_observe: "R s (s\<lparr>pg.more := x\<rparr>)"
begin

lemma session_step_R: "session_step env s t \<Longrightarrow> R s t"
  by (induction rule: session_step.induct) (auto intro: tx_step_R R_open R_close R_apply R_observe)

lemma session_steps_R: "session_steps env s t \<Longrightarrow> R s t"
  by (induction rule: rtranclp_induct) (auto intro: R_refl R_trans session_step_R)

end

text \<open>The constraints hold of what is committed and of what the transaction sees.\<close>

definition ok_kept :: "'m pg_scheme \<Rightarrow> 'm pg_scheme \<Rightarrow> bool" where
  "ok_kept s t \<longleftrightarrow> (session_ok s \<longrightarrow> session_ok t)"

lemma view_observe [simp]: "view (s\<lparr>pg.more := x\<rparr>) = view s"
  by (simp add: view_def)

interpretation ok: whole_session ok_kept env for env
  by unfold_locales
    (auto simp: ok_kept_def intro: session_ok_cancel session_ok_admit_row session_ok_admit_key
      session_ok_insert session_ok_save session_ok_close session_ok_apply, auto simp: session_ok_def open_tx_def)

text \<open>The catalogue does not change; the number of statements grows.\<close>

definition frame_kept :: "'m pg_scheme \<Rightarrow> 'm pg_scheme \<Rightarrow> bool" where
  "frame_kept s t \<longleftrightarrow> same_catalogue (pg_db s) (pg_db t) \<and> pg_tick s \<le> pg_tick t"

interpretation frame: whole_session frame_kept env for env
  by unfold_locales
    (auto simp: frame_kept_def same_catalogue_iff cancel_rows_def admit_row_def admit_key_def
      add_row_def set_key_def open_tx_def close_tx_def apply_tx_def split: prod.splits)

text \<open>A committed appointment stays; only its status can become CANCELLED.\<close>

definition rows_kept :: "'m pg_scheme \<Rightarrow> 'm pg_scheme \<Rightarrow> bool" where
  "rows_kept s t \<longleftrightarrow> (\<forall>r \<in> set (db_appointments (pg_db s)).
     \<exists>r' \<in> set (db_appointments (pg_db t)). cancelled_or_same r r')"

lemma rows_kept_subset:
  "set (db_appointments (pg_db s)) \<subseteq> set (db_appointments (pg_db t)) \<Longrightarrow> rows_kept s t"
  by (auto simp: rows_kept_def cancelled_or_same_def)

interpretation rows: whole_session rows_kept env for env
proof unfold_locales
  show "rows_kept s t \<Longrightarrow> rows_kept t u \<Longrightarrow> rows_kept s u" for s t u :: "'a pg_scheme"
    unfolding rows_kept_def cancelled_or_same_def by fastforce
  show "rows_kept s (s\<lparr>pg_db := cancel_rows ids (pg_db s)\<rparr>)" for s :: "'a pg_scheme" and ids
    by (auto simp: rows_kept_def cancel_rows_def cancelled_or_same_def)
qed (auto intro!: rows_kept_subset simp: admit_row_def admit_key_def add_row_def set_key_def
    open_tx_def close_tx_def apply_tx_def split: prod.splits)

text \<open>Identifiers generated for this session reach the committed rows only through its own commit.\<close>

definition foreign_script :: "pg_env \<Rightarrow> bool" where
  "foreign_script env \<longleftrightarrow>
     (\<forall>n. \<forall>w \<in> set (ev_rows (pe_script env n)). row_id (fst w) \<notin> range (pe_uuid env))"

definition generated :: "pg_env \<Rightarrow> db \<Rightarrow> string set" where
  "generated env d = range (pe_uuid env) \<inter> row_id ` set (db_appointments d)"

definition generated_kept :: "pg_env \<Rightarrow> 'm pg_scheme \<Rightarrow> 'm pg_scheme \<Rightarrow> bool" where
  "generated_kept env s t \<longleftrightarrow> (foreign_script env \<longrightarrow> generated env (pg_db t) = generated env (pg_db s))"

interpretation generated: session_relation "generated_kept env" env for env
proof unfold_locales
  show "generated_kept env s (s\<lparr>pg_db := cancel_rows ids (pg_db s)\<rparr>)" for s :: "'a pg_scheme" and ids
  proof -
    have "row_id ` set (db_appointments (cancel_rows ids (pg_db s))) = row_id ` set (db_appointments (pg_db s))"
      using cancelled_ids [OF cancel_rows_rel] by (metis list.set_map)
    then show ?thesis by (simp add: generated_kept_def generated_def)
  qed
  show "generated_kept env s (admit_row w s)" if "w \<in> set (ev_rows (pe_script env n))"
    for w n and s :: "'a pg_scheme"
  proof -
    obtain r l where w: "w = (r, l)" by fastforce
    have "range (pe_uuid env) \<inter> insert (row_id r) A = range (pe_uuid env) \<inter> A" if "foreign_script env" for A
    proof -
      have "row_id (fst w) \<notin> range (pe_uuid env)"
        using that \<open>w \<in> set (ev_rows (pe_script env n))\<close> unfolding foreign_script_def by blast
      then show ?thesis by (simp add: w)
    qed
    then show ?thesis by (simp add: generated_kept_def generated_def admit_row_def add_row_def w)
  qed
qed (auto simp: generated_kept_def generated_def admit_key_def set_key_def split: prod.splits)

end
