(* ===== verification/Postgres.thy ===== *)
theory Postgres
  imports Session
begin

text \<open>
  \<^verbatim>\<open>internal/repository/postgres/repository.go\<close> and \<^verbatim>\<open>booking_tx.go\<close>: the implementation of the
  ports over a session. Each function runs the statements of its source in order and maps their
  failures as the source does. An error a driver reports only when the rows have been read is
  modelled where the query is issued. Tracing spans are left out.
\<close>

section \<open>Reading rows\<close>

text \<open>
  \<^verbatim>\<open>loadLocation\<close> with its process-wide cache, and the function it computes as long as the cache
  was filled by it.
\<close>

definition loadLocation ::
  "(string \<Rightarrow> location option) \<Rightarrow> string \<Rightarrow> (string \<rightharpoonup> location) \<Rightarrow> location option \<times> (string \<rightharpoonup> location)" where
  "loadLocation load name cache =
     (case cache name of
        Some loc \<Rightarrow> (Some loc, cache)
      | None \<Rightarrow> (case load name of None \<Rightarrow> (None, cache) | Some loc \<Rightarrow> (Some loc, cache(name \<mapsto> loc))))"

definition cache_ok :: "(string \<Rightarrow> location option) \<Rightarrow> (string \<rightharpoonup> location) \<Rightarrow> bool" where
  "cache_ok load cache \<longleftrightarrow> (\<forall>name loc. cache name = Some loc \<longrightarrow> load name = Some loc)"

lemma loadLocation_cached:
  "cache_ok load cache \<Longrightarrow>
     fst (loadLocation load name cache) = load name \<and> cache_ok load (snd (loadLocation load name cache))"
  by (auto simp: loadLocation_def cache_ok_def split: option.splits)

definition scanned_time :: "pg_env \<Rightarrow> int \<Rightarrow> gtime" where
  "scanned_time env ns = \<lparr>t_ns = ns, t_loc = pe_local env\<rparr>"

definition timestamptz :: "pg_env \<Rightarrow> gtime \<Rightarrow> int" where
  "timestamptz env t = pe_ts env (t_ns t)"

definition catalogue_duration :: "int \<Rightarrow> duration" where
  "catalogue_duration minutes = wrap64 (minutes * minute)"

text \<open>A \<^verbatim>\<open>pgtype.Time\<close> holds microseconds since midnight; the code keeps whole minutes.\<close>

definition minutes_of_time :: "int \<Rightarrow> int" where
  "minutes_of_time us = trunc_div us 60000000"

fun scan_hours :: "business_hours \<Rightarrow> hours_row list \<Rightarrow> business_hours" where
  "scan_hours hs [] = hs"
| "scan_hours hs (r # rs) = scan_hours
     (hs(hor_weekday r \<mapsto> \<lparr>OpensAt = minutes_of_time (hor_opens_at r),
                            ClosesAt = minutes_of_time (hor_closes_at r)\<rparr>)) rs"

definition select_by_uuid :: "pg_env \<Rightarrow> ('r \<Rightarrow> string) \<Rightarrow> string \<Rightarrow> 'r list \<Rightarrow> 'r option" where
  "select_by_uuid env column param rows = List.find (\<lambda>r. column r = uuid_arg env param) rows"

section \<open>Lookups\<close>

definition dealership :: "pg_env \<Rightarrow> string \<Rightarrow> 'm pg_scheme \<Rightarrow> (go_error + dealership) \<times> 'm pg_scheme" where
  "dealership env ident s =
     (if \<not> is_uuid ident then (Inl (EDomain (NotFound ''dealership'' ident)), s)
      else
     (case query env [ident] (\<lambda>d. select_by_uuid env dlr_id ident (db_dealerships d)) s of
        (Inl err, s1) \<Rightarrow> (Inl (EWrap ''select dealership'' err), s1)
      | (Inr None, s1) \<Rightarrow> (Inl (EDomain (NotFound ''dealership'' ident)), s1)
      | (Inr (Some row), s1) \<Rightarrow>
     (case pe_load_location env (dlr_timezone row) of
        None \<Rightarrow> (Inl (EWrap (''dealership '' @ ident @ '' has invalid timezone '' @ go_quote (dlr_timezone row))
                       (EText ''unknown time zone'')), s1)
      | Some loc \<Rightarrow>
     (case query env [ident] (\<lambda>d. filter (\<lambda>h. hor_dealership h = uuid_arg env ident) (db_hours d)) s1 of
        (Inl err, s2) \<Rightarrow> (Inl (EWrap ''select business hours'' err), s2)
      | (Inr rows, s2) \<Rightarrow>
          (Inr \<lparr>dl_ID = dlr_id row, dl_Name = dlr_name row, dl_Location = loc,
                dl_Hours = scan_hours Map.empty rows\<rparr>, s2)))))"

definition service_type_of_row :: "service_type_row \<Rightarrow> service_type" where
  "service_type_of_row r =
     \<lparr>st_ID = svr_id r, st_Name = svr_name r, st_Duration = catalogue_duration (svr_duration_minutes r),
      st_RequiredSkillID = svr_required_skill_id r, st_RequiredBayType = svr_required_bay_type r\<rparr>"

definition serviceType :: "pg_env \<Rightarrow> string \<Rightarrow> 'm pg_scheme \<Rightarrow> (go_error + service_type) \<times> 'm pg_scheme" where
  "serviceType env ident s =
     (if \<not> is_uuid ident then (Inl (EDomain (NotFound ''service type'' ident)), s)
      else
     (case query env [ident] (\<lambda>d. select_by_uuid env svr_id ident (db_service_types d)) s of
        (Inl err, s1) \<Rightarrow> (Inl (EWrap ''select service type'' err), s1)
      | (Inr None, s1) \<Rightarrow> (Inl (EDomain (NotFound ''service type'' ident)), s1)
      | (Inr (Some row), s1) \<Rightarrow> (Inr (service_type_of_row row), s1)))"

definition vehicle_of_row :: "vehicle_row \<Rightarrow> vehicle" where
  "vehicle_of_row r =
     \<lparr>ve_ID = ver_id r, ve_DealershipID = ver_dealership r, ve_CustomerID = ver_customer r,
      ve_VIN = ver_vin r, ve_Model = ver_model r\<rparr>"

definition customer_of_row :: "customer_row \<Rightarrow> customer" where
  "customer_of_row r = \<lparr>cu_ID = cur_id r, cu_Name = cur_name r\<rparr>"

definition vehicle_with_owner :: "pg_env \<Rightarrow> string \<Rightarrow> string \<Rightarrow> db \<Rightarrow> (vehicle \<times> customer) option" where
  "vehicle_with_owner env dealershipID vehicleID d =
     (case List.find (\<lambda>v. ver_id v = uuid_arg env vehicleID \<and> ver_dealership v = uuid_arg env dealershipID)
             (db_vehicles d) of
        None \<Rightarrow> None
      | Some v \<Rightarrow> (case List.find (\<lambda>c. cur_id c = ver_customer v) (db_customers d) of
                     None \<Rightarrow> None
                   | Some c \<Rightarrow> Some (vehicle_of_row v, customer_of_row c)))"

definition vehicleWithOwner ::
  "pg_env \<Rightarrow> string \<Rightarrow> string \<Rightarrow> 'm pg_scheme \<Rightarrow> (go_error + vehicle \<times> customer) \<times> 'm pg_scheme" where
  "vehicleWithOwner env dealershipID vehicleID s =
     (if \<not> is_uuid dealershipID \<or> \<not> is_uuid vehicleID
      then (Inl (EDomain (NotFound ''vehicle'' vehicleID)), s)
      else
     (case query env [vehicleID, dealershipID] (vehicle_with_owner env dealershipID vehicleID) s of
        (Inl err, s1) \<Rightarrow> (Inl (EWrap ''select vehicle'' err), s1)
      | (Inr None, s1) \<Rightarrow> (Inl (EDomain (NotFound ''vehicle'' vehicleID)), s1)
      | (Inr (Some vc), s1) \<Rightarrow> (Inr vc, s1)))"

text \<open>The seven-way join of \<^verbatim>\<open>appointment\<close>, and the entity built from it with the zone of the dealership.\<close>

definition join_appointment ::
  "db \<Rightarrow> appointment_row \<Rightarrow> (dealership_row \<times> customer_row \<times> vehicle_row \<times> service_type_row
     \<times> technician_row \<times> bay_row) option" where
  "join_appointment d r =
     (case (List.find (\<lambda>x. dlr_id x = row_dealership r) (db_dealerships d),
            List.find (\<lambda>x. cur_id x = row_customer r) (db_customers d),
            List.find (\<lambda>x. ver_id x = row_vehicle r) (db_vehicles d),
            List.find (\<lambda>x. svr_id x = row_service_type r) (db_service_types d),
            List.find (\<lambda>x. ter_id x = row_technician r) (db_technicians d),
            List.find (\<lambda>x. bar_id x = row_bay r) (db_bays d)) of
        (Some dl, Some c, Some v, Some st, Some t, Some b) \<Rightarrow> Some (dl, c, v, st, t, b)
      | _ \<Rightarrow> None)"

definition bay_of_row :: "bay_row \<Rightarrow> bay" where
  "bay_of_row r = \<lparr>bay_ID = bar_id r, bay_Name = bar_name r, bay_Type = bar_type r\<rparr>"

definition appointment_of_row ::
  "pg_env \<Rightarrow> location \<Rightarrow> appointment_row \<Rightarrow> customer_row \<Rightarrow> vehicle_row \<Rightarrow> service_type_row
     \<Rightarrow> technician_row \<Rightarrow> bay_row \<Rightarrow> appointment" where
  "appointment_of_row env loc r c v st t b =
     \<lparr>ap_ID = row_id r, ap_DealershipID = row_dealership r, ap_Status = row_status r,
      ap_Interval = \<lparr>iv_start = in_loc (scanned_time env (row_start r)) loc,
                     iv_end = in_loc (scanned_time env (row_end r)) loc\<rparr>,
      ap_Customer = customer_of_row c, ap_Vehicle = vehicle_of_row v,
      ap_ServiceType = service_type_of_row st,
      ap_Technician = \<lparr>tech_ID = ter_id t, tech_Name = ter_name t, tech_SkillIDs = []\<rparr>,
      ap_Bay = bay_of_row b, ap_CreatedAt = in_loc (scanned_time env (row_created r)) loc\<rparr>"

definition select_appointment where
  "select_appointment env ident d =
     (case select_by_uuid env row_id ident (db_appointments d) of
        None \<Rightarrow> None
      | Some r \<Rightarrow> (case join_appointment d r of None \<Rightarrow> None | Some j \<Rightarrow> Some (r, j)))"

definition appointment :: "pg_env \<Rightarrow> string \<Rightarrow> 'm pg_scheme \<Rightarrow> (go_error + appointment) \<times> 'm pg_scheme" where
  "appointment env ident s =
     (if \<not> is_uuid ident then (Inl (EDomain (NotFound ''appointment'' ident)), s)
      else
     (case query env [ident] (select_appointment env ident) s of
        (Inl err, s1) \<Rightarrow> (Inl (EWrap ''select appointment'' err), s1)
      | (Inr None, s1) \<Rightarrow> (Inl (EDomain (NotFound ''appointment'' ident)), s1)
      | (Inr (Some (r, dl, c, v, st, t, b)), s1) \<Rightarrow>
     (case pe_load_location env (dlr_timezone dl) of
        None \<Rightarrow> (Inl (EWrap (''appointment '' @ ident @ '': invalid dealership timezone '' @ go_quote (dlr_timezone dl))
                       (EText ''unknown time zone'')), s1)
      | Some loc \<Rightarrow> (Inr (appointment_of_row env loc r c v st t b), s1))))"

section \<open>The schedule of a day\<close>

text \<open>Technicians with the sorted identifiers of their skills, and bays, each by identifier.\<close>

definition select_technicians :: "pg_env \<Rightarrow> string \<Rightarrow> db \<Rightarrow> technician list" where
  "select_technicians env dealershipID d =
     map (\<lambda>t. \<lparr>tech_ID = ter_id t, tech_Name = ter_name t,
               tech_SkillIDs = sort (map snd (filter (\<lambda>p. fst p = ter_id t) (db_technician_skills d)))\<rparr>)
       (sort_key ter_id (filter (\<lambda>t. ter_dealership t = uuid_arg env dealershipID) (db_technicians d)))"

definition select_bays :: "pg_env \<Rightarrow> string \<Rightarrow> db \<Rightarrow> bay list" where
  "select_bays env dealershipID d =
     map bay_of_row (sort_key bar_id (filter (\<lambda>b. bar_dealership b = uuid_arg env dealershipID) (db_bays d)))"

definition select_day :: "pg_env \<Rightarrow> schedule_query \<Rightarrow> db \<Rightarrow> appointment_row list" where
  "select_day env q d =
     filter (\<lambda>r. row_dealership r = uuid_arg env (sq_DealershipID q) \<and> row_status r = StatusConfirmed \<and>
                 timestamptz env (iv_start (sq_Day q)) \<le> row_start r \<and>
                 row_start r < timestamptz env (iv_end (sq_Day q)))
       (db_appointments d)"

fun scan_technicians ::
  "technician list \<Rightarrow> (string \<rightharpoonup> nat) \<Rightarrow> technician_schedule list \<Rightarrow> (string \<rightharpoonup> nat) \<times> technician_schedule list" where
  "scan_technicians [] idx acc = (idx, acc)"
| "scan_technicians (t # ts) idx acc =
     scan_technicians ts (idx(tech_ID t \<mapsto> length acc)) (acc @ [\<lparr>ts_Technician = t, ts_Booked = []\<rparr>])"

fun scan_bays ::
  "bay list \<Rightarrow> (string \<rightharpoonup> nat) \<Rightarrow> bay_schedule list \<Rightarrow> (string \<rightharpoonup> nat) \<times> bay_schedule list" where
  "scan_bays [] idx acc = (idx, acc)"
| "scan_bays (b # bs) idx acc =
     scan_bays bs (idx(bay_ID b \<mapsto> length acc)) (acc @ [\<lparr>bs_Bay = b, bs_Booked = []\<rparr>])"

definition row_interval :: "pg_env \<Rightarrow> appointment_row \<Rightarrow> interval" where
  "row_interval env r = \<lparr>iv_start = scanned_time env (row_start r), iv_end = scanned_time env (row_end r)\<rparr>"

definition book_at :: "(string \<rightharpoonup> nat) \<Rightarrow> string \<Rightarrow> ('e \<Rightarrow> 'e) \<Rightarrow> 'e list \<Rightarrow> 'e list" where
  "book_at idx ident f es = (case idx ident of None \<Rightarrow> es | Some i \<Rightarrow> es[i := f (es ! i)])"

fun scan_appointments ::
  "pg_env \<Rightarrow> string \<Rightarrow> (string \<rightharpoonup> nat) \<Rightarrow> (string \<rightharpoonup> nat) \<Rightarrow> appointment_row list \<Rightarrow> day_schedule \<Rightarrow> day_schedule" where
  "scan_appointments env vehicleID ti bi [] s = s"
| "scan_appointments env vehicleID ti bi (r # rs) s =
     (let iv = row_interval env r in
      scan_appointments env vehicleID ti bi rs
        \<lparr>Technicians = book_at ti (row_technician r) (\<lambda>t. t\<lparr>ts_Booked := ts_Booked t @ [iv]\<rparr>) (Technicians s),
         Bays = book_at bi (row_bay r) (\<lambda>b. b\<lparr>bs_Booked := bs_Booked b @ [iv]\<rparr>) (Bays s),
         VehicleBooked = (if vehicleID \<noteq> [] \<and> row_vehicle r = vehicleID
                          then VehicleBooked s @ [iv] else VehicleBooked s)\<rparr>)"

definition daySchedule ::
  "pg_env \<Rightarrow> schedule_query \<Rightarrow> 'm pg_scheme \<Rightarrow> (go_error + day_schedule) \<times> 'm pg_scheme" where
  "daySchedule env q s =
     (if \<not> is_uuid (sq_DealershipID q) then (Inl (EDomain (NotFound ''dealership'' (sq_DealershipID q))), s)
      else
     (case query env [sq_DealershipID q] (select_technicians env (sq_DealershipID q)) s of
        (Inl err, s1) \<Rightarrow> (Inl (EWrap ''select technicians'' err), s1)
      | (Inr techs, s1) \<Rightarrow>
     (case query env [sq_DealershipID q] (select_bays env (sq_DealershipID q)) s1 of
        (Inl err, s2) \<Rightarrow> (Inl (EWrap ''select bays'' err), s2)
      | (Inr bays, s2) \<Rightarrow>
     (case query env [sq_DealershipID q] (select_day env q) s2 of
        (Inl err, s3) \<Rightarrow> (Inl (EWrap ''select day appointments'' err), s3)
      | (Inr rows, s3) \<Rightarrow>
          let (techIdx, ts) = scan_technicians techs Map.empty [];
              (bayIdx, bs) = scan_bays bays Map.empty [] in
          (Inr (scan_appointments env (sq_VehicleID q) techIdx bayIdx rows
                  \<lparr>Technicians = ts, Bays = bs, VehicleBooked = []\<rparr>), s3)))))"

section \<open>The booking transaction\<close>

definition mapInsertError :: "go_error \<Rightarrow> go_error" where
  "mapInsertError err =
     (case AsPgError err of
        None \<Rightarrow> EWrap ''insert appointment'' err
      | Some e \<Rightarrow>
          if pg_Code e = ''40P01'' then EWrap2 ELostRace (EDomain Contention) ('' ('' @ pg_Code e @ '')'')
          else if pg_Code e = ''23503''
          then EWrap (''insert appointment: database rejected an invariant violation ('' @ pg_ConstraintName e @ '')'') err
          else if pg_Code e \<noteq> ''23P01'' then EWrap ''insert appointment'' err
          else if pg_ConstraintName e = ConstraintBayOverlap
          then EWrap2 ELostRace (EDomain \<lparr>err_Code = CodeNoAvailableResource,
                 err_Message = ''bay was booked concurrently'', err_Conflicting = [ResourceBay]\<rparr>) []
          else if pg_ConstraintName e = ConstraintTechnicianOverlap
          then EWrap2 ELostRace (EDomain \<lparr>err_Code = CodeNoAvailableResource,
                 err_Message = ''technician was booked concurrently'', err_Conflicting = [ResourceTechnician]\<rparr>) []
          else if pg_ConstraintName e = ConstraintVehicleOverlap
          then EWrap2 ELostRace (EDomain (NewError CodeVehicleAlreadyBooked ''vehicle was booked concurrently'')) []
          else EWrap (''insert appointment: unexpected exclusion constraint '' @ go_quote (pg_ConstraintName e)) err)"

definition new_row :: "pg_env \<Rightarrow> new_appointment \<Rightarrow> nat \<Rightarrow> appointment_row" where
  "new_row env na n =
     \<lparr>row_id = pe_uuid env n, row_dealership = uuid_arg env (na_DealershipID na),
      row_vehicle = uuid_arg env (na_VehicleID na), row_customer = uuid_arg env (na_CustomerID na),
      row_service_type = uuid_arg env (na_ServiceTypeID na), row_skill = uuid_arg env (na_RequiredSkillID na),
      row_bay_type = na_RequiredBayType na, row_technician = uuid_arg env (na_TechnicianID na),
      row_bay = uuid_arg env (na_BayID na), row_start = timestamptz env (iv_start (na_Interval na)),
      row_end = timestamptz env (iv_end (na_Interval na)), row_status = StatusConfirmed,
      row_created = pe_clock env n\<rparr>"

definition rollback_savepoint :: "pg_env \<Rightarrow> 'm pg_scheme \<Rightarrow> 'm pg_scheme" where
  "rollback_savepoint env s =
     (let s1 = arrive env s in
      if ev_fail (pe_script env (pg_tick s)) = None then s1\<lparr>pg_aborted := False\<rparr> else s1)"

definition InsertAppointment ::
  "pg_env \<Rightarrow> new_appointment \<Rightarrow> 'm pg_scheme \<Rightarrow> (go_error + appointment) \<times> 'm pg_scheme" where
  "InsertAppointment env na s =
     (case statement env [] (\<lambda>s. (Inr (), s)) s of
        (Inl err, s1) \<Rightarrow> (Inl (EWrap ''savepoint'' err), s1)
      | (Inr _, s1) \<Rightarrow>
     (case statement env [na_DealershipID na, na_VehicleID na, na_CustomerID na, na_ServiceTypeID na,
                          na_RequiredSkillID na, na_TechnicianID na, na_BayID na]
             (\<lambda>s. insert_row (new_row env na (pg_tick s1)) s) s1 of
        (Inl err, s2) \<Rightarrow> (Inl (mapInsertError err), rollback_savepoint env s2)
      | (Inr ident, s2) \<Rightarrow>
     (case statement env [] (\<lambda>s. (Inr (), s)) s2 of
        (Inl err, s3) \<Rightarrow> (Inl (EWrap ''release savepoint'' err), s3)
      | (Inr _, s3) \<Rightarrow> appointment env ident s3)))"

definition LockIdempotencyKey ::
  "pg_env \<Rightarrow> string \<Rightarrow> string \<Rightarrow> 'm pg_scheme \<Rightarrow> go_error option \<times> 'm pg_scheme" where
  "LockIdempotencyKey env dealershipID key s =
     (case statement env [] (advisory_lock (pe_hash env dealershipID, pe_hash env key)) s of
        (Inl err, s1) \<Rightarrow> (Some (EWrap ''lock idempotency key'' err), s1)
      | (Inr _, s1) \<Rightarrow> (None, s1))"

definition LockSchedulingDay ::
  "pg_env \<Rightarrow> string \<Rightarrow> date \<Rightarrow> 'm pg_scheme \<Rightarrow> go_error option \<times> 'm pg_scheme" where
  "LockSchedulingDay env dealershipID day s =
     (case statement env [] (advisory_lock (pe_hash env dealershipID, pe_hash env (''day:'' @ date_text day))) s of
        (Inl err, s1) \<Rightarrow> (Some (EWrap ''lock scheduling day'' err), s1)
      | (Inr _, s1) \<Rightarrow> (None, s1))"

definition select_key :: "pg_env \<Rightarrow> string \<Rightarrow> string \<Rightarrow> gtime \<Rightarrow> db \<Rightarrow> key_row option" where
  "select_key env dealershipID key now d =
     (case db_keys d (uuid_arg env dealershipID, uuid_arg env key) of
        Some v \<Rightarrow> if timestamptz env now < kr_expires v then Some v else None
      | None \<Rightarrow> None)"

definition record_of_row :: "pg_env \<Rightarrow> string \<Rightarrow> string \<Rightarrow> key_row \<Rightarrow> idempotency_record" where
  "record_of_row env dealershipID key v =
     \<lparr>ir_DealershipID = dealershipID, ir_Key = key, ir_Fingerprint = kr_fingerprint v,
      ir_AppointmentID = (case kr_appointment v of Some i \<Rightarrow> i | None \<Rightarrow> []),
      ir_ErrorCode = (case kr_error v of Some c \<Rightarrow> code_of_text c | None \<Rightarrow> no_code),
      ir_Conflicting = map resource_of_text (kr_conflicting v),
      ir_ExpiresAt = scanned_time env (kr_expires v)\<rparr>"

definition FindIdempotencyRecord ::
  "pg_env \<Rightarrow> string \<Rightarrow> string \<Rightarrow> gtime \<Rightarrow> 'm pg_scheme
     \<Rightarrow> (go_error + idempotency_record option) \<times> 'm pg_scheme" where
  "FindIdempotencyRecord env dealershipID key now s =
     (case query env [dealershipID, key] (select_key env dealershipID key now) s of
        (Inl err, s1) \<Rightarrow> (Inl (EWrap ''select idempotency key'' err), s1)
      | (Inr None, s1) \<Rightarrow> (Inr None, s1)
      | (Inr (Some v), s1) \<Rightarrow> (Inr (Some (record_of_row env dealershipID key v)), s1))"

definition row_of_record :: "pg_env \<Rightarrow> idempotency_record \<Rightarrow> key_row" where
  "row_of_record env rec =
     \<lparr>kr_fingerprint = ir_Fingerprint rec,
      kr_outcome = (if ir_AppointmentID rec \<noteq> [] then ''CREATED'' else ''REJECTED''),
      kr_appointment = (if ir_AppointmentID rec \<noteq> [] then Some (uuid_arg env (ir_AppointmentID rec)) else None),
      kr_error = (if ir_AppointmentID rec \<noteq> [] then None else Some (code_text (ir_ErrorCode rec))),
      kr_conflicting = (if ir_AppointmentID rec \<noteq> [] then [] else map resource_text (ir_Conflicting rec)),
      kr_created = timestamptz env (add_duration (ir_ExpiresAt rec) (- IdempotencyRetention)),
      kr_expires = timestamptz env (ir_ExpiresAt rec)\<rparr>"

definition SaveIdempotencyRecord ::
  "pg_env \<Rightarrow> idempotency_record \<Rightarrow> 'm pg_scheme \<Rightarrow> go_error option \<times> 'm pg_scheme" where
  "SaveIdempotencyRecord env rec s =
     (case statement env ([ir_DealershipID rec, ir_Key rec]
                          @ (if ir_AppointmentID rec \<noteq> [] then [ir_AppointmentID rec] else []))
             (upsert_key (uuid_arg env (ir_DealershipID rec), uuid_arg env (ir_Key rec)) (row_of_record env rec)) s of
        (Inl err, s1) \<Rightarrow> (Some (EWrap ''save idempotency key'' err), s1)
      | (Inr _, s1) \<Rightarrow> (None, s1))"

definition bookingTx :: "pg_env \<Rightarrow> 'm pg_scheme booking_tx" where
  "bookingTx env =
     \<lparr>tx_DaySchedule = daySchedule env, tx_InsertAppointment = InsertAppointment env,
      tx_Appointment = appointment env, tx_LockIdempotencyKey = LockIdempotencyKey env,
      tx_LockSchedulingDay = LockSchedulingDay env, tx_FindIdempotencyRecord = FindIdempotencyRecord env,
      tx_SaveIdempotencyRecord = SaveIdempotencyRecord env\<rparr>"

text \<open>
  \<^verbatim>\<open>InTx\<close> over \<^verbatim>\<open>pgx.BeginFunc\<close>: begin, run the function, roll back when it returns an error,
  commit otherwise.
\<close>

definition InTx ::
  "pg_env \<Rightarrow> 'm pg_scheme tx_body \<Rightarrow> 'm pg_scheme \<Rightarrow> (go_error option \<times> booking_vars) \<times> 'm pg_scheme" where
  "InTx env body s =
     (case statement env [] (\<lambda>s. (Inr (), open_tx s)) s of
        (Inl err, s1) \<Rightarrow> ((Some err, zero_appointment, None), s1)
      | (Inr _, s1) \<Rightarrow>
          (case body (bookingTx env) s1 of
             ((Some err, vars), s2) \<Rightarrow> ((Some err, vars), close_tx s2)
           | ((None, vars), s2) \<Rightarrow>
               (case commit_tx env s2 of (r, s3) \<Rightarrow> ((r, vars), s3))))"

definition Repository :: "pg_env \<Rightarrow> 'm pg_scheme repository" where
  "Repository env =
     \<lparr>repo_Dealership = dealership env, repo_ServiceType = serviceType env,
      repo_VehicleWithOwner = vehicleWithOwner env, repo_Appointment = appointment env,
      repo_DaySchedule = daySchedule env, repo_InTx = InTx env\<rparr>"

section \<open>Every operation is a sequence of session steps\<close>

lemma admit_sel [simp]:
  "pg_tick (admit_row w s) = pg_tick s" "pg_own_rows (admit_row w s) = pg_own_rows s"
  "pg_own_keys (admit_row w s) = pg_own_keys s" "pg_locks (admit_row w s) = pg_locks s"
  "pg_open (admit_row w s) = pg_open s" "pg_aborted (admit_row w s) = pg_aborted s"
  "pg_tick (admit_key env kw s) = pg_tick s" "pg_own_rows (admit_key env kw s) = pg_own_rows s"
  "pg_own_keys (admit_key env kw s) = pg_own_keys s" "pg_locks (admit_key env kw s) = pg_locks s"
  "pg_open (admit_key env kw s) = pg_open s" "pg_aborted (admit_key env kw s) = pg_aborted s"
  by (auto simp: admit_row_def admit_key_def split: prod.splits)

lemma fold_admit_sel [simp]:
  "pg_tick (fold admit_row ws s) = pg_tick s" "pg_own_rows (fold admit_row ws s) = pg_own_rows s"
  "pg_own_keys (fold admit_row ws s) = pg_own_keys s" "pg_locks (fold admit_row ws s) = pg_locks s"
  "pg_open (fold admit_row ws s) = pg_open s" "pg_aborted (fold admit_row ws s) = pg_aborted s"
  by (induction ws arbitrary: s) simp_all

lemma fold_admit_key_sel [simp]:
  "pg_own_rows (fold (admit_key env) ws s) = pg_own_rows s"
  "pg_own_keys (fold (admit_key env) ws s) = pg_own_keys s"
  "pg_locks (fold (admit_key env) ws s) = pg_locks s"
  "pg_open (fold (admit_key env) ws s) = pg_open s"
  "pg_aborted (fold (admit_key env) ws s) = pg_aborted s"
  by (induction ws arbitrary: s) simp_all

lemma arrive_sel [simp]:
  "pg_tick (arrive env s) = Suc (pg_tick s)" "pg_own_rows (arrive env s) = pg_own_rows s"
  "pg_own_keys (arrive env s) = pg_own_keys s" "pg_locks (arrive env s) = pg_locks s"
  "pg_open (arrive env s) = pg_open s" "pg_aborted (arrive env s) = pg_aborted s"
  by (simp_all add: arrive_def Let_def)

lemma tx_steps_arrive: "tx_steps env s (arrive env s)"
  by (intro r_into_rtranclp tx_step.arrive)

lemma tx_steps_abort: "tx_steps env s (s\<lparr>pg_aborted := b\<rparr>)"
  by (intro r_into_rtranclp tx_step.abort)

lemma statement_steps:
  assumes "\<And>u. pg_tick u = Suc (pg_tick s) \<Longrightarrow> tx_steps env u (snd (run u))"
  shows "tx_steps env s (snd (statement env us run s))"
proof -
  note a = tx_steps_arrive [of env s]
  have "tx_steps env s (snd (run (arrive env s)))"
    using rtranclp_trans [OF a] assms [of "arrive env s"] by simp
  moreover have "tx_steps env s ((arrive env s)\<lparr>pg_aborted := b\<rparr>)" for b
    by (rule rtranclp_trans [OF a tx_steps_abort])
  ultimately show ?thesis
    using a by (simp add: statement_def Let_def split: option.splits)
qed

lemma query_steps: "tx_steps env s (snd (query env us f s))"
  unfolding query_def by (rule statement_steps) simp

lemma skip_steps: "tx_steps env s (snd (statement env us (\<lambda>s. (Inr (), s)) s))"
  by (rule statement_steps) simp

lemma insert_row_steps:
  "pg_tick u = Suc n \<Longrightarrow> row_id r = pe_uuid env n \<Longrightarrow> tx_steps env u (snd (insert_row r u))"
  by (auto simp: insert_row_def split: option.splits intro: tx_steps_abort r_into_rtranclp tx_step.insert)

lemma upsert_key_steps: "tx_steps env u (snd (upsert_key k v u))"
  by (auto simp: upsert_key_def split: option.splits intro: tx_steps_abort r_into_rtranclp tx_step.save)

lemma advisory_lock_steps: "tx_steps env u (snd (advisory_lock p u))"
  by (auto simp: advisory_lock_def intro: r_into_rtranclp tx_step.lock)

text \<open>One more statement after the steps so far.\<close>

lemma then_query: "tx_steps env s t \<Longrightarrow> query env us f t = (x, u) \<Longrightarrow> tx_steps env s u"
  using query_steps [of env t us f] by (auto intro: rtranclp_trans)

lemma first_query: "query env us f s = (x, u) \<Longrightarrow> tx_steps env s u"
  by (rule then_query) simp_all

lemmas query_chain = first_query then_query [OF first_query] then_query [OF then_query [OF first_query]]

lemma dealership_steps: "tx_steps env s (snd (dealership env i s))"
  by (auto simp: dealership_def split: prod.splits sum.splits option.splits intro: query_chain)

lemma serviceType_steps: "tx_steps env s (snd (serviceType env i s))"
  by (auto simp: serviceType_def split: prod.splits sum.splits option.splits intro: query_chain)

lemma vehicleWithOwner_steps: "tx_steps env s (snd (vehicleWithOwner env i j s))"
  by (auto simp: vehicleWithOwner_def split: prod.splits sum.splits option.splits intro: query_chain)

lemma appointment_steps: "tx_steps env s (snd (appointment env i s))"
  by (auto simp: appointment_def split: prod.splits sum.splits option.splits intro: query_chain)

lemma daySchedule_steps: "tx_steps env s (snd (daySchedule env q s))"
  by (auto simp: daySchedule_def Let_def split: prod.splits sum.splits intro: query_chain)

lemma rollback_savepoint_steps: "tx_steps env s (rollback_savepoint env s)"
  using rtranclp_trans [OF tx_steps_arrive tx_steps_abort]
  by (auto simp: rollback_savepoint_def Let_def intro: tx_steps_arrive)

lemma InsertAppointment_steps: "tx_steps env s (snd (InsertAppointment env na s))"
proof -
  obtain r1 s1 where 1: "statement env [] (\<lambda>s. (Inr (), s)) s = (r1, s1)" by fastforce
  define us where "us = [na_DealershipID na, na_VehicleID na, na_CustomerID na, na_ServiceTypeID na,
                          na_RequiredSkillID na, na_TechnicianID na, na_BayID na]"
  obtain r2 s2 where 2: "statement env us (\<lambda>s. insert_row (new_row env na (pg_tick s1)) s) s1 = (r2, s2)"
    by fastforce
  obtain r3 s3 where 3: "statement env [] (\<lambda>s. (Inr (), s)) s2 = (r3, s3)" by fastforce
  have a: "tx_steps env s s1" using skip_steps [of env s "[]"] 1 by simp
  have "tx_steps env s1 (snd (statement env us (\<lambda>s. insert_row (new_row env na (pg_tick s1)) s) s1))"
    by (rule statement_steps) (auto intro!: insert_row_steps simp: new_row_def)
  then have b: "tx_steps env s s2" using rtranclp_trans [OF a] 2 by simp
  have c: "tx_steps env s s3" using rtranclp_trans [OF b] skip_steps [of env s2 "[]"] 3 by simp
  show ?thesis
    using a b c rtranclp_trans [OF b rollback_savepoint_steps] rtranclp_trans [OF c appointment_steps]
    by (simp add: InsertAppointment_def 1 2 [unfolded us_def] 3 split: sum.splits)
qed

lemma statement_then_steps:
  assumes "statement env us run s = (x, t)" "\<And>u. tx_steps env u (snd (run u))"
  shows "tx_steps env s t"
  using statement_steps [of s env run us] assms by simp

interpretation session: transaction_steps "tx_steps env" "bookingTx env" for env
proof unfold_locales
  show "tx_steps env s t \<Longrightarrow> tx_steps env t u \<Longrightarrow> tx_steps env s u" for s t u :: "'a pg_scheme"
    by (rule rtranclp_trans)
qed (auto simp: bookingTx_def daySchedule_steps InsertAppointment_steps appointment_steps
    LockIdempotencyKey_def LockSchedulingDay_def FindIdempotencyRecord_def SaveIdempotencyRecord_def
    split: prod.splits sum.splits option.splits
    intro: query_chain statement_then_steps advisory_lock_steps upsert_key_steps)

section \<open>Properties\<close>

text \<open>C40: the duration of a service type read from the catalogue is its minutes exactly as long as they are at
  most 153722867; the product of the next value leaves \<^verbatim>\<open>int64\<close>, wraps around to a negative duration
  and no slot of that service is ever offered.\<close>

theorem catalogue_duration_exact:
  assumes "0 < svr_duration_minutes r"
  shows "(st_Duration (service_type_of_row r) = svr_duration_minutes r * minute \<longleftrightarrow> svr_duration_minutes r \<le> 153722867) \<and>
    (svr_duration_minutes r = 153722868 \<longrightarrow> st_Duration (service_type_of_row r) < 0 \<and>
      AvailableSlots w (service_type_of_row r) sched now g policy = [])"
proof -
  have d: "st_Duration (service_type_of_row r) = wrap64 (svr_duration_minutes r * 60000000000)"
    by (simp add: service_type_of_row_def catalogue_duration_def minute_def second_def)
  have "wrap64 (svr_duration_minutes r * 60000000000) = svr_duration_minutes r * 60000000000" if "svr_duration_minutes r \<le> 153722867"
    using that assms by (intro wrap64_id) (simp_all add: min_int64_def max_int64_def)
  moreover have "svr_duration_minutes r \<le> 153722867" if "wrap64 (svr_duration_minutes r * 60000000000) = svr_duration_minutes r * 60000000000"
    using that wrap64_bounds [of "svr_duration_minutes r * 60000000000"] by (simp add: max_int64_def)
  moreover have "wrap64 (153722868 * 60000000000) < 0" by code_simp
  ultimately show ?thesis
    unfolding d by (auto simp: minute_def second_def AvailableSlots_def d)
qed

theorem catalogue_duration_exact_witness:
  "st_Duration (service_type_of_row \<lparr>svr_id = [], svr_name = ''Overhaul'', svr_duration_minutes = 153722867,
      svr_required_skill_id = [], svr_required_bay_type = BayTypeGeneral\<rparr>) = 153722867 * minute"
  using catalogue_duration_exact [of "\<lparr>svr_id = [], svr_name = ''Overhaul'', svr_duration_minutes = 153722867,
      svr_required_skill_id = [], svr_required_bay_type = BayTypeGeneral\<rparr>"] by simp
end
