(* ===== verification/Booking.thy ===== *)
theory Booking
  imports Postgres
begin

text \<open>
  The scheduler over the PostgreSQL repository: what a booking leaves in the database, whatever
  other sessions do between its statements. The transaction of the repository is an instance of
  the interface \<open>booking_store\<close>; the facts proved for any store are instantiated here and joined
  with what begin, commit and rollback do.
\<close>

section \<open>The rows a transaction owns\<close>

lemma statement_own:
  assumes "\<And>u. pg_own_rows u = pg_own_rows s \<Longrightarrow> pg_own_rows (snd (run u)) = pg_own_rows s"
  shows "pg_own_rows (snd (statement env us run s)) = pg_own_rows s"
  using assms by (simp add: statement_def Let_def split: option.splits)

lemma query_own: "pg_own_rows (snd (query env us f s)) = pg_own_rows s"
  unfolding query_def by (rule statement_own) simp

lemma query_result_own: "query env us f s = (x, t) \<Longrightarrow> pg_own_rows t = pg_own_rows s"
  using query_own [of env us f s] by simp

lemma appointment_own: "pg_own_rows (snd (appointment env i s)) = pg_own_rows s"
  by (auto simp: appointment_def dest: query_result_own split: prod.splits sum.splits option.splits)

lemma daySchedule_own: "pg_own_rows (snd (daySchedule env q s)) = pg_own_rows s"
  by (auto simp: daySchedule_def Let_def dest!: query_result_own split: prod.splits sum.splits)

lemma statement_result_own:
  assumes "statement env us run s = (x, t)" "\<And>u. pg_own_rows (snd (run u)) = pg_own_rows u"
  shows "pg_own_rows t = pg_own_rows s"
  using statement_own [of s run env us] assms by simp

lemma run_own:
  "pg_own_rows (snd (advisory_lock p u)) = pg_own_rows u"
  "pg_own_rows (snd (upsert_key k v u)) = pg_own_rows u"
  by (simp_all add: advisory_lock_def upsert_key_def split: option.splits)

lemma rollback_savepoint_own: "pg_own_rows (rollback_savepoint env s) = pg_own_rows s"
  by (simp add: rollback_savepoint_def Let_def)

lemma LockIdempotencyKey_own: "pg_own_rows (snd (LockIdempotencyKey env d k s)) = pg_own_rows s"
  by (auto simp: LockIdempotencyKey_def run_own dest: statement_result_own split: prod.splits sum.splits)

lemma LockSchedulingDay_own: "pg_own_rows (snd (LockSchedulingDay env d dt s)) = pg_own_rows s"
  by (auto simp: LockSchedulingDay_def run_own dest: statement_result_own split: prod.splits sum.splits)

lemma FindIdempotencyRecord_own: "pg_own_rows (snd (FindIdempotencyRecord env d k now s)) = pg_own_rows s"
  by (auto simp: FindIdempotencyRecord_def dest: query_result_own split: prod.splits sum.splits option.splits)

lemma SaveIdempotencyRecord_own: "pg_own_rows (snd (SaveIdempotencyRecord env rec s)) = pg_own_rows s"
  by (auto simp: SaveIdempotencyRecord_def run_own dest: statement_result_own split: prod.splits sum.splits)

text \<open>And the keys it has written.\<close>

lemma statement_result_keys:
  assumes "statement env us run s = (x, t)" "\<And>u. pg_own_keys (snd (run u)) = pg_own_keys u"
  shows "pg_own_keys t = pg_own_keys s"
  using assms(1) assms(2) [of "arrive env s"] by (auto simp: statement_def Let_def split: if_splits option.splits)

lemma query_result_keys: "query env us f s = (x, t) \<Longrightarrow> pg_own_keys t = pg_own_keys s"
  unfolding query_def by (erule statement_result_keys) simp

lemma run_keys:
  "pg_own_keys (snd (advisory_lock p u)) = pg_own_keys u"
  "pg_own_keys (snd (insert_row r u)) = pg_own_keys u"
  by (simp_all add: advisory_lock_def insert_row_def split: option.splits)

lemma appointment_keys: "pg_own_keys (snd (appointment env i s)) = pg_own_keys s"
  by (auto simp: appointment_def dest: query_result_keys split: prod.splits sum.splits option.splits)

lemma daySchedule_keys: "pg_own_keys (snd (daySchedule env q s)) = pg_own_keys s"
  by (auto simp: daySchedule_def Let_def dest!: query_result_keys split: prod.splits sum.splits)

lemma LockIdempotencyKey_keys: "pg_own_keys (snd (LockIdempotencyKey env d k s)) = pg_own_keys s"
  by (auto simp: LockIdempotencyKey_def run_keys dest: statement_result_keys split: prod.splits sum.splits)

lemma LockSchedulingDay_keys: "pg_own_keys (snd (LockSchedulingDay env d dt s)) = pg_own_keys s"
  by (auto simp: LockSchedulingDay_def run_keys dest: statement_result_keys split: prod.splits sum.splits)

lemma FindIdempotencyRecord_keys: "pg_own_keys (snd (FindIdempotencyRecord env d k now s)) = pg_own_keys s"
  by (auto simp: FindIdempotencyRecord_def dest: query_result_keys split: prod.splits sum.splits option.splits)

lemma rollback_savepoint_keys: "pg_own_keys (rollback_savepoint env s) = pg_own_keys s"
  by (simp add: rollback_savepoint_def Let_def)

lemma InsertAppointment_keys: "pg_own_keys (snd (InsertAppointment env na s)) = pg_own_keys s"
  by (auto simp: InsertAppointment_def appointment_keys rollback_savepoint_keys run_keys
      dest!: statement_result_keys split: prod.splits sum.splits)

section \<open>Reading back a row\<close>

text \<open>What the appointment the code returns has in common with its row.\<close>

definition appointment_matches :: "appointment \<Rightarrow> appointment_row \<Rightarrow> bool" where
  "appointment_matches a r \<longleftrightarrow>
     ap_ID a = row_id r \<and> ap_DealershipID a = row_dealership r \<and> ap_Status a = row_status r \<and>
     t_ns (iv_start (ap_Interval a)) = row_start r \<and> t_ns (iv_end (ap_Interval a)) = row_end r \<and>
     cu_ID (ap_Customer a) = row_customer r \<and> ve_ID (ap_Vehicle a) = row_vehicle r \<and>
     st_ID (ap_ServiceType a) = row_service_type r \<and> tech_ID (ap_Technician a) = row_technician r \<and>
     bay_ID (ap_Bay a) = row_bay r"

lemma find_Some: "List.find P xs = Some x \<Longrightarrow> x \<in> set xs \<and> P x"
  by (induction xs) (auto split: if_splits)

lemma find_exists: "\<exists>x \<in> set xs. P x \<Longrightarrow> \<exists>x. List.find P xs = Some x"
  by (induction xs) auto

lemma find_unique:
  assumes "distinct (map f xs)" "x \<in> set xs" "f x = k"
  shows "List.find (\<lambda>y. f y = k) xs = Some x"
proof -
  have "\<exists>y \<in> set xs. f y = k" using assms by blast
  then obtain y where y: "List.find (\<lambda>y. f y = k) xs = Some y" using find_exists [of xs "\<lambda>y. f y = k"] by blast
  then have "y \<in> set xs" "f y = k" using find_Some [OF y] by simp_all
  then have "y = x" using assms by (auto simp: distinct_map inj_on_def)
  with y show ?thesis by simp
qed

text \<open>A row that meets its foreign keys joins: the reload after an insert finds it.\<close>

lemma join_exists:
  assumes "row_ok d r"
  shows "\<exists>j. join_appointment d r = Some j"
proof -
  have "foreign_key_violation d r = None" using assms by (simp add: row_ok_def)
  then have "\<exists>x \<in> set (db_dealerships d). dlr_id x = row_dealership r"
    "\<exists>x \<in> set (db_customers d). cur_id x = row_customer r"
    "\<exists>x \<in> set (db_vehicles d). ver_id x = row_vehicle r"
    "\<exists>x \<in> set (db_service_types d). svr_id x = row_service_type r"
    "\<exists>x \<in> set (db_technicians d). ter_id x = row_technician r"
    "\<exists>x \<in> set (db_bays d). bar_id x = row_bay r"
    by (auto simp: foreign_key_violation_def split: if_splits)
  note e = this [THEN find_exists]
  show ?thesis using e by (auto simp: join_appointment_def)
qed

lemma join_matches:
  assumes "join_appointment d r = Some (dl, c, v, st, t, b)"
  shows "appointment_matches (appointment_of_row env loc r c v st t b) r"
proof -
  have "dlr_id dl = row_dealership r" "cur_id c = row_customer r" "ver_id v = row_vehicle r"
    "svr_id st = row_service_type r" "ter_id t = row_technician r" "bar_id b = row_bay r"
    using assms by (auto simp: join_appointment_def dest: find_Some split: option.splits)
  then show ?thesis
    by (simp add: appointment_matches_def appointment_of_row_def customer_of_row_def vehicle_of_row_def
        service_type_of_row_def bay_of_row_def scanned_time_def in_loc_def)
qed

lemma statement_Inr: "statement env us run s = (Inr x, t) \<Longrightarrow> run (arrive env s) = (Inr x, t)"
  by (auto simp: statement_def Let_def split: if_splits option.splits)

lemma statement_Inl:
  assumes "statement env us run s = (Inl e, t)"
  shows "AsError e = None \<and> \<not> error_is e ELostRace \<and> (\<exists>b. t = (arrive env s)\<lparr>pg_aborted := b\<rparr>) \<or>
    run (arrive env s) = (Inl e, t)"
proof -
  have same: "\<exists>b. arrive env s = (arrive env s)\<lparr>pg_aborted := b\<rparr>"
    by (rule exI [of _ "pg_aborted (arrive env s)"]) simp
  show ?thesis
    using assms same by (auto simp: statement_def Let_def pg_aborted_error_def split: if_splits option.splits)
qed

lemma query_Inr: "query env us f s = (Inr x, t) \<Longrightarrow> x = f (view t) \<and> t = arrive env s"
  unfolding query_def by (drule statement_Inr) auto

lemma query_Inl: "query env us f s = (Inl e, t) \<Longrightarrow> AsError e = None \<and> \<not> error_is e ELostRace"
  unfolding query_def by (drule statement_Inl) auto

lemma appointment_Inr:
  assumes "appointment env i s = (Inr a, t)"
  shows "\<exists>r dl c v st te b loc. t = arrive env s \<and>
    select_appointment env i (view t) = Some (r, dl, c, v, st, te, b) \<and>
    a = appointment_of_row env loc r c v st te b"
proof -
  obtain x u where q: "query env [i] (select_appointment env i) s = (x, u)" by fastforce
  obtain r dl c v st te b loc where x: "x = Inr (Some (r, dl, c, v, st, te, b))" "t = u"
      "a = appointment_of_row env loc r c v st te b"
    using assms by (auto simp: appointment_def q split: if_splits sum.splits option.splits)
  have "t = arrive env s" "select_appointment env i (view t) = Some (r, dl, c, v, st, te, b)"
    using query_Inr [OF q [unfolded x(1)]] x(2) by simp_all
  then show ?thesis using x(3) by blast
qed

lemma appointment_Inl:
  assumes "appointment env i s = (Inl e, t)" "is_uuid i" "AsError e \<noteq> None \<or> error_is e ELostRace"
  shows "t = arrive env s \<and> select_appointment env i (view t) = None"
  using assms
  by (auto simp: appointment_def dest!: query_Inr query_Inl split: if_splits prod.splits sum.splits option.splits)

lemma uuid_arg_generated: "env_ok env \<Longrightarrow> uuid_arg env (pe_uuid env n) = pe_uuid env n"
  by (simp add: env_ok_def uuid_arg_def)

lemma select_own_row:
  assumes ok: "session_ok u" and r: "r \<in> set (db_appointments (view u))" and i: "uuid_arg env (row_id r) = row_id r"
  shows "\<exists>j. select_appointment env (row_id r) (view u) = Some (r, j) \<and> join_appointment (view u) r = Some j"
proof -
  have db: "db_ok (view u)" using ok by (simp add: session_ok_def)
  have "select_by_uuid env row_id (row_id r) (db_appointments (view u)) = Some r"
    unfolding select_by_uuid_def using db r i by (intro find_unique) (auto simp: db_ok_def)
  moreover have "row_ok (view u) r" using db r by (simp add: db_ok_def)
  ultimately show ?thesis using join_exists [of "view u" r] by (auto simp: select_appointment_def)
qed

lemma session_ok_steps: "tx_steps env s t \<Longrightarrow> session_ok s \<Longrightarrow> session_ok t"
  using ok.tx_steps_R [of env s t] by (simp add: ok_kept_def)

lemma session_ok_arrive: "session_ok s \<Longrightarrow> session_ok (arrive env s)"
  by (rule session_ok_steps [OF tx_steps_arrive])

text \<open>The insert of one appointment: the row of the arguments is written, and read back.\<close>

definition stored_as :: "pg_env \<Rightarrow> new_appointment \<Rightarrow> appointment \<Rightarrow> appointment_row \<Rightarrow> bool" where
  "stored_as env na a r \<longleftrightarrow> (\<exists>n. r = new_row env na n) \<and> appointment_matches a r"

lemma skip_Inr: "statement env us (\<lambda>s. (Inr (), s)) s = (Inr x, t) \<Longrightarrow> t = arrive env s"
  by (drule statement_Inr) auto

lemma InsertAppointment_reload:
  assumes env: "env_ok env" and ok: "session_ok s"
    and ins: "insert_row (new_row env na n) s = (Inr i, t)"
  shows "i = pe_uuid env n" "is_uuid i" "pg_own_rows t = pg_own_rows s @ [new_row env na n]"
    and "\<exists>j. select_appointment env i (view (arrive env (arrive env t))) = Some (new_row env na n, j) \<and>
          join_appointment (view (arrive env (arrive env t))) (new_row env na n) = Some j"
proof -
  let ?r = "new_row env na n"
  have v: "insert_violation (view s) ?r = None" and i: "i = row_id ?r"
    and t: "t = s\<lparr>pg_own_rows := pg_own_rows s @ [?r]\<rparr>"
    using ins by (auto simp: insert_row_def split: option.splits)
  show "i = pe_uuid env n" using i by (simp add: new_row_def)
  then show "is_uuid i" using env by (simp add: env_ok_def)
  show own: "pg_own_rows t = pg_own_rows s @ [?r]" using t by simp
  have "session_ok (arrive env (arrive env t))"
    unfolding t by (intro session_ok_arrive session_ok_insert ok v)
  moreover have "?r \<in> set (db_appointments (view (arrive env (arrive env t))))"
    using own by simp
  moreover have "uuid_arg env (row_id ?r) = row_id ?r"
    using uuid_arg_generated [OF env] by (simp add: new_row_def)
  ultimately show "\<exists>j. select_appointment env i (view (arrive env (arrive env t))) = Some (?r, j) \<and>
      join_appointment (view (arrive env (arrive env t))) ?r = Some j"
    unfolding i by (rule select_own_row)
qed

text \<open>A rejected insert is a lost race, or no domain error at all.\<close>

lemma mapInsertError_kind:
  assumes "AsError e = None" "\<not> error_is e ELostRace"
  shows "AsError (mapInsertError e) = None \<longleftrightarrow> \<not> error_is (mapInsertError e) ELostRace"
  using assms by (auto simp: mapInsertError_def split: option.splits)

lemma InsertAppointment_store:
  assumes env: "env_ok env" and ok: "session_ok s"
  shows "InsertAppointment env na s = (Inr a, t) \<Longrightarrow> \<exists>r. pg_own_rows t = pg_own_rows s @ [r] \<and> stored_as env na a r"
    and "InsertAppointment env na s = (Inl e, t) \<Longrightarrow>
      (if error_is e ELostRace then pg_own_rows t = pg_own_rows s else AsError e = None)"
proof -
  define us where "us = [na_DealershipID na, na_VehicleID na, na_CustomerID na, na_ServiceTypeID na,
                          na_RequiredSkillID na, na_TechnicianID na, na_BayID na]"
  obtain r1 s1 where 1: "statement env [] (\<lambda>s. (Inr (), s)) s = (r1, s1)" by fastforce
  obtain r2 s2 where 2: "statement env us (\<lambda>s. insert_row (new_row env na (pg_tick s1)) s) s1 = (r2, s2)"
    by fastforce
  obtain r3 s3 where 3: "statement env [] (\<lambda>s. (Inr (), s)) s2 = (r3, s3)" by fastforce
  note I = InsertAppointment_def 1 2 [unfolded us_def] 3
  have own1: "pg_own_rows s1 = pg_own_rows s" using 1 by (rule statement_result_own) simp
  have ok1: "session_ok s1" using skip_steps [of env s "[]"] 1 session_ok_steps [OF _ ok] by fastforce
  have reload: "pg_own_rows s2 = pg_own_rows s @ [new_row env na (pg_tick s1)] \<and> is_uuid i \<and> s3 = arrive env s2 \<and>
      (\<exists>j. select_appointment env i (view (arrive env s3)) = Some (new_row env na (pg_tick s1), j) \<and>
           join_appointment (view (arrive env s3)) (new_row env na (pg_tick s1)) = Some j)"
    if "r2 = Inr i" "r3 = Inr x" for i x
  proof -
    have "insert_row (new_row env na (pg_tick s1)) (arrive env s1) = (Inr i, s2)"
      using 2 that(1) by (auto dest: statement_Inr)
    note r = InsertAppointment_reload [OF env session_ok_arrive [OF ok1] this]
    have "s3 = arrive env s2" using 3 that(2) by (auto dest: skip_Inr)
    then show ?thesis using r own1 by simp
  qed
  show "\<exists>r. pg_own_rows t = pg_own_rows s @ [r] \<and> stored_as env na a r"
    if "InsertAppointment env na s = (Inr a, t)"
  proof -
    from that obtain i x where ri: "r2 = Inr i" "r3 = Inr x" "appointment env i s3 = (Inr a, t)"
      by (auto simp: I split: sum.splits)
    obtain r dl c v st te b loc where a: "t = arrive env s3"
        "select_appointment env i (view t) = Some (r, dl, c, v, st, te, b)"
        "a = appointment_of_row env loc r c v st te b"
      using appointment_Inr [OF ri(3)] by blast
    have "r = new_row env na (pg_tick s1)" "join_appointment (view t) r = Some (dl, c, v, st, te, b)"
      using reload [OF ri(1,2)] a(1,2) by auto
    then have "stored_as env na a r" using join_matches a(3) by (auto simp: stored_as_def)
    moreover have "pg_own_rows t = pg_own_rows s @ [r]"
      using reload [OF ri(1,2)] a(1) \<open>r = new_row env na (pg_tick s1)\<close> by simp
    ultimately show ?thesis by blast
  qed
  show "if error_is e ELostRace then pg_own_rows t = pg_own_rows s else AsError e = None"
    if e: "InsertAppointment env na s = (Inl e, t)"
  proof (cases r1)
    case (Inl e1)
    then show ?thesis using statement_Inl [OF 1 [unfolded Inl]] e own1 by (auto simp: I)
  next
    case r1: (Inr x1)
    show ?thesis
    proof (cases r2)
      case (Inl e2)
      have "pg_own_rows s2 = pg_own_rows s1"
        using 2 [unfolded Inl] by (auto simp: insert_row_def dest!: statement_Inl split: option.splits)
      moreover have "AsError e2 = None \<and> \<not> error_is e2 ELostRace"
        using 2 [unfolded Inl] by (auto simp: insert_row_def dest!: statement_Inl split: option.splits)
      ultimately show ?thesis
        using e own1 mapInsertError_kind [of e2] by (auto simp: I r1 Inl rollback_savepoint_own)
    next
      case r2: (Inr i)
      show ?thesis
      proof (cases r3)
        case (Inl e3)
        then show ?thesis using statement_Inl [OF 3 [unfolded Inl]] e by (auto simp: I r1 r2)
      next
        case r3: (Inr x)
        have "appointment env i s3 = (Inl e, t)" using e by (simp add: I r1 r2 r3)
        then have "\<not> (AsError e \<noteq> None \<or> error_is e ELostRace)"
          using appointment_Inl [of env i s3 e t] reload [OF r2 r3] by fastforce
        then show ?thesis by simp
      qed
    qed
  qed
qed

interpretation store: booking_store "tx_steps env" "bookingTx env" "\<lambda>s. env_ok env \<and> session_ok s"
  pg_own_rows pg_own_keys "stored_as env" for env
proof unfold_locales
  fix na appt err and s t :: "'a pg_scheme"
  assume ok: "env_ok env \<and> session_ok s"
  show "tx_InsertAppointment (bookingTx env) na s = (Inr appt, t) \<Longrightarrow>
      \<exists>r. pg_own_rows t = pg_own_rows s @ [r] \<and> stored_as env na appt r"
    using InsertAppointment_store(1) [of env s na appt t] ok by (simp add: bookingTx_def)
  show "tx_InsertAppointment (bookingTx env) na s = (Inl err, t) \<Longrightarrow>
      (if error_is err ELostRace then pg_own_rows t = pg_own_rows s else AsError err = None)"
    using InsertAppointment_store(2) [of env s na err t] ok by (simp add: bookingTx_def)
next
  fix q err and s t :: "'a pg_scheme"
  show "tx_DaySchedule (bookingTx env) q s = (Inl err, t) \<Longrightarrow> CodeOf err \<noteq> CodeContention"
    by (auto simp: bookingTx_def daySchedule_def CodeOf_def no_code_def Let_def dest: query_Inl
        split: if_splits sum.splits prod.splits)
qed (auto simp: bookingTx_def daySchedule_own appointment_own LockIdempotencyKey_own LockSchedulingDay_own
    FindIdempotencyRecord_own SaveIdempotencyRecord_own daySchedule_keys appointment_keys LockIdempotencyKey_keys
    LockSchedulingDay_keys FindIdempotencyRecord_keys InsertAppointment_keys intro: session_ok_steps)

section \<open>Idle sessions\<close>

definition idle :: "'m pg_scheme \<Rightarrow> bool" where
  "idle s \<longleftrightarrow> pg_own_rows s = [] \<and> pg_own_keys s = Map.empty \<and> pg_locks s = {} \<and>
     \<not> pg_open s \<and> \<not> pg_aborted s"

lemma idle_arrive [simp]: "idle (arrive env s) = idle s"
  by (simp add: idle_def)

lemma idle_close [simp]: "idle (close_tx s)" "idle (apply_tx s)"
  by (simp_all add: idle_def close_tx_def apply_tx_def)

lemma idle_query: "idle s \<Longrightarrow> query env us f s = (x, t) \<Longrightarrow> idle t"
  by (auto simp: query_def statement_def Let_def idle_def split: if_splits option.splits)

lemma idle_dealership: "idle s \<Longrightarrow> dealership env i s = (x, t) \<Longrightarrow> idle t"
  by (auto simp: dealership_def dest: idle_query split: if_splits prod.splits sum.splits option.splits)

lemma idle_serviceType: "idle s \<Longrightarrow> serviceType env i s = (x, t) \<Longrightarrow> idle t"
  by (auto simp: serviceType_def dest: idle_query split: if_splits prod.splits sum.splits option.splits)

lemma idle_vehicleWithOwner: "idle s \<Longrightarrow> vehicleWithOwner env i j s = (x, t) \<Longrightarrow> idle t"
  by (auto simp: vehicleWithOwner_def dest: idle_query split: if_splits prod.splits sum.splits option.splits)

section \<open>Transactions end in one of five ways\<close>

lemma begin_Inr:
  "statement env [] (\<lambda>s. (Inr (), open_tx s)) s = (Inr x, t) \<Longrightarrow> t = open_tx (arrive env s)"
  by (drule statement_Inr) auto

lemma InTx_cases:
  assumes "InTx env body s = ((r, appt, out), t)"
  obtains (begin_failed) err where "r = Some err" "AsError err = None" "tx_steps env s t" "idle s \<Longrightarrow> idle t"
    | (rolled_back) err s2 where "body (bookingTx env) (open_tx (arrive env s)) = ((Some err, appt, out), s2)"
        "r = Some err" "t = close_tx s2"
    | (commit_failed) err s2 where "body (bookingTx env) (open_tx (arrive env s)) = ((None, appt, out), s2)"
        "r = Some err" "AsError err = None" "t = close_tx (arrive env s2)"
    | (lost_ack) err s2 where "body (bookingTx env) (open_tx (arrive env s)) = ((None, appt, out), s2)"
        "r = Some err" "AsError err = None" "ev_lost_ack (pe_script env (pg_tick s2))" "t = apply_tx (arrive env s2)"
    | (committed) s2 where "body (bookingTx env) (open_tx (arrive env s)) = ((None, appt, out), s2)"
        "r = None" "t = apply_tx (arrive env s2)"
proof -
  obtain b s1 where b: "statement env [] (\<lambda>s. (Inr (), open_tx s)) s = (b, s1)" by fastforce
  show ?thesis
  proof (cases b)
    case (Inl err)
    have e: "AsError err = None" using statement_Inl [OF b [unfolded Inl]] by auto
    have a: "tx_steps env s s1" "idle s \<longrightarrow> idle s1"
      using b Inl tx_steps_arrive [of env s] rtranclp_trans [OF tx_steps_arrive tx_steps_abort, of env s]
      by (auto simp: statement_def Let_def idle_def split: if_splits option.splits)
    show ?thesis using begin_failed [OF _ e] a assms by (simp add: InTx_def b Inl)
  next
    case (Inr x)
    then have s1: "s1 = open_tx (arrive env s)" using b begin_Inr by blast
    obtain br vars s2 where body: "body (bookingTx env) s1 = ((br, vars), s2)" by (metis prod.exhaust)
    show ?thesis
    proof (cases br)
      case (Some err)
      then have "r = Some err" "vars = (appt, out)" "t = close_tx s2"
        using assms body by (auto simp: InTx_def b Inr)
      then show ?thesis using rolled_back body s1 Some by simp
    next
      case None
      then have "commit_tx env s2 = (r, t)" "vars = (appt, out)"
        using assms body by (auto simp: InTx_def b Inr split: prod.splits)
      then show ?thesis
        using commit_failed lost_ack committed body s1 None
        by (auto simp: commit_tx_def Let_def split: if_splits option.splits)
    qed
  qed
qed

lemma session_of_tx: "tx_steps env s t \<Longrightarrow> session_steps env s t"
  by (erule rtranclp_mono [THEN predicate2D, rotated]) (auto intro: session_step.tx)

lemma session_then: "session_steps env s t \<Longrightarrow> session_step env t u \<Longrightarrow> session_steps env s u"
  by (rule rtranclp.rtrancl_into_rtrancl)

lemma InTx_steps:
  assumes "\<And>u. tx_steps env u (snd (body (bookingTx env) u))" "InTx env body s = (x, t)"
  shows "session_steps env s t"
proof -
  obtain r appt out where x: "x = (r, appt, out)" by (metis prod.exhaust)
  have start: "session_steps env s (open_tx (arrive env s))"
    by (rule session_then [OF session_of_tx [OF tx_steps_arrive] session_step.start])
  have run: "session_steps env s s2" "session_steps env s (arrive env s2)"
    if "body (bookingTx env) (open_tx (arrive env s)) = (y, s2)" for y s2
  proof -
    have "tx_steps env (open_tx (arrive env s)) s2" using assms(1) [of "open_tx (arrive env s)"] that by simp
    then show "session_steps env s s2" by (rule rtranclp_trans [OF start session_of_tx])
    then show "session_steps env s (arrive env s2)"
      by (rule session_then) (intro session_step.tx tx_step.arrive)
  qed
  from assms(2) [unfolded x] show ?thesis
    by (cases rule: InTx_cases)
      (auto dest: run intro: session_of_tx session_then [OF _ session_step.rollback]
        session_then [OF _ session_step.commit])
qed

text \<open>A booking as a whole, and the other use cases.\<close>

lemma bookingTx_sel [simp]:
  "tx_DaySchedule (bookingTx env) = daySchedule env" "tx_InsertAppointment (bookingTx env) = InsertAppointment env"
  "tx_Appointment (bookingTx env) = appointment env" "tx_LockIdempotencyKey (bookingTx env) = LockIdempotencyKey env"
  "tx_LockSchedulingDay (bookingTx env) = LockSchedulingDay env"
  "tx_FindIdempotencyRecord (bookingTx env) = FindIdempotencyRecord env"
  "tx_SaveIdempotencyRecord (bookingTx env) = SaveIdempotencyRecord env"
  by (simp_all add: bookingTx_def)

lemma Repository_sel [simp]:
  "repo_Dealership (Repository env) = dealership env" "repo_ServiceType (Repository env) = serviceType env"
  "repo_VehicleWithOwner (Repository env) = vehicleWithOwner env" "repo_Appointment (Repository env) = appointment env"
  "repo_DaySchedule (Repository env) = daySchedule env" "repo_InTx (Repository env) = InTx env"
  by (simp_all add: Repository_def)

lemma lookup_steps:
  "dealership env i s = (x, t) \<Longrightarrow> tx_steps env s t" "serviceType env j s = (y, t) \<Longrightarrow> tx_steps env s t"
  "vehicleWithOwner env i k s = (z, t) \<Longrightarrow> tx_steps env s t"
  using dealership_steps [of env s i] serviceType_steps [of env s j] vehicleWithOwner_steps [of env s i k] by auto

lemma book_in_tx_steps:
  assumes sch: "sch_repo sch = Repository env" and b: "book_in_tx rt sch req s = (res, t)"
  shows "session_steps env s t"
  using b
proof (cases rule: book_in_tx_cases)
  case (in_tx d s1 st s2 v c s3 iv r appt out)
  have "tx_steps env s s3"
    using in_tx(1-3) lookup_steps unfolding sch Repository_sel by (meson rtranclp_trans)
  moreover have "session_steps env s3 t"
    by (rule InTx_steps [where body = "book_body rt sch req (sch_now sch s3)
          (DateOf (iv_start iv) (dl_Location d)) (booking_query req d v iv) st (booking_appointment req st v c iv)"
          and x = "(r, appt, out)"])
      (use in_tx(5) session.book_body_R in \<open>simp_all add: sch\<close>)
  ultimately show ?thesis using session_of_tx by (metis rtranclp_trans)
next
  case (no_dealership err)
  then have "tx_steps env s t"
    unfolding sch Repository_sel using lookup_steps by (meson rtranclp_trans)
  then show ?thesis by (rule session_of_tx)
next
  case (no_service d s1 err)
  then have "tx_steps env s t"
    unfolding sch Repository_sel using lookup_steps by (meson rtranclp_trans)
  then show ?thesis by (rule session_of_tx)
next
  case (no_vehicle d s1 st s2 err)
  then have "tx_steps env s t"
    unfolding sch Repository_sel using lookup_steps by (meson rtranclp_trans)
  then show ?thesis by (rule session_of_tx)
next
  case (bad_time d s1 st s2 v c err)
  then have "tx_steps env s t"
    unfolding sch Repository_sel using lookup_steps by (meson rtranclp_trans)
  then show ?thesis by (rule session_of_tx)
qed

text \<open>Instrumentation that works beside the session: it changes what extends the record only.\<close>

definition beside :: "'m pg_scheme instrumentation \<Rightarrow> bool" where
  "beside i \<longleftrightarrow> (\<forall>s. (\<exists>x. BookingStarted i s = s\<lparr>pg.more := x\<rparr>) \<and>
     (\<forall>e d. \<exists>x. BookingFinished i e d s = s\<lparr>pg.more := x\<rparr>))"

lemma Book_cases:
  assumes "Book rt sch req s = (res, t)" "beside (sch_metrics sch)"
  obtains x y u where "book_in_tx rt sch req (s\<lparr>pg.more := x\<rparr>) = (res, u)" "t = u\<lparr>pg.more := y\<rparr>"
proof -
  have "\<exists>x. BookingStarted (sch_metrics sch) s = s\<lparr>pg.more := x\<rparr>" using assms(2) unfolding beside_def by blast
  then obtain x where x: "BookingStarted (sch_metrics sch) s = s\<lparr>pg.more := x\<rparr>" ..
  obtain r u where u: "book_in_tx rt sch req (s\<lparr>pg.more := x\<rparr>) = (r, u)" by fastforce
  have "\<exists>y. BookingFinished (sch_metrics sch) (result_error r) (sub_time (rt_Now rt u) (rt_Now rt s)) u
      = u\<lparr>pg.more := y\<rparr>"
    using assms(2) unfolding beside_def by blast
  then obtain y where "BookingFinished (sch_metrics sch) (result_error r) (sub_time (rt_Now rt u) (rt_Now rt s)) u
      = u\<lparr>pg.more := y\<rparr>" ..
  then show ?thesis using that [of x u y] assms(1) by (simp add: Book_def Let_def x u)
qed

lemma Book_steps:
  assumes sch: "sch_repo sch = Repository env" "beside (sch_metrics sch)" and b: "Book rt sch req s = (res, t)"
  shows "session_steps env s t"
proof -
  obtain x y u where b': "book_in_tx rt sch req (s\<lparr>pg.more := x\<rparr>) = (res, u)" "t = u\<lparr>pg.more := y\<rparr>"
    using Book_cases [OF b sch(2)] by blast
  have "session_step env s (s\<lparr>pg.more := x\<rparr>)" by (rule session_step.observe)
  then have "session_steps env s u"
    by (rule converse_rtranclp_into_rtranclp) (rule book_in_tx_steps [OF sch(1) b'(1)])
  then show ?thesis unfolding b'(2) by (rule session_then) (rule session_step.observe)
qed

section \<open>What a booking adds to the database\<close>

text \<open>Exactly one generated row more than before, and it is \<open>r\<close>; or no generated row more.\<close>

definition adds_row :: "pg_env \<Rightarrow> 'm pg_scheme \<Rightarrow> 'm pg_scheme \<Rightarrow> appointment_row \<Rightarrow> bool" where
  "adds_row env s t r \<longleftrightarrow>
     r \<in> set (db_appointments (pg_db t)) \<and> row_id r \<notin> generated env (pg_db s) \<and>
     generated env (pg_db t) = insert (row_id r) (generated env (pg_db s))"

definition adds_nothing :: "pg_env \<Rightarrow> 'm pg_scheme \<Rightarrow> 'm pg_scheme \<Rightarrow> bool" where
  "adds_nothing env s t \<longleftrightarrow> generated env (pg_db t) = generated env (pg_db s)"

lemma generated_steps:
  "foreign_script env \<Longrightarrow> tx_steps env s t \<Longrightarrow> generated env (pg_db t) = generated env (pg_db s)"
  using generated.tx_steps_R [of env s t] by (simp add: generated_kept_def)

lemma generated_view:
  "generated env (view s) = generated env (pg_db s) \<union> (range (pe_uuid env) \<inter> row_id ` set (pg_own_rows s))"
  by (auto simp: generated_def)

lemma fields_begin [simp]:
  "pg_db (open_tx s) = pg_db s" "pg_own_rows (open_tx s) = pg_own_rows s" "session_ok (open_tx s) = session_ok s"
  "pg_db (close_tx s) = pg_db s"
  by (simp_all add: open_tx_def close_tx_def)

text \<open>A committed transaction that owns one new row adds it; one that owns none adds nothing.\<close>

lemma commit_adds:
  assumes fs: "foreign_script env" and ok: "session_ok u" and g: "generated env (pg_db u) = generated env (pg_db s)"
  shows "pg_own_rows u = [] \<Longrightarrow> adds_nothing env s (apply_tx (arrive env u))"
    and "pg_own_rows u = [r] \<Longrightarrow> row_id r = pe_uuid env n \<Longrightarrow> adds_row env s (apply_tx (arrive env u)) r"
proof -
  have g': "generated env (pg_db (arrive env u)) = generated env (pg_db s)"
    using generated_steps [OF fs tx_steps_arrive, of u] g by simp
  show "pg_own_rows u = [] \<Longrightarrow> adds_nothing env s (apply_tx (arrive env u))"
    by (simp add: adds_nothing_def view_apply generated_view g')
  assume r: "pg_own_rows u = [r]" "row_id r = pe_uuid env n"
  have "db_ok (view (arrive env u))" using session_ok_arrive [OF ok] by (simp add: session_ok_def)
  then have "row_id r \<notin> row_id ` set (db_appointments (pg_db (arrive env u)))"
    using r by (auto simp: db_ok_def)
  then have "row_id r \<notin> generated env (pg_db s)" using g' by (auto simp: generated_def)
  then show "adds_row env s (apply_tx (arrive env u)) r"
    using r by (auto simp: adds_row_def view_apply generated_view g')
qed

definition lossless :: "pg_env \<Rightarrow> bool" where
  "lossless env \<longleftrightarrow> (\<forall>n. \<not> ev_lost_ack (pe_script env n))"

lemma lossless_quiet: "pe_script env = (\<lambda>n. quiet_event) \<Longrightarrow> lossless env"
  by (simp add: lossless_def quiet_event_def)

definition scheduled :: "pg_env \<Rightarrow> book_request \<Rightarrow> service_type \<Rightarrow> appointment_row \<Rightarrow> bool" where
  "scheduled env req st r \<longleftrightarrow>
     row_dealership r = uuid_arg env (rq_DealershipID req) \<and> row_status r = StatusConfirmed \<and>
     row_service_type r = uuid_arg env (st_ID st) \<and> row_skill r = uuid_arg env (st_RequiredSkillID st) \<and>
     row_bay_type r = st_RequiredBayType st \<and>
     row_start r = timestamptz env (rq_StartTime req) \<and>
     row_end r = timestamptz env (add_duration (rq_StartTime req) (st_Duration st))"

lemma new_row_scheduled:
  assumes "ValidateBookingTime (rq_StartTime req) (st_Duration st) now loc hours = Inr iv"
  shows "scheduled env req st (new_row env (with_assignment (booking_appointment req st v c iv) a) n)"
  using assms by (auto simp: scheduled_def new_row_def booking_appointment_def with_assignment_def ValidateBookingTime_Inr)

text \<open>A COMMIT that was applied although its acknowledgement was lost: the caller sees an error of the driver.\<close>

definition commit_unacknowledged :: "pg_env \<Rightarrow> go_error \<Rightarrow> 'm pg_scheme \<Rightarrow> 'm pg_scheme \<Rightarrow> bool" where
  "commit_unacknowledged env err s t \<longleftrightarrow> AsError err = None \<and> (\<exists>n. ev_lost_ack (pe_script env n)) \<and>
     (\<exists>r. adds_row env s t r)"

text \<open>The transaction of a booking, from an idle session.\<close>

lemma booking_transaction:
  fixes env :: pg_env
  assumes env: "env_ok env" "foreign_script env" and ok: "session_ok s" and idle: "idle s"
    and tx: "InTx env (book_body rt sch req now day q st na) s = ((r, appt, out), t)"
  shows "r = None \<Longrightarrow> out \<noteq> None \<Longrightarrow> adds_nothing env s t"
    and "r = Some err \<Longrightarrow> adds_nothing env s t \<or> commit_unacknowledged env err s t"
    and "r = None \<Longrightarrow> out = None \<Longrightarrow> rq_IdempotencyKey req = [] \<Longrightarrow>
      \<exists>a n. adds_row env s t (new_row env (with_assignment na a) n) \<and>
            appointment_matches appt (new_row env (with_assignment na a) n)"
    and "r = None \<Longrightarrow> out = None \<Longrightarrow>
      adds_nothing env s t \<or> (\<exists>a n. adds_row env s t (new_row env (with_assignment na a) n) \<and>
            appointment_matches appt (new_row env (with_assignment na a) n))"
    and "idle t"
proof -
  let ?b = "book_body rt sch req now day q st na"
  let ?u = "open_tx (arrive env s)"
  have u: "session_ok ?u" "pg_own_rows ?u = []" "generated env (pg_db ?u) = generated env (pg_db s)"
    using session_ok_arrive [OF ok] idle generated_steps [OF env(2) tx_steps_arrive, of s]
    by (simp_all add: idle_def)
  have run: "session_ok s2 \<and> generated env (pg_db s2) = generated env (pg_db s)"
    if "?b (bookingTx env) ?u = (y, s2)" for y s2
  proof -
    have "tx_steps env ?u s2"
      using session.book_body_R [of env ?u rt sch req now day q st na] that by simp
    then show ?thesis using session_ok_steps u generated_steps [OF env(2)] by metis
  qed
  have Ok: "env_ok env \<and> session_ok ?u" using env(1) u(1) by simp
  have committed: "(out \<noteq> None \<longrightarrow> adds_nothing env s (apply_tx (arrive env s2))) \<and>
      (out = None \<longrightarrow> (rq_IdempotencyKey req \<noteq> [] \<and> adds_nothing env s (apply_tx (arrive env s2))) \<or>
        (\<exists>a n. adds_row env s (apply_tx (arrive env s2)) (new_row env (with_assignment na a) n) \<and>
            appointment_matches appt (new_row env (with_assignment na a) n)))"
    if b: "?b (bookingTx env) ?u = ((None, appt, out), s2)" for s2
  proof -
    note add = commit_adds [OF env(2) conjunct1 [OF run [OF b]] conjunct2 [OF run [OF b]]]
    show ?thesis
    proof (rule store.book_body_own [OF Ok b])
      assume "rq_IdempotencyKey req \<noteq> []" "pg_own_rows s2 = pg_own_rows ?u"
      then show ?thesis using add(1) u(2) by simp
    next
      assume f: "case out of None \<Rightarrow> store.placed env sch q st na appt ?u s2
                | Some e \<Rightarrow> AsError e \<noteq> None \<and> pg_own_rows s2 = pg_own_rows ?u"
      show ?thesis
      proof (cases out)
        case (Some e)
        then show ?thesis using f add(1) u(2) by simp
      next
        case None
        then obtain row a where "pg_own_rows s2 = [row]" "stored_as env (with_assignment na a) appt row"
          using f u(2) by (auto simp: store.placed_def)
        then obtain n where row: "row = new_row env (with_assignment na a) n" "pg_own_rows s2 = [row]"
            "appointment_matches appt row"
          by (auto simp: stored_as_def)
        have "adds_row env s (apply_tx (arrive env s2)) row"
          by (rule add(2) [OF row(2), of n]) (simp add: row(1) new_row_def)
        then show ?thesis using None row by blast
      qed
    qed
  qed
  have close: "adds_nothing env s (close_tx v)" if "generated env (pg_db v) = generated env (pg_db s)" for v
    using that by (simp add: adds_nothing_def)
  from tx have "idle t \<and> (\<forall>err. r = Some err \<longrightarrow> adds_nothing env s t \<or> commit_unacknowledged env err s t) \<and> (r = None \<longrightarrow>
      (\<exists>s2. ?b (bookingTx env) ?u = ((None, appt, out), s2) \<and> t = apply_tx (arrive env s2)))"
  proof (cases rule: InTx_cases)
    case (begin_failed err)
    then show ?thesis
      using idle generated_steps [OF env(2) begin_failed(3)] by (simp add: adds_nothing_def)
  next
    case (rolled_back err s2)
    then show ?thesis using close conjunct2 [OF run [OF rolled_back(1)]] by simp
  next
    case (commit_failed err s2)
    have "generated env (pg_db (arrive env s2)) = generated env (pg_db s)"
      using generated_steps [OF env(2) tx_steps_arrive, of s2] run [OF commit_failed(1)] by simp
    then show ?thesis using close commit_failed by simp
  next
    case (lost_ack err s2)
    then show ?thesis using committed [OF lost_ack(1)] by (cases out) (auto simp: commit_unacknowledged_def)
  qed auto
  then have fin: "idle t" "\<And>err. r = Some err \<Longrightarrow> adds_nothing env s t \<or> commit_unacknowledged env err s t"
    "r = None \<Longrightarrow> \<exists>s2. ?b (bookingTx env) ?u = ((None, appt, out), s2) \<and> t = apply_tx (arrive env s2)"
    by blast+
  show "idle t" by (rule fin(1))
  show "r = Some err \<Longrightarrow> adds_nothing env s t \<or> commit_unacknowledged env err s t" by (rule fin(2))
  show "adds_nothing env s t" if "r = None" "out \<noteq> None"
    using fin(3) [OF that(1)] committed that(2) by blast
  show "\<exists>a n. adds_row env s t (new_row env (with_assignment na a) n) \<and>
            appointment_matches appt (new_row env (with_assignment na a) n)"
    if "r = None" "out = None" "rq_IdempotencyKey req = []"
    using fin(3) [OF that(1)] committed that(2,3) by blast
  show "adds_nothing env s t \<or> (\<exists>a n. adds_row env s t (new_row env (with_assignment na a) n) \<and>
            appointment_matches appt (new_row env (with_assignment na a) n))" if "r = None" "out = None"
    using fin(3) [OF that(1)] committed that(2) by blast
qed

lemma tx_frame: "tx_steps env s t \<Longrightarrow> same_catalogue (pg_db s) (pg_db t)"
  using frame.tx_steps_R [of env s t] by (simp add: frame_kept_def)

lemma session_frame: "session_steps env s t \<Longrightarrow> same_catalogue (pg_db s) (pg_db t)"
  using frame.session_steps_R [of env s t] by (simp add: frame_kept_def)

lemma serviceType_Inr:
  assumes "serviceType env i s = (Inr st, t)"
  shows "\<exists>row \<in> set (db_service_types (pg_db s)). svr_id row = uuid_arg env i \<and> st = service_type_of_row row"
proof -
  obtain x u where q: "query env [i] (\<lambda>d. select_by_uuid env svr_id i (db_service_types d)) s = (x, u)"
    by fastforce
  obtain row where row: "x = Inr (Some row)" "st = service_type_of_row row"
    using assms by (auto simp: serviceType_def q split: if_splits sum.splits option.splits)
  have "select_by_uuid env svr_id i (db_service_types (view u)) = Some row" and u: "u = arrive env s"
    using query_Inr [OF q [unfolded row(1)]] by simp_all
  then have "row \<in> set (db_service_types (pg_db u))" "svr_id row = uuid_arg env i"
    by (auto simp: select_by_uuid_def dest: find_Some)
  then show ?thesis
    using row(2) tx_frame [OF tx_steps_arrive, of s env] by (auto simp: u same_catalogue_iff)
qed

lemma book_in_tx_adds:
  assumes env: "env_ok env" "foreign_script env" and ok: "session_ok s" and idle: "idle s"
    and sch: "sch_repo sch = Repository env" and b: "book_in_tx rt sch req s = (res, t)"
  shows "idle t"
    and "res = Inl e \<Longrightarrow> adds_nothing env s t \<or> commit_unacknowledged env e s t"
    and "res = Inr appt \<Longrightarrow>
      rq_IdempotencyKey req \<noteq> [] \<and> adds_nothing env s t \<or>
      (\<exists>r. \<exists>row \<in> set (db_service_types (pg_db s)). adds_row env s t r \<and> appointment_matches appt r \<and>
         svr_id row = uuid_arg env (rq_ServiceTypeID req) \<and> scheduled env req (service_type_of_row row) r)"
proof -
  note chain = rtranclp_trans [of "tx_step env" s]
  have early: "adds_nothing env s t" if "tx_steps env s t"
    using generated_steps [OF env(2) that] by (simp add: adds_nothing_def)
  have "idle t \<and> (\<forall>e. res = Inl e \<longrightarrow> adds_nothing env s t \<or> commit_unacknowledged env e s t) \<and>
      (\<forall>appt. res = Inr appt \<longrightarrow> rq_IdempotencyKey req \<noteq> [] \<and> adds_nothing env s t \<or>
      (\<exists>r. \<exists>row \<in> set (db_service_types (pg_db s)). adds_row env s t r \<and> appointment_matches appt r \<and>
         svr_id row = uuid_arg env (rq_ServiceTypeID req) \<and> scheduled env req (service_type_of_row row) r))"
    using b
  proof (cases rule: book_in_tx_cases)
    case (no_dealership err)
    note l = no_dealership(1) [unfolded sch Repository_sel]
    show ?thesis using early [OF lookup_steps(1) [OF l]] idle_dealership [OF idle l] no_dealership by simp
  next
    case (no_service d s1 err)
    note l = no_service(1,2) [unfolded sch Repository_sel]
    show ?thesis
      using early [OF chain [OF lookup_steps(1) [OF l(1)] lookup_steps(2) [OF l(2)]]] no_service
        idle_serviceType [OF idle_dealership [OF idle l(1)] l(2)] by simp
  next
    case (no_vehicle d s1 st s2 err)
    note l = no_vehicle(1-3) [unfolded sch Repository_sel]
    show ?thesis
      using early [OF chain [OF chain [OF lookup_steps(1) [OF l(1)] lookup_steps(2) [OF l(2)]] lookup_steps(3) [OF l(3)]]]
        idle_vehicleWithOwner [OF idle_serviceType [OF idle_dealership [OF idle l(1)] l(2)] l(3)] no_vehicle by simp
  next
    case (bad_time d s1 st s2 v c err)
    note l = bad_time(1-3) [unfolded sch Repository_sel]
    show ?thesis
      using early [OF chain [OF chain [OF lookup_steps(1) [OF l(1)] lookup_steps(2) [OF l(2)]] lookup_steps(3) [OF l(3)]]]
        idle_vehicleWithOwner [OF idle_serviceType [OF idle_dealership [OF idle l(1)] l(2)] l(3)] bad_time by simp
  next
    case (in_tx d s1 st s2 v c s3 iv r appt out)
    note l = in_tx(1-3) [unfolded sch Repository_sel]
    have steps: "tx_steps env s s3"
      by (rule chain [OF chain [OF lookup_steps(1) [OF l(1)] lookup_steps(2) [OF l(2)]] lookup_steps(3) [OF l(3)]])
    have s3: "session_ok s3" "idle s3" "generated env (pg_db s3) = generated env (pg_db s)"
      using session_ok_steps [OF steps ok] generated_steps [OF env(2) steps]
        idle_vehicleWithOwner [OF idle_serviceType [OF idle_dealership [OF idle l(1)] l(2)] l(3)] by simp_all
    have rel: "adds_nothing env s3 t = adds_nothing env s t" "adds_row env s3 t x = adds_row env s t x"
      "commit_unacknowledged env e s3 t = commit_unacknowledged env e s t" for x e
      by (simp_all add: adds_nothing_def adds_row_def commit_unacknowledged_def s3(3))
    note T = booking_transaction [OF env s3(1,2) in_tx(5) [unfolded sch Repository_sel], unfolded rel]
    obtain row where row: "row \<in> set (db_service_types (pg_db s))" "svr_id row = uuid_arg env (rq_ServiceTypeID req)"
        "st = service_type_of_row row"
      using serviceType_Inr [OF l(2)] tx_frame [OF lookup_steps(1) [OF l(1)]] by (auto simp: same_catalogue_iff)
    have "rq_IdempotencyKey req \<noteq> [] \<and> adds_nothing env s t \<or> (\<exists>r. adds_row env s t r \<and> appointment_matches appt r \<and>
        scheduled env req st r)" if "r = None" "out = None"
      using T(3,4) [OF that] new_row_scheduled [OF in_tx(4)] by blast
    then show ?thesis
      using T(1,2,5) in_tx(6) row by (auto simp: tx_result_def split: option.splits)
  qed
  then show "idle t" "res = Inl e \<Longrightarrow> adds_nothing env s t \<or> commit_unacknowledged env e s t"
    "res = Inr appt \<Longrightarrow>
      rq_IdempotencyKey req \<noteq> [] \<and> adds_nothing env s t \<or>
      (\<exists>r. \<exists>row \<in> set (db_service_types (pg_db s)). adds_row env s t r \<and> appointment_matches appt r \<and>
         svr_id row = uuid_arg env (rq_ServiceTypeID req) \<and> scheduled env req (service_type_of_row row) r)"
    by blast+
qed

end
