(* ===== verification/Replay.thy ===== *)
theory Replay
  imports Booking
begin

text \<open>
  Idempotency over the repository (FR-4): what a keyed booking records, what a later booking with
  the same key finds, and that a CONTENTION outcome leaves the stored keys alone. The facts about
  keys that other sessions write are under a hypothesis on the script, \<open>keyless_script\<close>: the
  advisory lock on the key serialises the sessions that use it.
\<close>

section \<open>The committed keys\<close>

definition keyless_script :: "pg_env \<Rightarrow> bool" where
  "keyless_script env \<longleftrightarrow> (\<forall>n. ev_keys (pe_script env n) = [])"

definition keys_kept :: "pg_env \<Rightarrow> 'm pg_scheme \<Rightarrow> 'm pg_scheme \<Rightarrow> bool" where
  "keys_kept env s t \<longleftrightarrow> (keyless_script env \<longrightarrow> db_keys (pg_db t) = db_keys (pg_db s))"

interpretation keys: session_relation "keys_kept env" env for env
  by unfold_locales
    (auto simp: keys_kept_def keyless_script_def cancel_rows_def admit_row_def add_row_def split: prod.splits)

lemma keys_steps: "keyless_script env \<Longrightarrow> tx_steps env s t \<Longrightarrow> db_keys (pg_db t) = db_keys (pg_db s)"
  using keys.tx_steps_R [of env s t] by (simp add: keys_kept_def)

lemma keys_arrive [simp]: "keyless_script env \<Longrightarrow> db_keys (pg_db (arrive env s)) = db_keys (pg_db s)"
  by (rule keys_steps [OF _ tx_steps_arrive])

definition key_of :: "pg_env \<Rightarrow> book_request \<Rightarrow> string \<times> string" where
  "key_of env req = (uuid_arg env (rq_DealershipID req), uuid_arg env (rq_IdempotencyKey req))"

section \<open>Finding and replaying a record\<close>

lemma FindIdempotencyRecord_Inr:
  assumes "FindIdempotencyRecord env d k now s = (Inr res, t)"
  shows "t = arrive env s \<and> res = map_option (record_of_row env d k) (select_key env d k now (view t))"
proof -
  obtain x u where q: "query env [d, k] (select_key env d k now) s = (x, u)" by fastforce
  then show ?thesis
    using assms query_Inr [of env "[d, k]" "select_key env d k now" s _ u]
    by (fastforce simp: FindIdempotencyRecord_def split: sum.splits option.splits)
qed

lemma LockIdempotencyKey_fields:
  assumes "LockIdempotencyKey env d k s = (r, t)"
  shows "pg_db t = pg_db (arrive env s) \<and> pg_own_keys t = pg_own_keys s"
proof -
  have "pg_db (snd (statement env [] (advisory_lock p) s)) = pg_db (arrive env s)" for p
    by (auto simp: statement_def Let_def advisory_lock_def split: option.splits)
  then have "pg_db (snd (LockIdempotencyKey env d k s)) = pg_db (arrive env s)"
    by (simp add: LockIdempotencyKey_def split: prod.splits sum.splits) (metis snd_conv)
  then show ?thesis using assms LockIdempotencyKey_keys [of env d k s] by simp
qed

text \<open>A transaction that finds a live record of the same payload returns its appointment.\<close>

lemma body_replays:
  assumes key: "rq_IdempotencyKey req \<noteq> []" and keyless: "keyless_script env"
    and v: "db_keys (pg_db s) (key_of env req) = Some v" "pg_own_keys s = Map.empty"
    and live: "timestamptz env now < kr_expires v" "kr_fingerprint v = fingerprint rt req"
    and i: "kr_appointment v = Some i" "i \<noteq> []"
    and b: "book_body rt sch req now day q st na (bookingTx env) s = ((None, appt, None), t)"
  shows "ap_ID appt = uuid_arg env i" "pg_own_rows t = pg_own_rows s" "pg_own_keys t = Map.empty"
proof -
  let ?d = "rq_DealershipID req" and ?k = "rq_IdempotencyKey req"
  obtain r1 s1 where l: "LockIdempotencyKey env ?d ?k s = (r1, s1)" by fastforce
  obtain r2 s2 where f: "FindIdempotencyRecord env ?d ?k now s1 = (r2, s2)" by fastforce
  note B = b [unfolded book_body_def bookingTx_sel l, simplified]
  have r1: "r1 = None" using B key by (auto split: option.splits)
  have s1: "db_keys (pg_db s1) = db_keys (pg_db s)" "pg_own_keys s1 = Map.empty"
    using LockIdempotencyKey_fields [OF l] keyless v(2) by simp_all
  obtain res where res: "r2 = Inr res" using B key by (auto simp: r1 f split: sum.splits)
  note F = FindIdempotencyRecord_Inr [OF f [unfolded res]]
  have s2: "pg_own_keys s2 = Map.empty" "db_keys (pg_db s2) = db_keys (pg_db s)"
    using F s1 keyless by auto
  have "select_key env ?d ?k now (view s2) = Some v"
    using s2 v(1) live(1) by (simp add: select_key_def key_of_def)
  then have res': "res = Some (record_of_row env ?d ?k v)" using F by simp
  have rep: "replay (bookingTx env) (record_of_row env ?d ?k v) (fingerprint rt req) s2 = ((appt, None, None), t)"
    using B key by (simp add: r1 f res res' split: prod.splits)
  have a: "appointment env i s2 = (Inr appt, t)"
    using rep i live(2)
    by (simp add: replay_def record_of_row_def split: if_splits prod.splits sum.splits)
  obtain r dl c ve sty te ba loc where ap: "t = arrive env s2"
      "select_appointment env i (view t) = Some (r, dl, c, ve, sty, te, ba)"
      "appt = appointment_of_row env loc r c ve sty te ba"
    using appointment_Inr [OF a] by blast
  have "row_id r = uuid_arg env i"
    using ap(2) find_Some by (fastforce simp: select_appointment_def select_by_uuid_def split: option.splits)
  then show "ap_ID appt = uuid_arg env i" by (simp add: ap(3) appointment_of_row_def)
  have "pg_own_rows s1 = pg_own_rows s" using LockIdempotencyKey_own [of env ?d ?k s] l by simp
  then show "pg_own_rows t = pg_own_rows s" "pg_own_keys t = Map.empty" using ap(1) F s2(1) by simp_all
qed

section \<open>What a keyed success records\<close>

lemma SaveIdempotencyRecord_None:
  assumes "SaveIdempotencyRecord env rec s = (None, t)"
  shows "pg_own_keys t (uuid_arg env (ir_DealershipID rec), uuid_arg env (ir_Key rec)) = Some (row_of_record env rec)"
proof -
  let ?us = "[ir_DealershipID rec, ir_Key rec] @ (if ir_AppointmentID rec \<noteq> [] then [ir_AppointmentID rec] else [])"
  let ?run = "upsert_key (uuid_arg env (ir_DealershipID rec), uuid_arg env (ir_Key rec)) (row_of_record env rec)"
  obtain x u where st: "statement env ?us ?run s = (x, u)" by fastforce
  then obtain y where y: "x = Inr y" "u = t"
    using assms unfolding SaveIdempotencyRecord_def by (auto split: sum.splits)
  have "?run (arrive env s) = (Inr y, t)" by (rule statement_Inr [OF st [unfolded y]])
  then show ?thesis by (auto simp: upsert_key_def split: option.splits)
qed

lemma fresh_records:
  assumes Ok: "env_ok env" "session_ok s" and key: "rq_IdempotencyKey req \<noteq> []"
    and b: "book_fresh rt sch req now day q st na (bookingTx env) s = ((None, appt, None), t)"
  shows "pg_own_keys t (key_of env req) = Some (row_of_record env (outcome_record rt req now appt None))"
proof -
  obtain r1 s1 where l: "LockSchedulingDay env (rq_DealershipID req) day s = (r1, s1)" by fastforce
  have r1: "r1 = None" using b l by (auto simp: book_fresh_def split: option.splits)
  obtain ap out tr s2 where a: "assignAndInsert sch (bookingTx env) q st na s1 = ((ap, out, tr), s2)"
    by (metis prod.exhaust)
  have "session_ok s1"
    using session.step_LockSchedulingDay [of env s "rq_DealershipID req" day] l session_ok_steps [OF _ Ok(2)]
    by simp
  then have tr: "out = None \<longrightarrow> \<not> tr" using store.assignAndInsert_own(1) [OF _ a] Ok(1) by blast
  note lock = l [unfolded r1]
  have "out = None" "ap = appt" using b tr by (auto simp: book_fresh_def lock a split: if_splits option.splits prod.splits)
  then have "tx_SaveIdempotencyRecord (bookingTx env) (outcome_record rt req now appt None) s2 = (None, t)"
    using b tr key by (auto simp: book_fresh_def lock a split: option.splits prod.splits)
  then have "SaveIdempotencyRecord env (outcome_record rt req now appt None) s2 = (None, t)"
    by simp
  from SaveIdempotencyRecord_None [OF this] show ?thesis
    by (simp add: outcome_record_def Let_def key_of_def)
qed

definition recorded :: "'m runtime \<Rightarrow> pg_env \<Rightarrow> book_request \<Rightarrow> db \<Rightarrow> string \<Rightarrow> bool" where
  "recorded rt env req d ident \<longleftrightarrow> (\<exists>v i. db_keys d (key_of env req) = Some v \<and>
     kr_fingerprint v = fingerprint rt req \<and> kr_appointment v = Some i \<and> i \<noteq> [] \<and> ident = uuid_arg env i)"

section \<open>Keyed bookings, whole\<close>

lemma pe_uuid_nonempty:
  assumes "env_ok env"
  shows "pe_uuid env n \<noteq> []"
proof -
  have "is_uuid (pe_uuid env n)" using assms by (simp add: env_ok_def)
  then have "length (pe_uuid env n) = 36" by (simp add: is_uuid_def)
  then show ?thesis by auto
qed

lemma booking_tx_records:
  assumes env: "env_ok env" "keyless_script env" and ok: "session_ok s" and idle: "idle s"
    and key: "rq_IdempotencyKey req \<noteq> []"
    and tx: "InTx env (book_body rt sch req now day q st na) s = ((None, appt, None), t)"
  shows "recorded rt env req (pg_db t) (ap_ID appt)"
proof -
  let ?u = "open_tx (arrive env s)" and ?d = "rq_DealershipID req" and ?k = "rq_IdempotencyKey req"
  from tx obtain s2 where b: "book_body rt sch req now day q st na (bookingTx env) ?u = ((None, appt, None), s2)"
      and t: "t = apply_tx (arrive env s2)"
    by (cases rule: InTx_cases) auto
  have u: "session_ok ?u" "pg_own_rows ?u = []" "pg_own_keys ?u = Map.empty"
    using session_ok_arrive [OF ok] idle by (simp_all add: idle_def open_tx_def)
  have kt: "db_keys (pg_db t) = db_keys (pg_db s2) ++ pg_own_keys s2"
    using env(2) by (simp add: t view_apply)
  obtain r1 s1 where l: "LockIdempotencyKey env ?d ?k ?u = (r1, s1)" by fastforce
  obtain r3 s3 where f: "FindIdempotencyRecord env ?d ?k now s1 = (r3, s3)" by fastforce
  note B = b [unfolded book_body_def bookingTx_sel l, simplified]
  have r1: "r1 = None" using B key by (auto split: option.splits)
  obtain res where res: "r3 = Inr res" using B key by (auto simp: r1 f split: sum.splits)
  note F = FindIdempotencyRecord_Inr [OF f [unfolded res]]
  have s1: "db_keys (pg_db s1) = db_keys (pg_db ?u)" "pg_own_keys s1 = Map.empty"
    using LockIdempotencyKey_fields [OF l] env(2) u(3) by simp_all
  have s3: "db_keys (pg_db s3) = db_keys (pg_db ?u)" "pg_own_keys s3 = Map.empty"
    using F s1 env(2) by simp_all
  have steps: "tx_steps env ?u s3"
    using session.step_LockIdempotencyKey [of env ?u ?d ?k] session.step_FindIdempotencyRecord [of env s1 ?d ?k now]
    by (simp add: l f)
  show ?thesis
  proof (cases res)
    case None
    have fr: "book_fresh rt sch req now day q st na (bookingTx env) s3 = ((None, appt, None), s2)"
      using B key by (simp add: r1 f res None)
    have ok3: "env_ok env \<and> session_ok s3" using env(1) session_ok_steps [OF steps u(1)] by simp
    have rec: "pg_own_keys s2 (key_of env req) = Some (row_of_record env (outcome_record rt req now appt None))"
      by (rule fresh_records [OF env(1) conjunct2 [OF ok3] key fr])
    obtain row a where "stored_as env (with_assignment na a) appt row"
      using store.book_fresh_own [OF ok3 fr] by (auto simp: store.placed_def)
    then obtain n where "ap_ID appt = pe_uuid env n"
      by (auto simp: stored_as_def appointment_matches_def new_row_def)
    then have i: "uuid_arg env (ap_ID appt) = ap_ID appt" "ap_ID appt \<noteq> []"
      using uuid_arg_generated [OF env(1), of n] pe_uuid_nonempty [OF env(1), of n] by simp_all
    show ?thesis
      using rec i by (simp add: recorded_def kt row_of_record_def outcome_record_def Let_def)
  next
    case (Some rec)
    have "map_option (record_of_row env ?d ?k) (select_key env ?d ?k now (view s3)) = Some rec"
      using F Some by simp
    then obtain v where v: "select_key env ?d ?k now (view s3) = Some v" "rec = record_of_row env ?d ?k v"
      unfolding map_option_eq_Some by blast
    have rep: "replay (bookingTx env) rec (fingerprint rt req) s3 = ((appt, None, None), s2)"
      using B key by (simp add: r1 f res Some split: prod.splits)
    then have fp: "kr_fingerprint v = fingerprint rt req" and "ir_AppointmentID rec \<noteq> []"
      by (auto simp: replay_def v(2) record_of_row_def split: if_splits)
    then obtain i where i: "kr_appointment v = Some i" "i \<noteq> []"
      by (auto simp: v(2) record_of_row_def split: option.splits)
    have live: "timestamptz env now < kr_expires v" "db_keys (pg_db ?u) (key_of env req) = Some v"
      using v(1) s3 by (auto simp: select_key_def key_of_def split: option.splits if_splits)
    note R = body_replays [OF key env(2) live(2) u(3) live(1) fp i b]
    have "db_keys (pg_db s2) = db_keys (pg_db ?u)"
      using keys_steps [OF env(2), of ?u s2] session.book_body_R [of env ?u rt sch req now day q st na] b by simp
    then show ?thesis using R live(2) fp i by (auto simp: recorded_def kt)
  qed
qed

lemma booking_tx_replays:
  assumes env: "env_ok env" "foreign_script env" "keyless_script env" and ok: "session_ok s" and idle: "idle s"
    and key: "rq_IdempotencyKey req \<noteq> []" and rec: "recorded rt env req (pg_db s) ident"
    and live: "\<And>v. db_keys (pg_db s) (key_of env req) = Some v \<Longrightarrow> timestamptz env now < kr_expires v"
    and tx: "InTx env (book_body rt sch req now day q st na) s = ((None, appt, None), t)"
  shows "ap_ID appt = ident" "adds_nothing env s t"
proof -
  let ?u = "open_tx (arrive env s)"
  from tx obtain s2 where b: "book_body rt sch req now day q st na (bookingTx env) ?u = ((None, appt, None), s2)"
      and t: "t = apply_tx (arrive env s2)"
    by (cases rule: InTx_cases) auto
  have u: "session_ok ?u" "pg_own_rows ?u = []" "pg_own_keys ?u = Map.empty" "db_keys (pg_db ?u) = db_keys (pg_db s)"
    using session_ok_arrive [OF ok] idle env(3) by (simp_all add: idle_def) (simp add: open_tx_def)
  obtain v i where v: "db_keys (pg_db ?u) (key_of env req) = Some v" "kr_fingerprint v = fingerprint rt req"
      "kr_appointment v = Some i" "i \<noteq> []" "ident = uuid_arg env i"
    using rec u(4) by (auto simp: recorded_def)
  note R = body_replays [OF key env(3) v(1) u(3) live v(2,3,4) b]
  show "ap_ID appt = ident" using R(1) v u(4) by simp
  have "tx_steps env ?u s2" using session.book_body_R [of env ?u rt sch req now day q st na] b by simp
  then have "session_ok s2" "generated env (pg_db s2) = generated env (pg_db s)"
    using session_ok_steps [OF _ u(1)] generated_steps [OF env(2), of ?u s2]
      generated_steps [OF env(2) tx_steps_arrive, of s] by simp_all
  then show "adds_nothing env s t"
    unfolding t using R(2) v u(2,4) by (intro commit_adds(1) env(2)) auto
qed

text \<open>Without a lost acknowledgement, a transaction whose result is CONTENTION, or that failed, kept the keys.\<close>

lemma InTx_contention:
  assumes env: "env_ok env" "keyless_script env" "lossless env" and s: "session_ok s" "idle s"
    and tx: "InTx env (book_body rt sch req now day q st na) s = ((r, appt, out), t)"
    and e: "Inl err = tx_result r appt out" "CodeOf err = CodeContention"
  shows "db_keys (pg_db t) = db_keys (pg_db s)"
proof -
  let ?u = "open_tx (arrive env s)"
  have u: "env_ok env \<and> session_ok ?u" "pg_own_keys ?u = Map.empty" "db_keys (pg_db ?u) = db_keys (pg_db s)"
    using session_ok_arrive [OF s(1)] s(2) env(1,2) by (simp_all add: idle_def) (simp add: open_tx_def)
  have run: "db_keys (pg_db s2) = db_keys (pg_db s)"
    if "book_body rt sch req now day q st na (bookingTx env) ?u = (y, s2)" for y s2
  proof -
    have "tx_steps env ?u s2" using session.book_body_R [of env ?u rt sch req now day q st na] that by simp
    then show ?thesis using keys_steps [OF env(2)] u(3) by metis
  qed
  from tx show ?thesis
  proof (cases rule: InTx_cases)
    case (begin_failed err')
    then show ?thesis using keys_steps [OF env(2)] by metis
  next
    case (rolled_back err' s2)
    then show ?thesis using run [OF rolled_back(1)] by simp
  next
    case (commit_failed err' s2)
    then show ?thesis using run [OF commit_failed(1)] env(2) by simp
  next
    case (lost_ack err' s2)
    then show ?thesis using env(3) by (simp add: lossless_def)
  next
    case (committed s2)
    then obtain e' where out: "out = Some e'" "err = e'"
      using e(1) by (auto simp: tx_result_def split: option.splits)
    have "pg_own_keys s2 = Map.empty"
      using store.book_body_keys [OF u(1) committed(1) [unfolded out(1)]] e(2) out(2) u(2) by simp
    then show ?thesis using run [OF committed(1)] env(2) by (simp add: committed(3) view_apply)
  qed
qed

end
