(* ===== verification/Quiet.thy ===== *)
theory Quiet
  imports Replay
begin

text \<open>
  Sessions that nothing disturbs: with a quiet script a statement sees the committed database and
  what the transaction wrote, and never fails. The equations here run the code on such a session;
  the sample dealership of the theory Sample is the concrete input of the witnesses.
\<close>

definition quiet :: "pg_env \<Rightarrow> bool" where
  "quiet env \<longleftrightarrow> (\<forall>n. pe_script env n = quiet_event)"

lemma cancel_rows_none [simp]: "cancel_rows [] d = d"
  by (simp add: cancel_rows_def)

definition tick :: "nat \<Rightarrow> 'm pg_scheme \<Rightarrow> 'm pg_scheme" where
  "tick n s = s\<lparr>pg_tick := pg_tick s + n\<rparr>"

lemma tick_sel [simp]:
  "pg_db (tick n s) = pg_db s" "pg_own_rows (tick n s) = pg_own_rows s" "pg_own_keys (tick n s) = pg_own_keys s"
  "pg_locks (tick n s) = pg_locks s" "pg_open (tick n s) = pg_open s" "pg_aborted (tick n s) = pg_aborted s"
  "pg_tick (tick n s) = pg_tick s + n" "view (tick n s) = view s" "tick m (tick n s) = tick (n + m) s"
  "session_ok (tick n s) = session_ok s" "idle (tick n s) = idle s"
  by (simp_all add: tick_def idle_def)

lemma arrive_quiet: "quiet env \<Longrightarrow> arrive env s = tick 1 s"
  by (simp add: arrive_def quiet_def quiet_event_def Let_def tick_def)

lemma quiet_scripts: "quiet env \<Longrightarrow> foreign_script env \<and> keyless_script env \<and> lossless env"
  by (simp add: quiet_def quiet_event_def foreign_script_def keyless_script_def lossless_def)

definition uuids_ok :: "pg_env \<Rightarrow> string list \<Rightarrow> bool" where
  "uuids_ok env us \<longleftrightarrow> (\<forall>u \<in> set us. is_uuid u)"

lemma statement_quiet:
  assumes "quiet env" "env_ok env" "uuids_ok env us" "\<not> pg_aborted s"
  shows "statement env us run s = run (tick 1 s)"
proof -
  have "\<not> list_ex (\<lambda>u. pe_parse_uuid env u = None) us"
    using assms(2,3) by (auto simp: list_ex_iff env_ok_def uuids_ok_def)
  moreover have "ev_fail (pe_script env n) = None" for n
    using assms(1) by (simp add: quiet_def quiet_event_def)
  ultimately show ?thesis
    using assms(4) by (simp add: statement_def Let_def arrive_quiet [OF assms(1)])
qed

lemma query_quiet:
  assumes "quiet env" "env_ok env" "uuids_ok env us" "\<not> pg_aborted s"
  shows "query env us f s = (Inr (f (view s)), tick 1 s)"
  unfolding query_def statement_quiet [OF assms] by simp

lemma uuid_arg_is: "env_ok env \<Longrightarrow> is_uuid u \<Longrightarrow> uuid_arg env u = to_lower u"
  by (simp add: env_ok_def uuid_arg_def)

lemma uuids_ok_simps [simp]: "uuids_ok env []" "uuids_ok env (u # us) \<longleftrightarrow> is_uuid u \<and> uuids_ok env us"
  by (simp_all add: uuids_ok_def)

lemma tick_updates [simp]:
  "(tick n s)\<lparr>pg_own_rows := x\<rparr> = tick n (s\<lparr>pg_own_rows := x\<rparr>)" "(tick n s)\<lparr>pg_own_keys := k\<rparr> = tick n (s\<lparr>pg_own_keys := k\<rparr>)"
  "(tick n s)\<lparr>pg_locks := l\<rparr> = tick n (s\<lparr>pg_locks := l\<rparr>)" "open_tx (tick n s) = tick n (open_tx s)"
  "close_tx (tick n s) = tick n (close_tx s)" "apply_tx (tick n s) = tick n (apply_tx s)"
  by (simp_all add: tick_def open_tx_def close_tx_def apply_tx_def view_def)
lemma open_sel [simp]: "pg_aborted (open_tx s) = pg_aborted s" "pg_own_keys (open_tx s) = pg_own_keys s"
  "same_catalogue (pg_db (open_tx s)) d = same_catalogue (pg_db s) d" by (simp_all add: open_tx_def)

lemma same_catalogue_view [simp]: "same_catalogue (view s) d = same_catalogue (pg_db s) d"
  by (simp add: same_catalogue_iff)

end
