(* ===== verification/Sample.thy ===== *)
theory Sample
  imports Quiet
begin

text \<open>
  A concrete dealership with one alignment rig and one technician, an empty day, and the booking of
  the rig on it, evaluated statement by statement: without a key, with a key, and replayed. These
  runs are the concrete inputs of the witnesses.
\<close>

section \<open>A sample dealership\<close>

definition sample_id :: "char \<Rightarrow> string" where
  "sample_id c = replicate 8 c @ ''-0000-4000-8000-000000000000''"

definition sample_env :: pg_env where
  "sample_env = \<lparr>pe_ts = (\<lambda>n. n div 1000 * 1000), pe_local = UTC, pe_uuid =
    (\<lambda>n. sample_id (CHR ''a'')),
     pe_parse_uuid = (\<lambda>s. if is_uuid s then Some (to_lower s) else None),
     pe_load_location = (\<lambda>s. Some ict), pe_hash = (\<lambda>s. int (length s)), pe_clock =
    (\<lambda>n. 0),
     pe_script = (\<lambda>n. quiet_event)\<rparr>"

definition sample_db :: db where
  "sample_db = \<lparr>db_dealerships = [\<lparr>dlr_id = sample_id (CHR ''d''), dlr_name =
    ''Dealer'', dlr_timezone = ''Asia/Ho_Chi_Minh''\<rparr>],
     db_hours = map (\<lambda>w. \<lparr>hor_dealership = sample_id (CHR ''d''), hor_weekday =
    w, hor_opens_at = 28800000000,
                          hor_closes_at = 61200000000\<rparr>) [1, 2, 3, 4, 5, 6],
     db_service_types = [\<lparr>svr_id = sample_id (CHR ''5''), svr_name =
    ''Alignment'', svr_duration_minutes = 60,
                          svr_required_skill_id = sample_id (CHR ''4''), svr_required_bay_type =
    BayTypeAlignment\<rparr>],
     db_bays = [\<lparr>bar_id = sample_id (CHR ''b''), bar_dealership = sample_id (CHR ''d''), bar_name =
    ''Rig'',
                 bar_type = BayTypeAlignment\<rparr>],
     db_technicians = [\<lparr>ter_id = sample_id (CHR ''7''), ter_dealership =
    sample_id (CHR ''d''), ter_name = ''An''\<rparr>],
     db_technician_skills = [(sample_id (CHR ''7''), sample_id (CHR ''4''))],
     db_customers = [\<lparr>cur_id = sample_id (CHR ''c''), cur_name = ''Mai''\<rparr>],
     db_vehicles = [\<lparr>ver_id = sample_id (CHR ''8''), ver_dealership = sample_id (CHR ''d''),
                     ver_customer = sample_id (CHR ''c''), ver_vin = ''VIN'', ver_model = ''Camry''\<rparr>],
     db_appointments = [], db_keys = Map.empty\<rparr>"

definition sample_pg :: pg where
  "sample_pg = \<lparr>pg_db = sample_db, pg_own_rows = [], pg_own_keys = Map.empty, pg_locks =
    {}, pg_open = False,
     pg_aborted = False, pg_tick = 0\<rparr>"

definition sample_runtime :: "pg runtime" where
  "sample_runtime = \<lparr>rt_Now = (\<lambda>s. go_date 2030 3 4 7 0 0 0 ict), rt_sha256_hex =
    (\<lambda>s. s)\<rparr>"

definition sample_scheduler :: "pg scheduler" where
  "sample_scheduler = New sample_runtime (Repository sample_env) []"

definition sample_request :: "string \<Rightarrow> book_request" where
  "sample_request key = \<lparr>rq_DealershipID = sample_id (CHR ''d''), rq_VehicleID = sample_id (CHR ''8''),
     rq_ServiceTypeID = sample_id (CHR ''5''), rq_StartTime =
    go_date 2030 3 4 9 0 0 0 ict, rq_IdempotencyKey = key\<rparr>"

definition booked :: "string \<Rightarrow> pg \<Rightarrow> (go_error + appointment) \<times> pg" where
  "booked key s = Book sample_runtime sample_scheduler (sample_request key) s"

lemma sample_id_uuid [simp]: "is_hex c \<Longrightarrow> is_uuid (sample_id c)"
  by (simp add: is_uuid_def sample_id_def upt_rec eval_nat_numeral is_hex_def)

lemma sample_hex [simp]:
  "is_hex (CHR ''a'')" "is_hex (CHR ''b'')" "is_hex (CHR ''c'')" "is_hex (CHR ''d'')" "is_hex (CHR ''4'')"
  "is_hex (CHR ''5'')" "is_hex (CHR ''7'')" "is_hex (CHR ''8'')" "is_hex (CHR ''e'')"
  by (simp_all add: is_hex_def)

lemma sample_id_lower [simp]: "lower_char c = c \<Longrightarrow> to_lower (sample_id c) = sample_id c"
  by (simp add: to_lower_def sample_id_def lower_char_def)

lemma sample_lower [simp]:
  "lower_char (CHR ''a'') = CHR ''a''" "lower_char (CHR ''b'') = CHR ''b''" "lower_char (CHR ''c'') = CHR ''c''"
  "lower_char (CHR ''d'') = CHR ''d''" "lower_char (CHR ''4'') = CHR ''4''" "lower_char (CHR ''5'') = CHR ''5''"
  "lower_char (CHR ''7'') = CHR ''7''" "lower_char (CHR ''8'') = CHR ''8''" "lower_char (CHR ''e'') = CHR ''e''"
  by (simp_all add: lower_char_def)

lemma sample_id_eq [simp]: "sample_id c = sample_id e \<longleftrightarrow> c = e"
  by (simp add: sample_id_def eval_nat_numeral)

lemma sample_env_ok: "env_ok sample_env" "quiet sample_env"
  by (simp_all add: env_ok_def sample_env_def quiet_def)

lemma sample_uuid_arg [simp]:
  "is_hex c \<Longrightarrow> lower_char c = c \<Longrightarrow>
    uuid_arg sample_env (sample_id c) = sample_id c"
  by (simp add: uuid_arg_def sample_env_def)

lemma sample_session: "session_ok sample_pg" "idle sample_pg"
  by (simp_all add: session_ok_def db_ok_def no_double_booking_def sample_pg_def sample_db_def view_def
    idle_def)

lemma sample_sel [simp]:
  "sch_repo sample_scheduler = Repository sample_env" "sch_metrics sample_scheduler = noopInstrumentation"
  "sch_policy sample_scheduler = LeastLoaded" "sch_maxAttempts sample_scheduler = 3"
  "sch_now sample_scheduler s = go_date 2030 3 4 7 0 0 0 ict"
  by (simp_all add: sample_scheduler_def New_def sample_runtime_def)

lemma sample_beside: "beside (sch_metrics sample_scheduler)"
proof -
  have "\<exists>x. s = s\<lparr>pg.more := x\<rparr>" for s :: pg by (rule exI [of _ "pg.more s"]) simp
  then show ?thesis by (simp add: beside_def noopInstrumentation_def)
qed

section \<open>Running the code on the sample\<close>

lemma sample_statement [simp]: "uuids_ok sample_env us \<Longrightarrow>
    \<not> pg_aborted s \<Longrightarrow> statement sample_env us run s = run (tick 1 s)"
  by (rule statement_quiet) (simp_all add: sample_env_ok)

lemma sample_query [simp]: "uuids_ok sample_env us \<Longrightarrow> \<not> pg_aborted s \<Longrightarrow>
    query sample_env us f s = (Inr (f (view s)), tick 1 s)"
  by (rule query_quiet) (simp_all add: sample_env_ok)

lemma sample_load [simp]: "pe_load_location sample_env n = Some ict" by (simp add: sample_env_def)

definition sample_dealership :: dealership where
  "sample_dealership = \<lparr>dl_ID = sample_id (CHR ''d''), dl_Name = ''Dealer'', dl_Location = ict,
     dl_Hours = scan_hours Map.empty (db_hours sample_db)\<rparr>"

definition alignment_service :: service_type where
  "alignment_service = service_type_of_row (hd (db_service_types sample_db))"

definition sample_vehicle :: vehicle where
  "sample_vehicle = vehicle_of_row (hd (db_vehicles sample_db))"

definition sample_customer :: customer where
  "sample_customer = customer_of_row (hd (db_customers sample_db))"

lemma sample_dealership_found: "\<not> pg_aborted s \<Longrightarrow>
    same_catalogue (pg_db s) sample_db \<Longrightarrow>
  dealership sample_env (sample_id (CHR ''d'')) s = (Inr sample_dealership, tick 2 s)"
  by (simp add: dealership_def select_by_uuid_def sample_dealership_def same_catalogue_iff) (simp add:
    sample_db_def eval_nat_numeral)

lemma sample_service_found: "\<not> pg_aborted s \<Longrightarrow>
    same_catalogue (pg_db s) sample_db \<Longrightarrow>
  serviceType sample_env (sample_id (CHR ''5'')) s = (Inr alignment_service, tick 1 s)"
  by (simp add: serviceType_def select_by_uuid_def alignment_service_def same_catalogue_iff) (simp add:
    sample_db_def eval_nat_numeral)

lemma sample_vehicle_found: "\<not> pg_aborted s \<Longrightarrow>
    same_catalogue (pg_db s) sample_db \<Longrightarrow>
  vehicleWithOwner sample_env (sample_id (CHR ''d'')) (sample_id (CHR ''8'')) s =
    (Inr (sample_vehicle, sample_customer), tick 1 s)"
  by (simp add: vehicleWithOwner_def vehicle_with_owner_def sample_vehicle_def sample_customer_def
    same_catalogue_iff) (simp add: sample_db_def eval_nat_numeral)

abbreviation sample_start :: gtime where "sample_start \<equiv> go_date 2030 3 4 9 0 0 0 ict"

abbreviation sample_now :: gtime where "sample_now \<equiv> go_date 2030 3 4 7 0 0 0 ict"

abbreviation sample_date :: date where "sample_date \<equiv> \<lparr>d_Year = 2030, d_Month = 3, d_Day =
    4\<rparr>"

lemma sample_times [simp]:
  "t_ns sample_start = 1898820000000000000" "t_ns sample_now = 1898812800000000000"
  "DateOf sample_start ict = sample_date" "t_ns (iv_start (Bounds sample_date ict)) = 1898787600000000000"
  "t_ns (iv_end (Bounds sample_date ict)) = 1898874000000000000"
  by code_simp+

lemma sample_duration [simp]: "st_Duration alignment_service = 3600000000000"
  by (simp add: alignment_service_def sample_db_def service_type_of_row_def catalogue_duration_def
    wrap64_def minute_def second_def)

lemma sample_window: "case Window (dl_Hours sample_dealership) sample_date ict of None \<Rightarrow> False
      | Some w \<Rightarrow> t_ns (w_Open w) \<le> t_ns sample_start \<and>
    t_ns sample_start < t_ns (w_Close w) \<and> t_ns sample_start + 3600000000000 \<le> t_ns (w_Close w)"
proof -
  have h: "dl_Hours sample_dealership 1 = Some \<lparr>OpensAt = 480, ClosesAt = 1020\<rparr>"
    by (simp add: sample_dealership_def sample_db_def minutes_of_time_def trunc_div_def)
  have w: "date_weekday sample_date = 1" by code_simp
  have "t_ns (go_date 2030 3 4 0 480 0 0 ict) \<le> t_ns sample_start" 
     "t_ns sample_start + 3600000000000 \<le> t_ns (go_date 2030 3 4 0 1020 0 0 ict)" by code_simp+
  then show ?thesis by (simp add: Window_def h w)
qed

lemma sample_valid:
  "ValidateBookingTime sample_start (st_Duration alignment_service) sample_now ict (dl_Hours sample_dealership)
     = Inr (NewInterval sample_start (st_Duration alignment_service))"
  using sample_window by (auto simp: ValidateBookingTime_Inr split: option.splits)

definition sample_schedule :: day_schedule where
  "sample_schedule = \<lparr>Technicians = [\<lparr>ts_Technician = \<lparr>tech_ID =
    sample_id (CHR ''7''), tech_Name = ''An'', tech_SkillIDs = [sample_id (CHR ''4'')]\<rparr>,
      ts_Booked = []\<rparr>], Bays = [\<lparr>bs_Bay = \<lparr>bay_ID = sample_id (CHR ''b''), bay_Name =
    ''Rig'', bay_Type = BayTypeAlignment\<rparr>, bs_Booked = []\<rparr>], VehicleBooked = []\<rparr>"

lemma sample_day: "\<not> pg_aborted s \<Longrightarrow>
    same_catalogue (pg_db s) sample_db \<Longrightarrow> db_appointments (pg_db s) = [] \<Longrightarrow>
    pg_own_rows s = [] \<Longrightarrow>
   sq_DealershipID q = sample_id (CHR ''d'') \<Longrightarrow>
    daySchedule sample_env q s = (Inr sample_schedule, tick 3 s)"
  by (simp add: daySchedule_def select_technicians_def select_bays_def select_day_def same_catalogue_iff)
    (simp add: sample_db_def eval_nat_numeral sample_schedule_def bay_of_row_def)

definition sample_assignment :: assignment where "sample_assignment = \<lparr>as_Technician =
    ts_Technician (hd (Technicians sample_schedule)), as_Bay = bs_Bay (hd (Bays sample_schedule))\<rparr>"

lemma sample_assigned: "Assign sample_schedule alignment_service iv LeastLoaded = Inr sample_assignment"
   by (simp add: Assign_def sample_schedule_def alignment_service_def sample_assignment_def
      conflictingFor_def LeastLoaded_eq map_get_def sample_db_def service_type_of_row_def HasSkill_def)

definition sample_row :: appointment_row where
  "sample_row = \<lparr>row_id = sample_id (CHR ''a''), row_dealership = sample_id (CHR ''d''),
      row_vehicle = sample_id (CHR ''8''), row_customer = sample_id (CHR ''c''),
      row_service_type = sample_id (CHR ''5''), row_skill = sample_id (CHR ''4''),
      row_bay_type = BayTypeAlignment, row_technician = sample_id (CHR ''7''),
      row_bay = sample_id (CHR ''b''), row_start = 1898820000000000000,
      row_end = 1898823600000000000, row_status = StatusConfirmed,
      row_created = 0\<rparr>"

definition sample_new :: new_appointment where "sample_new =
    booking_appointment (sample_request []) alignment_service sample_vehicle sample_customer (NewInterval
    sample_start (st_Duration alignment_service))"

lemma sample_new_row: "new_row sample_env (with_assignment sample_new sample_assignment) n = sample_row"
  by (simp add: new_row_def with_assignment_def sample_new_def sample_assignment_def sample_row_def
    sample_schedule_def
     booking_appointment_def sample_request_def sample_vehicle_def sample_customer_def
    alignment_service_def sample_db_def
     service_type_of_row_def vehicle_of_row_def customer_of_row_def NewInterval_def add_duration_def
    timestamptz_def)
     (simp add: sample_env_def catalogue_duration_def wrap64_def minute_def second_def)

definition sample_booked :: appointment where "sample_booked =
    appointment_of_row sample_env ict sample_row (hd (db_customers sample_db))
  (hd (db_vehicles sample_db)) (hd (db_service_types sample_db)) (hd (db_technicians sample_db)) (hd
    (db_bays sample_db))"

lemma sample_appointment_found: "\<not> pg_aborted s \<Longrightarrow>
    same_catalogue (pg_db s) sample_db \<Longrightarrow>
    db_appointments (pg_db s) @ pg_own_rows s = [sample_row] \<Longrightarrow>
   appointment sample_env (sample_id (CHR ''a'')) s = (Inr sample_booked, tick 1 s)"
  by (simp add: appointment_def select_appointment_def select_by_uuid_def same_catalogue_iff
    join_appointment_def sample_booked_def)
   (simp add: sample_db_def sample_row_def)

lemma sample_row_accepted: "same_catalogue (pg_db s) sample_db \<Longrightarrow>
    db_appointments (pg_db s) = [] \<Longrightarrow> pg_own_rows s = [] \<Longrightarrow>
    insert_violation (view s) sample_row = None"
  by (simp add: insert_violation_def foreign_key_violation_def same_catalogue_iff)
   (simp add: sample_db_def sample_row_def)

lemma sample_new_sel [simp]:
  "na_DealershipID sample_new = sample_id (CHR ''d'')" "na_VehicleID sample_new = sample_id (CHR ''8'')"
  "na_CustomerID sample_new = sample_id (CHR ''c'')" "na_ServiceTypeID sample_new = sample_id (CHR ''5'')"
  "na_RequiredSkillID sample_new = sample_id (CHR ''4'')" "tech_ID (as_Technician sample_assignment) =
    sample_id (CHR ''7'')"
  "bay_ID (as_Bay sample_assignment) = sample_id (CHR ''b'')"
  by (simp_all add: sample_new_def sample_assignment_def sample_schedule_def
     booking_appointment_def sample_request_def sample_vehicle_def sample_customer_def
    alignment_service_def sample_db_def
     service_type_of_row_def vehicle_of_row_def customer_of_row_def)

lemma sample_row_id [simp]: "row_id sample_row = sample_id (CHR ''a'')" by (simp add: sample_row_def)

lemma sample_inserts: "\<not> pg_aborted s \<Longrightarrow>
    same_catalogue (pg_db s) sample_db \<Longrightarrow> db_appointments (pg_db s) = [] \<Longrightarrow>
    pg_own_rows s = [] \<Longrightarrow>
   InsertAppointment sample_env (with_assignment sample_new sample_assignment) s =
    (Inr sample_booked, tick 4 (s\<lparr>pg_own_rows := [sample_row]\<rparr>))"
  by (simp add: InsertAppointment_def sample_new_row insert_row_def sample_row_accepted
    sample_appointment_found eval_nat_numeral)

lemma sample_attempt: "\<not> pg_aborted s \<Longrightarrow>
    same_catalogue (pg_db s) sample_db \<Longrightarrow> db_appointments (pg_db s) = [] \<Longrightarrow>
    pg_own_rows s = [] \<Longrightarrow>
  sq_DealershipID q = sample_id (CHR ''d'') \<Longrightarrow>
    sch_policy sch = LeastLoaded \<Longrightarrow> sch_maxAttempts sch = 3 \<Longrightarrow>
  assignAndInsert sch (bookingTx sample_env) q alignment_service sample_new s =
    ((sample_booked, None, False), tick 7 (s\<lparr>pg_own_rows := [sample_row]\<rparr>))"
  by (simp add: assignAndInsert_def attempts.simps [of _ _ _ _ 0] sample_day sample_assigned sample_inserts)

lemma sample_request_sel [simp]:
  "rq_DealershipID (sample_request k) = sample_id (CHR ''d'')" "rq_VehicleID (sample_request k) =
    sample_id (CHR ''8'')"
  "rq_ServiceTypeID (sample_request k) = sample_id (CHR ''5'')" "rq_StartTime (sample_request k) = sample_start"
  "rq_IdempotencyKey (sample_request k) = k"
  by (simp_all add: sample_request_def)

lemma sample_id_not_empty [simp]: "sample_id c \<noteq> []" "[] \<noteq> sample_id c"
  by (simp_all add: sample_id_def)

abbreviation sample_key :: string where "sample_key \<equiv> sample_id (CHR ''e'')"

definition sample_key_row :: key_row where
 "sample_key_row = row_of_record sample_env (outcome_record sample_runtime (sample_request sample_key)
    sample_now sample_booked None)"

lemma sample_booked_id [simp]: "ap_ID sample_booked = sample_id (CHR ''a'')"
  by (simp add: sample_booked_def appointment_of_row_def)

lemma sample_record_sel [simp]:
  "ir_DealershipID (outcome_record sample_runtime (sample_request k) now sample_booked None) =
    sample_id (CHR ''d'')"
  "ir_Key (outcome_record sample_runtime (sample_request k) now sample_booked None) = k"
  "ir_AppointmentID (outcome_record sample_runtime (sample_request k) now sample_booked None) =
    sample_id (CHR ''a'')"
  by (simp_all add: outcome_record_def Let_def)

lemma sample_key_row_ok: "same_catalogue d sample_db \<Longrightarrow>
    db_appointments d = [sample_row] \<Longrightarrow> 
  key_violation d (sample_id (CHR ''d'')) sample_key_row = None"
  by (simp add: key_violation_def sample_key_row_def row_of_record_def same_catalogue_iff)
    (simp add: sample_db_def)

definition empty_day :: "pg \<Rightarrow> bool" where
  "empty_day s \<longleftrightarrow> \<not> pg_aborted s \<and> same_catalogue (pg_db s) sample_db \<and>
    db_appointments (pg_db s) = [] \<and> pg_own_rows s = [] \<and>
     db_keys (pg_db s) = Map.empty \<and> pg_own_keys s = Map.empty"

lemma sample_body_runs:
  assumes "empty_day s" "sq_DealershipID q = sample_id (CHR ''d'')"
  shows "\<exists>n l. book_body sample_runtime sample_scheduler (sample_request []) sample_now sample_date
    q alignment_service sample_new (bookingTx sample_env) s
   = ((None, sample_booked, None), tick n (s\<lparr>pg_locks := l, pg_own_rows := [sample_row]\<rparr>))"
  using assms by (auto simp: book_body_def book_fresh_def LockSchedulingDay_def advisory_lock_def
    sample_attempt empty_day_def)

lemma sample_body_records: assumes "empty_day s" "sq_DealershipID q = sample_id (CHR ''d'')" 
  shows "\<exists>n l. book_body sample_runtime sample_scheduler (sample_request sample_key) sample_now
    sample_date q alignment_service sample_new (bookingTx sample_env) s
   = ((None, sample_booked, None), tick n (s\<lparr>pg_locks := l, pg_own_rows := [sample_row],
    pg_own_keys := [(sample_id (CHR ''d''), sample_key) \<mapsto> sample_key_row]\<rparr>))"
  using assms by (auto simp: book_body_def LockIdempotencyKey_def FindIdempotencyRecord_def select_key_def
    book_fresh_def LockSchedulingDay_def
    SaveIdempotencyRecord_def upsert_key_def advisory_lock_def sample_attempt empty_day_def
    sample_key_row_ok sample_key_row_def [symmetric])

lemma sample_commit: "\<not> pg_aborted s \<Longrightarrow>
    commit_tx sample_env s = (None, tick 1 (apply_tx s))"
  using sample_env_ok(2) by (simp add: commit_tx_def Let_def arrive_quiet) (simp add: quiet_def quiet_event_def)

definition sample_after :: "(string \<times> string \<rightharpoonup> key_row) \<Rightarrow> pg" where
  "sample_after keys =
    sample_pg\<lparr>pg_db := sample_db\<lparr>db_appointments := [sample_row], db_keys := keys\<rparr>\<rparr>"

lemma sample_pg_sel [simp]: "pg_db sample_pg = sample_db" "pg_aborted sample_pg =
    False" "pg_own_rows sample_pg = []" 
  "pg_own_keys sample_pg = Map.empty" "pg_locks sample_pg = {}" "pg_open sample_pg = False"
 by (simp_all add: sample_pg_def)

lemma sample_location [simp]: "dl_Location sample_dealership = ict" by (simp add: sample_dealership_def)

abbreviation sample_interval :: interval where "sample_interval \<equiv> NewInterval sample_start 3600000000000"

lemma sample_interval_start [simp]: "iv_start sample_interval = sample_start" by (simp add: NewInterval_def)

lemma sample_lookups:
  assumes "\<not> pg_aborted s" "same_catalogue (pg_db s) sample_db" 
  shows "book_in_tx sample_runtime sample_scheduler (sample_request k) s =
   (case InTx sample_env (book_body sample_runtime sample_scheduler (sample_request k) sample_now sample_date 
       (booking_query (sample_request k) sample_dealership sample_vehicle sample_interval)
       alignment_service sample_new) (tick 4 s) of ((r, appt, out), t) \<Rightarrow> (tx_result r appt out, t))"
proof -
  have new: "booking_appointment (sample_request k) alignment_service sample_vehicle sample_customer
    sample_interval = sample_new"
    by (simp add: booking_appointment_def sample_new_def)
  show ?thesis using assms sample_valid
    by (simp add: book_in_tx_def sample_dealership_found sample_service_found sample_vehicle_found Let_def
    new [symmetric] booking_appointment_def booking_query_def tx_result_def
       split: prod.splits option.splits)
qed

lemma booked_eq: "booked k s = book_in_tx sample_runtime sample_scheduler (sample_request k) s"
  by (simp add: booked_def Book_def noopInstrumentation_def Let_def split: prod.splits)

lemma empty_day_open [simp]: "empty_day (open_tx s) = empty_day s" "empty_day (tick n s) = empty_day s"
  by (simp_all add: empty_day_def open_tx_def)

abbreviation sample_query :: "string \<Rightarrow> schedule_query" where
  "sample_query k \<equiv> booking_query (sample_request k) sample_dealership sample_vehicle sample_interval"

abbreviation sample_body :: "string \<Rightarrow> pg tx_body" where
  "sample_body k \<equiv> book_body sample_runtime sample_scheduler (sample_request k) sample_now
    sample_date (sample_query k) alignment_service sample_new"

lemma sample_query_dealership: "sq_DealershipID (sample_query k) = sample_id (CHR ''d'')"
  by (simp add: booking_query_def)

lemma sample_run:
  assumes "\<not> pg_aborted s" "same_catalogue (pg_db s) sample_db" "\<not> pg_aborted u"
    and "sample_body k (bookingTx sample_env) (tick 5 (open_tx s)) = ((None, sample_booked, None), u)"
  shows "booked k s = (Inr sample_booked, tick 1 (apply_tx u))"
  using assms by (simp add: booked_def Book_def noopInstrumentation_def sample_lookups InTx_def sample_commit)

lemma sample_applied:
  "apply_tx ((open_tx sample_pg)\<lparr>pg_locks := l, pg_own_rows := [sample_row],
    pg_own_keys := k\<rparr>) = sample_after k"
  "apply_tx ((open_tx sample_pg)\<lparr>pg_locks := l, pg_own_rows := [sample_row]\<rparr>) =
    sample_after Map.empty"
  "apply_tx ((open_tx (sample_after k))\<lparr>pg_locks := l\<rparr>) = sample_after k"
  by (simp_all add: apply_tx_def close_tx_def open_tx_def sample_after_def view_def sample_pg_def)
    (simp_all add: sample_db_def)

lemma sample_empty: "empty_day sample_pg" "\<not> pg_aborted sample_pg" "same_catalogue (pg_db sample_pg)
    sample_db"
  by (simp_all add: empty_day_def same_catalogue_iff) (simp_all add: sample_db_def)

lemma sample_books: "\<exists>n. booked [] sample_pg = (Inr sample_booked, tick n (sample_after Map.empty))"
proof -
  have "empty_day (tick 5 (open_tx sample_pg))" using sample_empty(1) by simp
  from sample_body_runs [OF this sample_query_dealership [of "[]"]]
  show ?thesis using sample_run [of sample_pg _ "[]", OF sample_empty(2,3)] by (fastforce simp: sample_applied)
qed

abbreviation sample_recorded :: pg where "sample_recorded \<equiv> sample_after [(sample_id (CHR ''d''),
    sample_key) \<mapsto> sample_key_row]"

lemma sample_books_key: "\<exists>n. booked sample_key sample_pg = (Inr sample_booked, tick n sample_recorded)"
proof -
  have "empty_day (tick 5 (open_tx sample_pg))" using sample_empty(1) by simp
  from sample_body_records [OF this sample_query_dealership [of "sample_key"]]
  show ?thesis using sample_run [of sample_pg _ "sample_key",
    OF sample_empty(2,3)] by (fastforce simp: sample_applied)
qed

lemma sample_record [simp]:
  "ir_AppointmentID (record_of_row sample_env d k sample_key_row) = sample_id (CHR ''a'')"
  "ir_Fingerprint (record_of_row sample_env d k sample_key_row) =
    fingerprint sample_runtime (sample_request sample_key)"
  by (simp_all add: record_of_row_def sample_key_row_def row_of_record_def outcome_record_def)

lemma sample_live: "timestamptz sample_env sample_now < kr_expires sample_key_row"
  by (simp add: sample_key_row_def row_of_record_def outcome_record_def timestamptz_def add_duration_def)
    (simp add: sample_env_def IdempotencyRetention_def hour_def minute_def second_def)

lemma sample_after_sel [simp]: "\<not> pg_aborted (sample_after k)" "same_catalogue (pg_db (sample_after
    k)) sample_db"
   "db_appointments (pg_db (sample_after k)) = [sample_row]" "pg_own_rows (sample_after k) =
    []" "pg_own_keys (sample_after k) = Map.empty"
    "db_keys (pg_db (sample_after k)) = k"
     by (simp_all add: sample_after_def same_catalogue_iff)

lemma sample_replays: "\<exists>n. booked sample_key (tick m sample_recorded) =
    (Inr sample_booked, tick n sample_recorded)"
proof -
  have "\<exists>n l. sample_body sample_key (bookingTx sample_env) (tick 5 (open_tx (tick m sample_recorded)))
     = ((None, sample_booked, None), tick n ((open_tx sample_recorded)\<lparr>pg_locks := l\<rparr>))"
    using sample_live
    by (auto simp: book_body_def LockIdempotencyKey_def FindIdempotencyRecord_def select_key_def
    advisory_lock_def replay_def sample_appointment_found)
  then show ?thesis using sample_run [of "tick m sample_recorded" _ "sample_key"]
    by (fastforce simp: sample_applied)
qed

lemma tick_0 [simp]: "tick 0 s = s" by (simp add: tick_def)

lemma sample_day_free:
  "\<not> pg_aborted s \<Longrightarrow> same_catalogue (pg_db s) sample_db \<Longrightarrow>
    select_day sample_env q (view s) = [] \<Longrightarrow>
   sq_DealershipID q = sample_id (CHR ''d'') \<Longrightarrow>
    daySchedule sample_env q s = (Inr sample_schedule, tick 3 s)"
  by (simp add: daySchedule_def select_technicians_def select_bays_def same_catalogue_iff)
    (simp add: sample_db_def eval_nat_numeral sample_schedule_def bay_of_row_def)

section \<open>The day is full\<close>

definition taken_row :: appointment_row where
  "taken_row = sample_row\<lparr>row_id := sample_id (CHR ''b'')\<rparr>"

definition taken_pg :: pg where
  "taken_pg = sample_pg\<lparr>pg_db := sample_db\<lparr>db_appointments := [taken_row]\<rparr>\<rparr>"

lemma taken_sel [simp]:
  "\<not> pg_aborted taken_pg" "same_catalogue (pg_db taken_pg) sample_db"
  "db_appointments (pg_db taken_pg) = [taken_row]" "pg_own_rows taken_pg = []" "pg_own_keys taken_pg = Map.empty"
  by (simp_all add: taken_pg_def same_catalogue_iff)

lemma sample_row_fits: "foreign_key_violation sample_db sample_row = None"
proof -
  have "insert_violation (view sample_pg) sample_row = None"
    by (rule sample_row_accepted) (simp_all add: sample_pg_def sample_db_def same_catalogue_iff)
  then have "foreign_key_violation (view sample_pg) sample_row = None" by (simp add: insert_violation_None)
  moreover have "same_catalogue (view sample_pg) sample_db" by (simp add: sample_pg_def same_catalogue_iff)
  ultimately show ?thesis using foreign_key_violation_catalogue [of "view sample_pg" sample_db sample_row] by simp
qed

text \<open>A store with one row that differs from the sample row in its identifier and times.\<close>

lemma one_row_session:
  assumes "r = sample_row\<lparr>row_id := i, row_start := a, row_end := b\<rparr>" "a < b"
    and "s = sample_pg\<lparr>pg_db := sample_db\<lparr>db_appointments := [r]\<rparr>\<rparr>"
  shows "session_ok s" "idle s"
proof -
  have "row_dealership r = row_dealership sample_row" "row_customer r = row_customer sample_row"
    "row_service_type r = row_service_type sample_row" "row_vehicle r = row_vehicle sample_row"
    "row_technician r = row_technician sample_row" "row_bay r = row_bay sample_row"
    "row_skill r = row_skill sample_row" "row_bay_type r = row_bay_type sample_row"
    unfolding assms(1) by simp_all
  then have "foreign_key_violation d r = foreign_key_violation d sample_row" for d
    unfolding foreign_key_violation_def by (simp only:)
  moreover have "row_start r < row_end r" using assms(1,2) by simp
  ultimately have "row_ok (sample_db\<lparr>db_appointments := [r]\<rparr>) r" using sample_row_fits by (simp add: row_ok_def)
  moreover have "db_keys sample_db = Map.empty" by (simp add: sample_db_def)
  ultimately have "db_ok (sample_db\<lparr>db_appointments := [r]\<rparr>)" by (simp add: db_ok_def no_double_booking_def)
  then show "session_ok s" by (simp add: session_ok_def view_def assms(3) sample_pg_def)
  show "idle s" by (simp add: idle_def assms(3) sample_pg_def)
qed

lemma taken_session: "session_ok taken_pg" "idle taken_pg"
proof -
  have "taken_row = sample_row\<lparr>row_id := sample_id (CHR ''b''), row_start := row_start sample_row, row_end := row_end sample_row\<rparr>"
    by (simp add: taken_row_def)
  note one = one_row_session [OF this _ taken_pg_def]
  show "session_ok taken_pg" "idle taken_pg" by (rule one, simp add: sample_row_def)+
qed

lemma taken_applied: "apply_tx ((open_tx taken_pg)\<lparr>pg_locks := l\<rparr>) = taken_pg"
  by (simp add: apply_tx_def close_tx_def open_tx_def view_def taken_pg_def sample_pg_def)

definition full_schedule :: day_schedule where
  "full_schedule = (let iv = row_interval sample_env taken_row in
     \<lparr>Technicians = map (\<lambda>t. t\<lparr>ts_Booked := [iv]\<rparr>) (Technicians sample_schedule),
      Bays = map (\<lambda>b. b\<lparr>bs_Booked := [iv]\<rparr>) (Bays sample_schedule), VehicleBooked =
    [iv]\<rparr>)"

lemma taken_row_scheduled:
  "select_day sample_env (sample_query k) d = [taken_row]" if "db_appointments d = [taken_row]"
  using that by (simp add: select_day_def booking_query_def taken_row_def sample_row_def timestamptz_def)
    (simp add: sample_env_def)

lemma sample_day_full:
  assumes "\<not> pg_aborted s" "same_catalogue (pg_db s) sample_db" "db_appointments (pg_db s) =
    [taken_row]" "pg_own_rows s = []"
  shows "daySchedule sample_env (sample_query k) s = (Inr full_schedule, tick 3 s)"
proof -
  have sel: "row_bay taken_row = sample_id (CHR ''b'')" "row_technician taken_row = sample_id (CHR ''7'')"
    "row_vehicle taken_row = sample_id (CHR ''8'')" "sq_VehicleID (sample_query k) = sample_id (CHR ''8'')"
    by (simp_all add: taken_row_def sample_row_def booking_query_def sample_vehicle_def vehicle_of_row_def sample_db_def)
  show ?thesis using assms
    by (simp add: daySchedule_def select_technicians_def select_bays_def same_catalogue_iff
    taken_row_scheduled sample_query_dealership)
     (simp add: sample_db_def eval_nat_numeral full_schedule_def sample_schedule_def bay_of_row_def
    book_at_def sel)
qed

lemma full_rejects: "\<exists>e. Assign full_schedule alignment_service sample_interval LeastLoaded =
    Inl (EDomain e)"
proof -
  have o': "Overlaps sample_interval (row_interval sample_env taken_row)"
    by (simp add: Overlaps_def row_interval_def taken_row_def sample_row_def scanned_time_def NewInterval_def
    add_duration_def before_def)
  show ?thesis
    by (simp add: Assign_def full_schedule_def Let_def sample_schedule_def alignment_service_def
    sample_db_def service_type_of_row_def
      HasSkill_def o' conflictingFor_def)
qed

lemma na_interval: "na_Interval sample_new =
    sample_interval" by (simp add: sample_new_def booking_appointment_def)

lemma sample_tick_run:
  assumes "\<not> pg_aborted s" "same_catalogue (pg_db s) sample_db" "\<not> pg_aborted u"
    and "sample_body k (bookingTx sample_env) (tick 5 (open_tx s)) = ((None, appt, Some e), u)"
  shows "booked k s = (Inl e, tick 1 (apply_tx u))"
  using assms by (simp add: booked_def Book_def noopInstrumentation_def sample_lookups InTx_def sample_commit
    tx_result_def)

lemma sample_rejects: "\<exists>e n. booked [] taken_pg = (Inl (EDomain e), tick n taken_pg)"
proof -
  obtain e where e: "Assign full_schedule alignment_service sample_interval LeastLoaded = Inl (EDomain e)"
    using full_rejects by blast
  have "\<exists>n l. sample_body [] (bookingTx sample_env) (tick 5 (open_tx taken_pg))
     = ((None, zero_appointment, Some (EDomain e)), tick n ((open_tx taken_pg)\<lparr>pg_locks := l\<rparr>))"
    by (auto simp: book_body_def book_fresh_def LockSchedulingDay_def advisory_lock_def assignAndInsert_def
        attempts.simps [of _ _ _ _ 0] sample_day_full e na_interval)
  then show ?thesis using sample_tick_run [of taken_pg _ "[]" zero_appointment "EDomain e"]
    by (fastforce simp: taken_applied)
qed

section \<open>An appointment that the day does not show\<close>

definition overnight_row :: appointment_row where
  "overnight_row = sample_row\<lparr>row_id := sample_id (CHR ''b''), row_start := 1898776800000000000,
     row_end := 1898821800000000000\<rparr>"

definition overnight_pg :: pg where
  "overnight_pg = sample_pg\<lparr>pg_db := sample_db\<lparr>db_appointments := [overnight_row]\<rparr>\<rparr>"

lemma overnight_sel [simp]: "\<not> pg_aborted overnight_pg" "same_catalogue (pg_db overnight_pg) sample_db"
   "db_appointments (pg_db overnight_pg) = [overnight_row]" "pg_own_rows overnight_pg =
    []" "pg_own_keys overnight_pg = Map.empty"
    "db_keys (pg_db overnight_pg) = Map.empty"
     by (simp_all add: overnight_pg_def same_catalogue_iff sample_db_def)

lemma overnight_free: "db_appointments d = [overnight_row] \<Longrightarrow>
    select_day sample_env (sample_query k) d = []"
  by (simp add: select_day_def booking_query_def overnight_row_def sample_row_def timestamptz_def)
    (simp add: sample_env_def)

lemma overnight_session: "session_ok overnight_pg" "idle overnight_pg"
proof -
  have "overnight_row = sample_row\<lparr>row_id := sample_id (CHR ''b''), row_start := 1898776800000000000,
      row_end := 1898821800000000000\<rparr>"
    by (simp add: overnight_row_def)
  note one = one_row_session [OF this _ overnight_pg_def]
  show "session_ok overnight_pg" "idle overnight_pg" by (rule one, simp)+
qed

lemma overnight_conflict: "same_catalogue (pg_db s) sample_db \<Longrightarrow>
    db_appointments (pg_db s) = [overnight_row] \<Longrightarrow> pg_own_rows s = [] \<Longrightarrow>
  insert_violation (view s) sample_row = Some (pg_error_of ''23P01'' ConstraintBayOverlap)"
  by (simp add: insert_violation_def overnight_row_def excluded_def ranges_overlap_def)
   (simp add: sample_row_def)

lemma tick_aborted [simp]: "(tick n s)\<lparr>pg_aborted := b\<rparr> =
    tick n (s\<lparr>pg_aborted := b\<rparr>)" "pg_open (open_tx s)" "pg_open (tick n s) = pg_open s"
  by (simp_all add: tick_def open_tx_def)

lemma sample_savepoint: "rollback_savepoint sample_env s = tick 1 (s\<lparr>pg_aborted := False\<rparr>)"
  using sample_env_ok(2) by (simp add: rollback_savepoint_def Let_def arrive_quiet) (simp add: quiet_def
    quiet_event_def)

lemma overnight_insert:
  assumes "\<not> pg_aborted s" "same_catalogue (pg_db s) sample_db" "db_appointments (pg_db s) =
    [overnight_row]" "pg_own_rows s = []"
  shows "\<exists>e. error_is e ELostRace \<and>
    InsertAppointment sample_env (with_assignment sample_new sample_assignment) s = (Inl e, tick 3 s)"
proof -
  have same: "s\<lparr>pg_aborted := False\<rparr> = s" using assms(1) by simp
  show ?thesis using assms
   by (simp add: InsertAppointment_def sample_new_row insert_row_def overnight_conflict sample_savepoint
    mapInsertError_def pg_error_of_def
     ConstraintBayOverlap_def eval_nat_numeral) (simp only: same)
qed

lemma sample_with_assignment [simp]: "with_assignment (with_assignment sample_new sample_assignment)
    sample_assignment = with_assignment sample_new sample_assignment"
  by (simp add: with_assignment_def)

lemma na_interval_assigned [simp]: "na_Interval (with_assignment na a) =
    na_Interval na" by (simp add: with_assignment_def)

lemma sample_qualified: "qualified_resources sample_schedule alignment_service = 1"
  by (simp add: qualified_resources_def sample_schedule_def alignment_service_def sample_db_def
    service_type_of_row_def HasSkill_def)

lemma overnight_attempts:
  assumes "\<not> pg_aborted s" "same_catalogue (pg_db s) sample_db" "db_appointments (pg_db s) =
    [overnight_row]" "pg_own_rows s = []"
  shows "\<exists>n. assignAndInsert sample_scheduler (bookingTx sample_env) (sample_query k)
    alignment_service sample_new s =
     ((zero_appointment, Some (EDomain Contention), True), tick n s)"
proof -
  note day = sample_day_free [OF _ _ overnight_free sample_query_dealership]
  have lost: "\<exists>e. error_is e ELostRace \<and>
    InsertAppointment sample_env (with_assignment sample_new sample_assignment) (tick m s) =
    (Inl e, tick (3 + m) s)" for m
    using overnight_insert [of "tick m s"] assms by (simp add: add.commute)
  define e where "e m = (SOME e. error_is e ELostRace \<and>
    InsertAppointment sample_env (with_assignment sample_new sample_assignment) (tick m s) =
    (Inl e, tick (3 + m) s))" for m
  have e: "error_is (e m) ELostRace" "InsertAppointment sample_env (with_assignment sample_new
    sample_assignment) (tick m s) = (Inl (e m), tick (3 + m) s)" for m
    using someI_ex [OF lost [of m]] by (simp_all add: e_def)
  show ?thesis using assms
    by (auto simp: assignAndInsert_def attempts.simps exhausted_def day sample_assigned sample_qualified e)
qed

lemma overnight_run: "\<exists>n. booked sample_key overnight_pg =
    (Inl (EDomain Contention), tick n overnight_pg)"
proof -
  have day: "\<exists>n. assignAndInsert sample_scheduler (bookingTx sample_env) (sample_query sample_key)
    alignment_service sample_new
       (tick m ((open_tx overnight_pg)\<lparr>pg_locks := l\<rparr>)) =
    ((zero_appointment, Some (EDomain Contention), True),
    tick n ((open_tx overnight_pg)\<lparr>pg_locks := l\<rparr>))" for m l
    using overnight_attempts [of "tick m ((open_tx overnight_pg)\<lparr>pg_locks := l\<rparr>)" sample_key]
    by (auto simp: open_tx_def)
  have close: "apply_tx ((open_tx overnight_pg)\<lparr>pg_locks := l\<rparr>) = overnight_pg" for l
    by (simp add: apply_tx_def close_tx_def open_tx_def view_def overnight_pg_def sample_pg_def)
  have "\<exists>n l. sample_body sample_key (bookingTx sample_env) (tick 5 (open_tx overnight_pg))
     = ((None, zero_appointment, Some (EDomain Contention)),
    tick n ((open_tx overnight_pg)\<lparr>pg_locks := l\<rparr>))"
  proof -
    obtain l where l: "LockIdempotencyKey sample_env (sample_id (CHR ''d'')) sample_key (tick 5 (open_tx
    overnight_pg)) = (None, tick 6 ((open_tx overnight_pg)\<lparr>pg_locks := l\<rparr>))"
      by (auto simp: LockIdempotencyKey_def advisory_lock_def)
    have f: "FindIdempotencyRecord sample_env (sample_id (CHR ''d'')) sample_key sample_now (tick 6 ((open_tx
    overnight_pg)\<lparr>pg_locks := l\<rparr>)) =
       (Inr None, tick 7 ((open_tx overnight_pg)\<lparr>pg_locks := l\<rparr>))"
      by (simp add: FindIdempotencyRecord_def select_key_def)
    obtain l' where l': "LockSchedulingDay sample_env (sample_id (CHR ''d'')) sample_date (tick 7 ((open_tx
    overnight_pg)\<lparr>pg_locks := l\<rparr>)) =
    (None, tick 8 ((open_tx overnight_pg)\<lparr>pg_locks := l'\<rparr>))"
      by (auto simp: LockSchedulingDay_def advisory_lock_def)
    obtain n where n: "assignAndInsert sample_scheduler (bookingTx sample_env) (sample_query sample_key)
    alignment_service sample_new
       (tick 8 ((open_tx overnight_pg)\<lparr>pg_locks := l'\<rparr>)) =
    ((zero_appointment, Some (EDomain Contention), True),
    tick n ((open_tx overnight_pg)\<lparr>pg_locks := l'\<rparr>))"
      using day by blast
    show ?thesis by (auto simp: book_body_def book_fresh_def l f l' n)
  qed
  then show ?thesis using sample_tick_run [of overnight_pg _ sample_key zero_appointment "EDomain Contention"]
    by (fastforce simp: close)
qed


lemma sample_scripts: "foreign_script sample_env" "keyless_script sample_env" "lossless sample_env"
  using quiet_scripts [OF sample_env_ok(2)] by blast+

end
