(* ===== verification/Guarantees.thy ===== *)
theory Guarantees
  imports Sample
begin

text \<open>
  The guarantees of the booking service over its repository, for every script of concurrent
  activity and failures: constraints (INV-1 to INV-5, INV-7), durability, exactly one appointment
  for a confirmed booking and none for a failed one (a lost acknowledgement of its commit excepted), and
  CONTENTION never recorded.
\<close>

lemma observe_simps [simp]:
  "pg_db (s\<lparr>pg.more := x\<rparr>) = pg_db s" "idle (s\<lparr>pg.more := x\<rparr>) = idle s"
  "session_ok (s\<lparr>pg.more := x\<rparr>) = session_ok s" "pg_tick (s\<lparr>pg.more := x\<rparr>) = pg_tick s"
  by (simp_all add: idle_def session_ok_def)

lemma adds_observe [simp]:
  "adds_nothing env (s\<lparr>pg.more := x\<rparr>) t = adds_nothing env s t"
  "adds_nothing env s (t\<lparr>pg.more := x\<rparr>) = adds_nothing env s t"
  "adds_row env (s\<lparr>pg.more := x\<rparr>) t r = adds_row env s t r"
  "adds_row env s (t\<lparr>pg.more := x\<rparr>) r = adds_row env s t r"
  by (simp_all add: adds_nothing_def adds_row_def)

lemma unacknowledged_observe [simp]:
  "commit_unacknowledged env e (s\<lparr>pg.more := x\<rparr>) t = commit_unacknowledged env e s t"
  "commit_unacknowledged env e s (t\<lparr>pg.more := x\<rparr>) = commit_unacknowledged env e s t"
  by (simp_all add: commit_unacknowledged_def)

text \<open>A booking that succeeds committed its transaction, begun after the lookups.\<close>

lemma book_in_tx_success:
  assumes ok: "session_ok s" and idle: "idle s" and sch: "sch_repo sch = Repository env"
    and b: "book_in_tx rt sch req s = (Inr appt, t)"
  obtains u day q st na where "tx_steps env s u" "session_ok u" "idle u"
    "InTx env (book_body rt sch req (sch_now sch u) day q st na) u = ((None, appt, None), t)"
proof -
  from b show ?thesis
  proof (cases rule: book_in_tx_cases)
    case (in_tx d s1 st s2 v c s3 iv r appt' out)
    note l = in_tx(1-3) [unfolded sch Repository_sel]
    have steps: "tx_steps env s s3"
      using lookup_steps(1) [OF l(1)] lookup_steps(2) [OF l(2)] lookup_steps(3) [OF l(3)] by (meson rtranclp_trans)
    have idle3: "idle s3"
      by (rule idle_vehicleWithOwner [OF idle_serviceType [OF idle_dealership [OF idle l(1)] l(2)] l(3)])
    have "r = None" "out = None" "appt' = appt"
      using in_tx(6) by (metis tx_result_simps)+
    then show ?thesis
      using that [OF steps session_ok_steps [OF steps ok] idle3] in_tx(5) by (simp add: sch)
  qed simp_all
qed

section \<open>Constraints and durability\<close>

text \<open>Whatever other sessions and failures do, a booking leaves a database in which no two CONFIRMED
  appointments share a bay, a technician or a vehicle at one time (INV-1 to INV-3), and every
  appointment ends after it starts and satisfies every foreign key: skill, bay type and dealership
  (INV-4, INV-5, INV-7).\<close>

lemma booking_keeps_constraints:
  assumes "sch_repo sch = Repository env" "beside (sch_metrics sch)" "session_ok s" "Book rt sch req s = (res, t)"
  shows "(\<forall>i j. i < j \<longrightarrow> j < length (db_appointments (pg_db t)) \<longrightarrow>
      \<not> double_booked (db_appointments (pg_db t) ! i) (db_appointments (pg_db t) ! j)) \<and>
    (\<forall>r \<in> set (db_appointments (pg_db t)). row_start r < row_end r \<and> foreign_key_violation (pg_db t) r = None)"
proof -
  have "ok_kept s t" by (rule ok.session_steps_R [OF Book_steps [OF assms(1,2,4)]])
  then have "db_ok (pg_db t)" using assms(3) by (simp add: ok_kept_def session_ok_def)
  then show ?thesis
    by (auto simp: db_ok_def no_double_booking_def sorted_wrt_iff_nth_less row_ok_def)
qed

lemma booking_keeps_constraints_witness:
  "db_appointments (pg_db (snd (booked [] sample_pg))) = [sample_row] \<and>
    row_start sample_row < row_end sample_row \<and>
   foreign_key_violation (pg_db (snd (booked [] sample_pg))) sample_row = None"
proof -
  obtain n where n: "booked [] sample_pg =
    (Inr sample_booked, tick n (sample_after Map.empty))" using sample_books ..
  then show ?thesis
    using booking_keeps_constraints [OF sample_sel(1) sample_beside sample_session(1) n [unfolded
    booked_def]] by simp
qed

text \<open>C13: an appointment that is committed stays: it is there after any booking, unchanged but for a
  cancellation, and the catalogue (dealerships, services, technicians, bays, vehicles) is unchanged.\<close>

theorem booking_keeps_committed_rows:
  assumes "sch_repo sch = Repository env" "beside (sch_metrics sch)" "Book rt sch req s = (res, t)"
  shows "(\<forall>r \<in> set (db_appointments (pg_db s)). \<exists>r' \<in> set (db_appointments (pg_db t)). cancelled_or_same r r') \<and>
    same_catalogue (pg_db s) (pg_db t)"
  using rows.session_steps_R [OF Book_steps [OF assms]] session_frame [OF Book_steps [OF assms]]
  by (simp add: rows_kept_def)

theorem booking_keeps_committed_rows_witness:
  "\<exists>r' \<in> set (db_appointments (pg_db (snd (booked [] taken_pg)))).
    cancelled_or_same taken_row r'"
proof -
  obtain e n where n: "booked [] taken_pg = (Inl (EDomain e), tick n taken_pg)"
    using sample_rejects by blast
  then show ?thesis
    using booking_keeps_committed_rows [OF sample_sel(1) sample_beside n [unfolded booked_def]] n by simp
qed

section \<open>What a booking writes\<close>

text \<open>C8: a confirmed booking without a key has committed exactly one new appointment: CONFIRMED, for the
  requested dealership and service type, from the requested start for the duration of the catalogue
  (BR-8), and it is the appointment returned.\<close>

theorem confirmed_booking_adds_one_row:
  assumes "env_ok env" "foreign_script env" "session_ok s" "idle s"
    and "sch_repo sch = Repository env" "beside (sch_metrics sch)" "rq_IdempotencyKey req = []"
    and "Book rt sch req s = (Inr appt, t)"
  shows "\<exists>r. \<exists>row \<in> set (db_service_types (pg_db s)). adds_row env s t r \<and> appointment_matches appt r \<and>
    svr_id row = uuid_arg env (rq_ServiceTypeID req) \<and> scheduled env req (service_type_of_row row) r"
proof -
  obtain x y u where b: "book_in_tx rt sch req (s\<lparr>pg.more := x\<rparr>) = (Inr appt, u)" "t = u\<lparr>pg.more := y\<rparr>"
    using Book_cases [OF assms(8,6)] by blast
  show ?thesis
    using book_in_tx_adds(3) [OF assms(1,2) _ _ assms(5) b(1)] assms(3,4,7) b(2) by auto
qed

theorem confirmed_booking_adds_one_row_witness:
  "\<exists>r. adds_row sample_env sample_pg (snd (booked [] sample_pg)) r \<and>
    appointment_matches sample_booked r \<and>
     scheduled sample_env (sample_request []) alignment_service r"
proof -
  obtain n where n: "booked [] sample_pg =
    (Inr sample_booked, tick n (sample_after Map.empty))" using sample_books ..
  show ?thesis
    using confirmed_booking_adds_one_row [OF sample_env_ok(1) sample_scripts(1) sample_session sample_sel(1)
    sample_beside _ n [unfolded booked_def]]
    by (fastforce simp: n alignment_service_def sample_db_def)
qed

text \<open>C9: a booking that returns an error has added no appointment of its own, whatever other sessions and
  failures do, with one exception that no client of PostgreSQL can rule out: a COMMIT that was applied
  and whose acknowledgement was lost. Then one appointment was added, and the error is one of the
  driver: a booking that ends in an error of the domain has never added one.\<close>

theorem rejected_booking_adds_nothing:
  assumes "env_ok env" "foreign_script env" "session_ok s" "idle s"
    and "sch_repo sch = Repository env" "beside (sch_metrics sch)"
    and "Book rt sch req s = (Inl err, t)"
  shows "adds_nothing env s t \<or>
    AsError err = None \<and> (\<exists>n. ev_lost_ack (pe_script env n)) \<and> (\<exists>r. adds_row env s t r)"
proof -
  obtain x y u where b: "book_in_tx rt sch req (s\<lparr>pg.more := x\<rparr>) = (Inl err, u)" "t = u\<lparr>pg.more := y\<rparr>"
    using Book_cases [OF assms(7,6)] by blast
  show ?thesis
    using book_in_tx_adds(2) [OF assms(1,2) _ _ assms(5) b(1) refl] assms(3,4) b(2)
    by (simp add: commit_unacknowledged_def)
qed

theorem rejected_booking_adds_nothing_witness:
  "\<exists>e. fst (booked [] taken_pg) = Inl e \<and>
    adds_nothing sample_env taken_pg (snd (booked [] taken_pg))"
proof -
  obtain e n where n: "booked [] taken_pg = (Inl (EDomain e), tick n taken_pg)"
    using sample_rejects by blast
  then show ?thesis
    using rejected_booking_adds_nothing [OF sample_env_ok(1) sample_scripts(1) _ _ sample_sel(1)
    sample_beside n [unfolded booked_def]]
      taken_session n by simp
qed

section \<open>Idempotency\<close>

text \<open>C14: a booking that ends in CONTENTION leaves every stored idempotency record as it was: the code is a
  fact about timing and is never remembered.\<close>

theorem contention_is_not_recorded:
  assumes "env_ok env" "keyless_script env" "session_ok s" "idle s" "lossless env"
    and "sch_repo sch = Repository env" "beside (sch_metrics sch)"
    and "Book rt sch req s = (Inl err, t)" "CodeOf err = CodeContention"
  shows "db_keys (pg_db t) = db_keys (pg_db s)"
proof -
  obtain x y u where b: "book_in_tx rt sch req (s\<lparr>pg.more := x\<rparr>) = (Inl err, u)" "t = u\<lparr>pg.more := y\<rparr>"
    using Book_cases [OF assms(8,7)] by blast
  have tx: "db_keys (pg_db v) = db_keys (pg_db (s\<lparr>pg.more := x\<rparr>))" if "tx_steps env (s\<lparr>pg.more := x\<rparr>) v" for v
    by (rule keys_steps [OF assms(2) that])
  note chain = rtranclp_trans [of "tx_step env" "s\<lparr>pg.more := x\<rparr>"]
  from b(1) have "db_keys (pg_db u) = db_keys (pg_db s)"
  proof (cases rule: book_in_tx_cases)
    case (no_dealership e)
    note l = no_dealership(1) [unfolded assms(6) Repository_sel]
    show ?thesis using tx [OF lookup_steps(1) [OF l]] by simp
  next
    case (no_service d s1 e)
    note l = no_service(1,2) [unfolded assms(6) Repository_sel]
    show ?thesis using tx [OF chain [OF lookup_steps(1) [OF l(1)] lookup_steps(2) [OF l(2)]]] by simp
  next
    case (no_vehicle d s1 st s2 e)
    note l = no_vehicle(1-3) [unfolded assms(6) Repository_sel]
    show ?thesis
      using tx [OF chain [OF chain [OF lookup_steps(1) [OF l(1)] lookup_steps(2) [OF l(2)]] lookup_steps(3) [OF l(3)]]]
      by simp
  next
    case (bad_time d s1 st s2 v c e)
    note l = bad_time(1-3) [unfolded assms(6) Repository_sel]
    show ?thesis
      using tx [OF chain [OF chain [OF lookup_steps(1) [OF l(1)] lookup_steps(2) [OF l(2)]] lookup_steps(3) [OF l(3)]]]
      by simp
  next
    case (in_tx d s1 st s2 v c s3 iv r appt out)
    note l = in_tx(1-3) [unfolded assms(6) Repository_sel]
    have steps: "tx_steps env (s\<lparr>pg.more := x\<rparr>) s3"
      by (rule chain [OF chain [OF lookup_steps(1) [OF l(1)] lookup_steps(2) [OF l(2)]] lookup_steps(3) [OF l(3)]])
    have s3: "session_ok s3" "idle s3"
      using session_ok_steps [OF steps] assms(3,4)
        idle_vehicleWithOwner [OF idle_serviceType [OF idle_dealership [OF _ l(1)] l(2)] l(3)] by simp_all
    have "db_keys (pg_db u) = db_keys (pg_db s3)"
      using in_tx(5) [unfolded assms(6) Repository_sel] in_tx(6) assms(9)
      by (intro InTx_contention [OF assms(1,2,5) s3]) auto
    then show ?thesis using tx [OF steps] by simp
  qed
  then show ?thesis by (simp add: b(2))
qed

theorem contention_is_not_recorded_witness:
  "fst (booked sample_key overnight_pg) = Inl (EDomain Contention) \<and>
   db_keys (pg_db (snd (booked sample_key overnight_pg))) = Map.empty"
proof -
  obtain n where n: "booked sample_key overnight_pg =
    (Inl (EDomain Contention), tick n overnight_pg)" using overnight_run ..
  show ?thesis
    using contention_is_not_recorded [OF sample_env_ok(1) sample_scripts(2) overnight_session
    sample_scripts(3) sample_sel(1) sample_beside n [unfolded booked_def]] n
    by (simp add: Contention_def NewError_def CodeOf_def)
qed

end
