(* ===== verification/Schedule.thy ===== *)
theory Schedule
  imports Sample
begin

text \<open>
  What \<^verbatim>\<open>daySchedule\<close> computes: each technician and bay of the dealership with the intervals of
  the CONFIRMED appointments of the day that name it, and those of the vehicle.
\<close>

section \<open>The index built while scanning\<close>

definition indexes :: "('a \<Rightarrow> string) \<Rightarrow> 'a list \<Rightarrow> (string \<rightharpoonup> nat) \<Rightarrow> bool" where
  "indexes key xs idx \<longleftrightarrow> (\<forall>ident i. idx ident = Some i \<longleftrightarrow> i < length xs \<and> key (xs ! i) = ident)"

lemma indexes_snoc:
  assumes "indexes key xs idx" "distinct (map key (xs @ [x]))"
  shows "indexes key (xs @ [x]) (idx(key x \<mapsto> length xs))"
proof -
  have "key (xs ! i) \<noteq> key x" if "i < length xs" for i
    using assms(2) imageI [OF nth_mem [OF that], of key] by auto
  then show ?thesis using assms(1) by (auto simp: indexes_def nth_append less_Suc_eq)
qed

lemma scan_technicians_result:
  assumes "indexes tech_ID xs idx" "distinct (map tech_ID (xs @ ts))"
    and "scan_technicians ts idx (map (\<lambda>t. \<lparr>ts_Technician = t, ts_Booked = []\<rparr>) xs) = (idx', out)"
  shows "indexes tech_ID (xs @ ts) idx' \<and> out = map (\<lambda>t. \<lparr>ts_Technician = t, ts_Booked = []\<rparr>) (xs @ ts)"
  using assms
proof (induction ts arbitrary: xs idx)
  case (Cons t ts)
  have "indexes tech_ID (xs @ [t]) (idx(tech_ID t \<mapsto> length xs))"
    using indexes_snoc [of tech_ID xs idx t] Cons.prems by simp
  from Cons.IH [OF this] show ?case using Cons.prems by (simp add: fun_upd_def)
qed simp

lemma scan_bays_result:
  assumes "indexes bay_ID xs idx" "distinct (map bay_ID (xs @ bs))"
    and "scan_bays bs idx (map (\<lambda>b. \<lparr>bs_Bay = b, bs_Booked = []\<rparr>) xs) = (idx', out)"
  shows "indexes bay_ID (xs @ bs) idx' \<and> out = map (\<lambda>b. \<lparr>bs_Bay = b, bs_Booked = []\<rparr>) (xs @ bs)"
  using assms
proof (induction bs arbitrary: xs idx)
  case (Cons b bs)
  have "indexes bay_ID (xs @ [b]) (idx(bay_ID b \<mapsto> length xs))"
    using indexes_snoc [of bay_ID xs idx b] Cons.prems by simp
  from Cons.IH [OF this] show ?case using Cons.prems by (simp add: fun_upd_def)
qed simp

lemma indexes_empty: "indexes key [] Map.empty"
  by (simp add: indexes_def)

section \<open>Booking the rows of the day\<close>

lemma book_at_map:
  assumes idx: "indexes key xs idx" and d: "distinct (map key xs)"
  shows "book_at idx ident f (map g xs) = map (\<lambda>x. if key x = ident then f (g x) else g x) xs"
proof (cases "idx ident")
  case None
  have "key (xs ! i) \<noteq> ident" if "i < length xs" for i
    using idx None that unfolding indexes_def by (metis option.distinct(1))
  then have "\<forall>x \<in> set xs. key x \<noteq> ident" by (metis in_set_conv_nth)
  then show ?thesis using None by (simp add: book_at_def)
next
  case (Some i)
  then have i: "i < length xs" "key (xs ! i) = ident" using idx by (simp_all add: indexes_def)
  have "key (xs ! j) = ident \<longleftrightarrow> j = i" if "j < length xs" for j
    using d i that by (metis distinct_conv_nth length_map nth_map)
  then show ?thesis using Some i by (intro nth_equalityI) (simp_all add: book_at_def nth_list_update)
qed

definition booked_schedule ::
  "pg_env \<Rightarrow> string \<Rightarrow> technician list \<Rightarrow> bay list \<Rightarrow> appointment_row list \<Rightarrow> day_schedule" where
  "booked_schedule env vehicleID techs bays rows =
     \<lparr>Technicians = map (\<lambda>t. \<lparr>ts_Technician = t,
        ts_Booked = map (row_interval env) (filter (\<lambda>r. tech_ID t = row_technician r) rows)\<rparr>) techs,
      Bays = map (\<lambda>b. \<lparr>bs_Bay = b,
        bs_Booked = map (row_interval env) (filter (\<lambda>r. bay_ID b = row_bay r) rows)\<rparr>) bays,
      VehicleBooked = map (row_interval env) (filter (\<lambda>r. vehicleID \<noteq> [] \<and> row_vehicle r = vehicleID) rows)\<rparr>"

lemma scan_appointments_result:
  assumes "indexes tech_ID techs ti" "distinct (map tech_ID techs)" "indexes bay_ID bays bi" "distinct (map bay_ID bays)"
  shows "scan_appointments env v ti bi rows (booked_schedule env v techs bays seen) =
     booked_schedule env v techs bays (seen @ rows)"
proof (induction rows arbitrary: seen)
  case (Cons r rows)
  have "\<lparr>Technicians = book_at ti (row_technician r) (\<lambda>t. t\<lparr>ts_Booked := ts_Booked t @ [row_interval env r]\<rparr>)
            (Technicians (booked_schedule env v techs bays seen)),
         Bays = book_at bi (row_bay r) (\<lambda>b. b\<lparr>bs_Booked := bs_Booked b @ [row_interval env r]\<rparr>)
            (Bays (booked_schedule env v techs bays seen)),
         VehicleBooked = (if v \<noteq> [] \<and> row_vehicle r = v
            then VehicleBooked (booked_schedule env v techs bays seen) @ [row_interval env r]
            else VehicleBooked (booked_schedule env v techs bays seen))\<rparr>
      = booked_schedule env v techs bays (seen @ [r])"
    by (simp add: booked_schedule_def book_at_map [OF assms(1,2)] book_at_map [OF assms(3,4)])
  then show ?case using Cons.IH [of "seen @ [r]"] by (simp add: Let_def)
qed simp

text \<open>The keys of the tables are distinct: they are primary keys.\<close>

definition keys_distinct :: "db \<Rightarrow> bool" where
  "keys_distinct d \<longleftrightarrow> distinct (map ter_id (db_technicians d)) \<and> distinct (map bar_id (db_bays d)) \<and>
     distinct (map ver_id (db_vehicles d)) \<and> distinct (map svr_id (db_service_types d))"

lemma distinct_select_technicians: "keys_distinct d \<Longrightarrow> distinct (map tech_ID (select_technicians env i d))"
  by (auto simp: select_technicians_def keys_distinct_def comp_def distinct_map inj_on_def)

lemma distinct_select_bays: "keys_distinct d \<Longrightarrow> distinct (map bay_ID (select_bays env i d))"
  by (auto simp: select_bays_def keys_distinct_def comp_def distinct_map bay_of_row_def inj_on_def)

definition schedule_of :: "pg_env \<Rightarrow> schedule_query \<Rightarrow> db \<Rightarrow> day_schedule" where
  "schedule_of env q d = booked_schedule env (sq_VehicleID q) (select_technicians env (sq_DealershipID q) d)
     (select_bays env (sq_DealershipID q) d) (select_day env q d)"

lemma scanned_schedule:
  assumes "distinct (map tech_ID techs)" "distinct (map bay_ID bays)"
  shows "(let (techIdx, ts) = scan_technicians techs Map.empty [];
              (bayIdx, bs) = scan_bays bays Map.empty [] in
          scan_appointments env v techIdx bayIdx rows \<lparr>Technicians = ts, Bays = bs, VehicleBooked = []\<rparr>)
      = booked_schedule env v techs bays rows"
proof -
  obtain ti ts where t: "scan_technicians techs Map.empty [] = (ti, ts)" by fastforce
  obtain bi bs where b: "scan_bays bays Map.empty [] = (bi, bs)" by fastforce
  have ts: "indexes tech_ID techs ti" "ts = map (\<lambda>t. \<lparr>ts_Technician = t, ts_Booked = []\<rparr>) techs"
    using scan_technicians_result [OF indexes_empty, of techs ti ts] t assms(1) by simp_all
  have bs: "indexes bay_ID bays bi" "bs = map (\<lambda>b. \<lparr>bs_Bay = b, bs_Booked = []\<rparr>) bays"
    using scan_bays_result [OF indexes_empty, of bays bi bs] b assms(2) by simp_all
  have "\<lparr>Technicians = ts, Bays = bs, VehicleBooked = []\<rparr> = booked_schedule env v techs bays []"
    by (simp add: booked_schedule_def ts bs)
  then show ?thesis
    using scan_appointments_result [OF ts(1) assms(1) bs(1) assms(2), where seen = "[]"] by (simp add: t b)
qed


lemma view_arrive_catalogue: "same_catalogue (view (arrive env s)) (pg_db s)"
  using tx_frame [OF tx_steps_arrive, of s env] by (simp add: same_catalogue_iff)

lemma select_technicians_catalogue: "same_catalogue d e \<Longrightarrow> select_technicians env i d = select_technicians env i e"
  by (simp add: select_technicians_def same_catalogue_iff)

lemma select_bays_catalogue: "same_catalogue d e \<Longrightarrow> select_bays env i d = select_bays env i e"
  by (simp add: select_bays_def same_catalogue_iff)

lemma keys_distinct_catalogue: "same_catalogue d e \<Longrightarrow> keys_distinct d = keys_distinct e"
  by (simp add: keys_distinct_def same_catalogue_iff)

lemma daySchedule_Inr:
  assumes "daySchedule env q s = (Inr sched, t)" "keys_distinct (pg_db s)"
  shows "sched = schedule_of env q (view t) \<and> t = arrive env (arrive env (arrive env s))"
proof -
  let ?D = "sq_DealershipID q"
  obtain r1 s1 where 1: "query env [?D] (select_technicians env ?D) s = (r1, s1)" by fastforce
  obtain r2 s2 where 2: "query env [?D] (select_bays env ?D) s1 = (r2, s2)" by fastforce
  obtain r3 s3 where 3: "query env [?D] (select_day env q) s2 = (r3, s3)" by fastforce
  from assms(1) obtain techs bays rows where r: "r1 = Inr techs" "r2 = Inr bays" "r3 = Inr rows" "s3 = t"
    and sched: "sched = (let (techIdx, ts) = scan_technicians techs Map.empty [];
              (bayIdx, bs) = scan_bays bays Map.empty [] in
          scan_appointments env (sq_VehicleID q) techIdx bayIdx rows \<lparr>Technicians = ts, Bays = bs, VehicleBooked = []\<rparr>)"
    by (simp add: daySchedule_def 1 2 3 Let_def split: if_splits sum.splits prod.splits)
  note q1 = query_Inr [OF 1 [unfolded r(1)]] and q2 = query_Inr [OF 2 [unfolded r(2)]] and q3 = query_Inr [OF 3 [unfolded r(3)]]
  have cat: "same_catalogue (view s1) (pg_db s)" "same_catalogue (view s2) (pg_db s1)" "same_catalogue (view s3) (pg_db s2)"
    using q1 q2 q3 view_arrive_catalogue by simp_all
  have sub: "same_catalogue (view u) (pg_db u)" for u :: "'a pg_scheme" by (simp add: same_catalogue_iff)
  have all: "same_catalogue (view s1) (view t)" "same_catalogue (view s2) (view t)" "same_catalogue (pg_db s) (view t)"
    using cat r(4) by (simp_all add: same_catalogue_iff)
  have d: "keys_distinct (view t)" using assms(2) keys_distinct_catalogue [OF all(3)] by simp
  have "techs = select_technicians env ?D (view t)" "bays = select_bays env ?D (view t)" "rows = select_day env q (view t)"
    using q1 q2 q3 r(4) select_technicians_catalogue [OF all(1)] select_bays_catalogue [OF all(2)] by simp_all
  then show ?thesis
    using q1 q2 q3 r(4) scanned_schedule [OF distinct_select_technicians [OF d] distinct_select_bays [OF d]]
    by (simp add: sched schedule_of_def)
qed

section \<open>A selection satisfies the constraints\<close>

definition canonical :: "string \<Rightarrow> bool" where
  "canonical s \<longleftrightarrow> is_uuid s \<and> to_lower s = s"

lemma uuid_arg_canonical: "env_ok env \<Longrightarrow> canonical s \<Longrightarrow> uuid_arg env s = s"
  by (simp add: canonical_def uuid_arg_is)

text \<open>The catalogue: primary keys are keys, and identifiers are canonical uuids.\<close>

definition catalogue_ok :: "db \<Rightarrow> bool" where
  "catalogue_ok d \<longleftrightarrow> keys_distinct d \<and>
     (\<forall>x \<in> set (db_service_types d). canonical (svr_id x) \<and> canonical (svr_required_skill_id x)) \<and>
     (\<forall>x \<in> set (db_technicians d). canonical (ter_id x)) \<and> (\<forall>x \<in> set (db_bays d). canonical (bar_id x)) \<and>
     (\<forall>x \<in> set (db_vehicles d). canonical (ver_id x) \<and> canonical (ver_customer x))"

lemma catalogue_ok_catalogue: "same_catalogue d e \<Longrightarrow> catalogue_ok d = catalogue_ok e"
  by (simp add: catalogue_ok_def same_catalogue_iff keys_distinct_def)

text \<open>
  The timestamps: stored ones are values of the type, and storing keeps the order of instants.
\<close>

definition times_ok :: "pg_env \<Rightarrow> db \<Rightarrow> bool" where
  "times_ok env d \<longleftrightarrow> mono (pe_ts env) \<and>
     (\<forall>r \<in> set (db_appointments d). pe_ts env (row_start r) = row_start r \<and> pe_ts env (row_end r) = row_end r)"

lemma selected_technician:
  assumes "technician_assigned (schedule_of env q d) st iv t"
  shows "\<exists>x \<in> set (db_technicians d). ter_id x = tech_ID t \<and> ter_dealership x = uuid_arg env (sq_DealershipID q) \<and>
      (tech_ID t, st_RequiredSkillID st) \<in> set (db_technician_skills d)"
    and "r \<in> set (select_day env q d) \<Longrightarrow> row_technician r = tech_ID t \<Longrightarrow> \<not> Overlaps iv (row_interval env r)"
  using assms
  by (auto simp: technician_assigned_def schedule_of_def booked_schedule_def free_technician_def domain_simps
      select_technicians_def)

lemma selected_bay:
  assumes "bay_assigned (schedule_of env q d) st iv b"
  shows "\<exists>x \<in> set (db_bays d). bar_id x = bay_ID b \<and> bar_dealership x = uuid_arg env (sq_DealershipID q) \<and>
      bar_type x = st_RequiredBayType st"
    and "r \<in> set (select_day env q d) \<Longrightarrow> row_bay r = bay_ID b \<Longrightarrow> \<not> Overlaps iv (row_interval env r)"
  using assms
  by (auto simp: bay_assigned_def schedule_of_def booked_schedule_def free_bay_def domain_simps
      select_bays_def bay_of_row_def)

lemma vehicle_free:
  assumes "\<not> OverlapsAny iv (VehicleBooked (schedule_of env q d))" "sq_VehicleID q \<noteq> []"
    and "r \<in> set (select_day env q d)" "row_vehicle r = sq_VehicleID q"
  shows "\<not> Overlaps iv (row_interval env r)"
  using assms by (auto simp: schedule_of_def booked_schedule_def domain_simps)

text \<open>Instants that do not overlap are stored as ranges that do not overlap.\<close>

lemma stored_ranges:
  assumes "\<not> Overlaps iv (row_interval env r)" "mono (pe_ts env)"
    and "pe_ts env (row_start r) = row_start r" "pe_ts env (row_end r) = row_end r"
    and "row_start x = timestamptz env (iv_start iv)" "row_end x = timestamptz env (iv_end iv)"
  shows "\<not> ranges_overlap x r"
proof -
  have "row_end r \<le> t_ns (iv_start iv) \<or> t_ns (iv_end iv) \<le> row_start r"
    using assms(1) by (auto simp: Overlaps_def row_interval_def scanned_time_def go_time_simps)
  then have "row_end r \<le> row_start x \<or> row_end x \<le> row_start r"
    using monoD [OF assms(2)] assms(3-6) by (metis timestamptz_def)
  then show ?thesis by (auto simp: ranges_overlap_def)
qed

text \<open>
  The rows that could conflict with an appointment of the day: every CONFIRMED row of the
  dealership that meets the day was on the schedule.
\<close>

definition day_covered :: "pg_env \<Rightarrow> schedule_query \<Rightarrow> db \<Rightarrow> db \<Rightarrow> bool" where
  "day_covered env q seen d \<longleftrightarrow>
     (\<forall>r \<in> set (db_appointments d). row_status r = StatusConfirmed \<longrightarrow>
        row_dealership r = uuid_arg env (sq_DealershipID q) \<longrightarrow>
        row_start r < timestamptz env (iv_end (sq_Day q)) \<longrightarrow> timestamptz env (iv_start (sq_Day q)) < row_end r \<longrightarrow>
        r \<in> set (select_day env q seen))"

lemma unique_key: "distinct (map f xs) \<Longrightarrow> x \<in> set xs \<Longrightarrow> y \<in> set xs \<Longrightarrow> f x = f y \<Longrightarrow> x = y"
  by (auto simp: distinct_map inj_on_def)

lemma selected_row_no_conflict:
  assumes cat: "catalogue_ok d" "same_catalogue seen d" and rows: "\<forall>x \<in> set (db_appointments d). row_ok d x"
    and times: "times_ok env d"
    and a: "technician_assigned (schedule_of env q seen) st iv (as_Technician a)"
      "bay_assigned (schedule_of env q seen) st iv (as_Bay a)" "\<not> OverlapsAny iv (VehicleBooked (schedule_of env q seen))"
    and covered: "day_covered env q seen d"
    and r: "row_technician r = tech_ID (as_Technician a)" "row_bay r = bay_ID (as_Bay a)" "row_vehicle r = sq_VehicleID q"
      "row_start r = timestamptz env (iv_start iv)" "row_end r = timestamptz env (iv_end iv)"
    and day: "timestamptz env (iv_start (sq_Day q)) \<le> row_start r" "row_end r \<le> timestamptz env (iv_end (sq_Day q))"
    and v: "\<exists>y \<in> set (db_vehicles d). ver_id y = sq_VehicleID q \<and> ver_dealership y = uuid_arg env (sq_DealershipID q)"
      "sq_VehicleID q \<noteq> []"
    and x: "x \<in> set (db_appointments d)"
  shows "\<not> double_booked r x"
proof
  assume booked: "double_booked r x"
  then have ov: "ranges_overlap r x" and conf: "row_status x = StatusConfirmed"
    by (auto simp: double_booked_def excluded_def)
  have fk: "foreign_key_violation d x = None" using rows x by (simp add: row_ok_def)
  note fkx = foreign_key_violation_None [OF fk]
  have keys: "distinct (map ter_id (db_technicians d))" "distinct (map bar_id (db_bays d))" "distinct (map ver_id (db_vehicles d))"
    using cat(1) by (simp_all add: catalogue_ok_def keys_distinct_def)
  have shared: "row_bay x = row_bay r \<or> row_technician x = row_technician r \<or> row_vehicle x = row_vehicle r"
    using booked by (auto simp: double_booked_def excluded_def)
  have dealership: "row_dealership x = uuid_arg env (sq_DealershipID q)"
    using shared fkx(1,2,4) selected_technician(1) [OF a(1)] selected_bay(1) [OF a(2)] v(1) cat(2)
      unique_key [OF keys(1)] unique_key [OF keys(2)] unique_key [OF keys(3)]
    unfolding r same_catalogue_iff by metis
  have "x \<in> set (select_day env q seen)"
    using covered x conf dealership ov day unfolding day_covered_def ranges_overlap_def by auto
  then have "\<not> Overlaps iv (row_interval env x)"
    using shared selected_technician(2) [OF a(1)] selected_bay(2) [OF a(2)] vehicle_free [OF a(3) v(2)] r(1-3) by metis
  then have "\<not> ranges_overlap r x"
    using times x by (intro stored_ranges [OF _ _ _ _ r(4,5)]) (auto simp: times_ok_def)
  then show False using ov by simp
qed

lemma vehicle_with_owner_Some:
  assumes "vehicle_with_owner env D V d = Some (v, c)"
  shows "\<exists>y \<in> set (db_vehicles d). ver_id y = ve_ID v \<and> ver_dealership y = uuid_arg env D \<and> ver_customer y = cu_ID c"
    and "\<exists>y \<in> set (db_customers d). cur_id y = cu_ID c"
  using assms by (auto simp: vehicle_with_owner_def vehicle_of_row_def customer_of_row_def split: option.splits dest!: find_Some)

lemma foreign_keys_met:
  assumes "\<exists>x \<in> set (db_dealerships d). dlr_id x = row_dealership r"
    and "\<exists>x \<in> set (db_customers d). cur_id x = row_customer r"
    and "\<exists>x \<in> set (db_vehicles d). ver_id x = row_vehicle r \<and> ver_dealership x = row_dealership r"
    and "\<exists>x \<in> set (db_technicians d). ter_id x = row_technician r \<and> ter_dealership x = row_dealership r"
    and "\<exists>x \<in> set (db_bays d). bar_id x = row_bay r \<and> bar_dealership x = row_dealership r"
    and "sr \<in> set (db_service_types d)" "row_service_type r = svr_id sr" "row_skill r = svr_required_skill_id sr"
    and "row_bay_type r = svr_required_bay_type sr" "(row_technician r, row_skill r) \<in> set (db_technician_skills d)"
    and "\<exists>x \<in> set (db_bays d). bar_id x = row_bay r \<and> bar_type x = row_bay_type r"
  shows "foreign_key_violation d r = None"
proof -
  have "\<exists>x \<in> set (db_service_types d). svr_id x = row_service_type r"
    "\<exists>x \<in> set (db_service_types d). svr_id x = row_service_type r \<and> svr_required_skill_id x = row_skill r"
    "\<exists>x \<in> set (db_service_types d). svr_id x = row_service_type r \<and> svr_required_bay_type x = row_bay_type r"
    using assms(6-9) by metis+
  note all = assms(1-5,10,11) this
  show ?thesis unfolding foreign_key_violation_def using all by presburger
qed

lemma selected_row_accepted:
  assumes env: "env_ok env" and cat: "catalogue_ok d" "same_catalogue seen d" and rows: "\<forall>x \<in> set (db_appointments d). row_ok d x"
    and times: "times_ok env d"
    and found: "\<exists>x \<in> set (db_dealerships d). dlr_id x = uuid_arg env (rq_DealershipID req)"
      "sr \<in> set (db_service_types d)" "st = service_type_of_row sr"
      "vehicle_with_owner env (rq_DealershipID req) (rq_VehicleID req) d = Some (v, c)"
    and q: "sq_DealershipID q = rq_DealershipID req" "sq_VehicleID q = ve_ID v"
    and a: "Assign (schedule_of env q seen) st iv pick = Inr a" and pick: "policy_contract pick"
    and covered: "day_covered env q seen d"
    and iv: "timestamptz env (iv_start iv) < timestamptz env (iv_end iv)"
      "timestamptz env (iv_start (sq_Day q)) \<le> timestamptz env (iv_start iv)"
      "timestamptz env (iv_end iv) \<le> timestamptz env (iv_end (sq_Day q))"
    and fresh: "pe_uuid env n \<notin> row_id ` set (db_appointments d)"
  shows "insert_violation d (new_row env (with_assignment (booking_appointment req st v c iv) a) n) = None"
proof -
  let ?r = "new_row env (with_assignment (booking_appointment req st v c iv) a) n"
  note as = policy_contract.assigned_resources [OF pick a]
  note t = selected_technician(1) [OF conjunct1 [OF as]] and b = selected_bay(1) [OF conjunct1 [OF conjunct2 [OF as]]]
  note veh = vehicle_with_owner_Some [OF found(4)]
  have c: "canonical (tech_ID (as_Technician a))" "canonical (bay_ID (as_Bay a))" "canonical (ve_ID v)" "canonical (cu_ID c)"
      "canonical (svr_id sr)" "canonical (svr_required_skill_id sr)"
    using t b veh cat found(2) by (auto simp: catalogue_ok_def same_catalogue_iff)
  note can = uuid_arg_canonical [OF env c(1)] uuid_arg_canonical [OF env c(2)] uuid_arg_canonical [OF env c(3)]
    uuid_arg_canonical [OF env c(4)] uuid_arg_canonical [OF env c(5)] uuid_arg_canonical [OF env c(6)]
  have r: "row_dealership ?r = uuid_arg env (rq_DealershipID req)" "row_vehicle ?r = ve_ID v" "row_customer ?r = cu_ID c"
    "row_service_type ?r = svr_id sr" "row_skill ?r = svr_required_skill_id sr" "row_bay_type ?r = svr_required_bay_type sr"
    "row_technician ?r = tech_ID (as_Technician a)" "row_bay ?r = bay_ID (as_Bay a)"
    "row_start ?r = timestamptz env (iv_start iv)" "row_end ?r = timestamptz env (iv_end iv)" "row_id ?r = pe_uuid env n"
    by (simp_all add: new_row_def with_assignment_def booking_appointment_def found(3) service_type_of_row_def can)
  have st: "st_RequiredSkillID st = svr_required_skill_id sr" "st_RequiredBayType st = svr_required_bay_type sr"
    by (simp_all add: found(3) service_type_of_row_def)
  have id: "sq_VehicleID q \<noteq> []" using c(3) q(2) by (auto simp: canonical_def is_uuid_def)
  have v: "\<exists>y \<in> set (db_vehicles d). ver_id y = sq_VehicleID q \<and> ver_dealership y = uuid_arg env (sq_DealershipID q)"
    using veh(1) q by auto
  have "\<not> double_booked ?r x" if "x \<in> set (db_appointments d)" for x
    by (rule selected_row_no_conflict [OF cat rows times _ _ _ covered r(7,8) _ r(9,10) _ _ v id that, of st])
      (use as iv in \<open>simp_all add: r q\<close>)
  moreover have "foreign_key_violation d ?r = None"
  proof (rule foreign_keys_met [OF _ _ _ _ _ found(2) r(4,5,6)])
    show "\<exists>x \<in> set (db_technicians d). ter_id x = row_technician ?r \<and> ter_dealership x = row_dealership ?r"
      using t cat(2) q by (auto simp: r same_catalogue_iff)
    show "(row_technician ?r, row_skill ?r) \<in> set (db_technician_skills d)"
      using t cat(2) by (auto simp: r same_catalogue_iff st)
    show "\<exists>x \<in> set (db_bays d). bar_id x = row_bay ?r \<and> bar_dealership x = row_dealership ?r"
      "\<exists>x \<in> set (db_bays d). bar_id x = row_bay ?r \<and> bar_type x = row_bay_type ?r"
      using b cat(2) q by (auto simp: r same_catalogue_iff st)
  qed (use found(1) veh in \<open>auto simp: r\<close>)
  moreover have "\<forall>x \<in> set (db_appointments d). row_id x \<noteq> row_id ?r" using fresh r(11) by (metis imageI)
  ultimately show ?thesis using iv(1) r(9,10) by (simp add: insert_violation_None)
qed
end
