(* ===== verification/DayLock.thy ===== *)
theory DayLock
  imports Guarantees Schedule
begin

text \<open>
  The scheduling-day lock (ADR-0001): while every session that writes an appointment of the day holds
  the advisory lock of that day, a selection under the lock is still free when it is inserted. At the end,
  what the schedule of a day contains.
\<close>

section \<open>Writers that follow the protocol\<close>

text \<open>An appointment of the dealership \<open>D\<close> that meets the day between \<open>lo\<close>
    and \<open>hi\<close>.\<close>

definition meets_day :: "string \<Rightarrow> int \<Rightarrow> int \<Rightarrow> appointment_row
    \<Rightarrow> bool" where
  "meets_day D lo hi r \<longleftrightarrow> row_dealership r = D \<and> row_start r < hi \<and> lo < row_end r"

text \<open>Stored times are values of the type, and an appointment that meets the day starts in it.\<close>

definition orderly_row :: "pg_env \<Rightarrow> string \<Rightarrow> int \<Rightarrow> int \<Rightarrow>
    appointment_row \<Rightarrow> bool" where
  "orderly_row env D lo hi r \<longleftrightarrow> pe_ts env (row_start r) = row_start r \<and>
    pe_ts env (row_end r) = row_end r \<and>
     (meets_day D lo hi r \<longrightarrow> lo \<le> row_start r)"

definition orderly_db :: "pg_env \<Rightarrow> string \<Rightarrow> int \<Rightarrow> int \<Rightarrow> db
    \<Rightarrow> bool" where
  "orderly_db env D lo hi d \<longleftrightarrow> (\<forall>r \<in> set (db_appointments d). orderly_row env
    D lo hi r)"

definition day_protocol :: "pg_env \<Rightarrow> string \<Rightarrow> int \<Rightarrow> int \<Rightarrow>
    lock_pair \<Rightarrow> bool" where
  "day_protocol env D lo hi p \<longleftrightarrow>
     (\<forall>n. \<forall>w \<in> set (ev_rows (pe_script env n)). orderly_row env D lo hi (fst w) \<and>
        (meets_day D lo hi (fst w) \<longrightarrow> snd w = Some p))"

text \<open>The server's failures are not the two that the code takes for a lost race.\<close>

definition no_deadlocks :: "pg_env \<Rightarrow> bool" where
  "no_deadlocks env \<longleftrightarrow>
     (\<forall>n e. ev_fail (pe_script env n) =
    Some (FailServer e) \<longrightarrow> pg_Code e \<notin> {''40P01'', ''23P01''})"

definition unused_ids :: "pg_env \<Rightarrow> 'm pg_scheme \<Rightarrow> bool" where
  "unused_ids env s \<longleftrightarrow> (\<forall>n \<ge> pg_tick s. pe_uuid env n \<notin> row_id ` set
    (db_appointments (pg_db s)))"

definition day_kept :: "pg_env \<Rightarrow> string \<Rightarrow> int \<Rightarrow> int \<Rightarrow>
    lock_pair \<Rightarrow> 'm pg_scheme \<Rightarrow> 'm pg_scheme \<Rightarrow> bool" where
  "day_kept env D lo hi p s t \<longleftrightarrow>
     (day_protocol env D lo hi p \<longrightarrow>
       (orderly_db env D lo hi (pg_db s) \<longrightarrow> orderly_db env D lo hi (pg_db t)) \<and>
       (p \<in> pg_locks s \<longrightarrow> p \<in> pg_locks t \<and>
          (\<forall>r \<in> set (db_appointments (pg_db t)). row_status r =
    StatusConfirmed \<longrightarrow> meets_day D lo hi r \<longrightarrow>
             r \<in> set (db_appointments (pg_db s)))))"

interpretation day: session_relation "day_kept env D lo hi p" env for env D lo hi p
proof unfold_locales
  show "day_kept env D lo hi p s (s\<lparr>pg_db := cancel_rows ids (pg_db s)\<rparr>)" for s :: "'a
    pg_scheme" and ids
    by (auto simp: day_kept_def orderly_db_def orderly_row_def meets_day_def cancel_rows_def)
  show "day_kept env D lo hi p s (admit_row w s)" if "w \<in> set (ev_rows (pe_script env n))" for s :: "'a
    pg_scheme" and w n
  proof (cases w)
    case (Pair r l)
    have "orderly_row env D lo hi r \<and>
    (meets_day D lo hi r \<longrightarrow> l = Some p)" if "day_protocol env D lo hi p"
      using that \<open>w \<in> _\<close> unfolding day_protocol_def Pair by (metis fst_conv snd_conv)
    then show ?thesis by (auto simp: day_kept_def orderly_db_def admit_row_def add_row_def Pair)
  qed
qed (auto simp: day_kept_def orderly_db_def admit_key_def set_key_def split: prod.splits)

lemma unused_later:
  assumes "foreign_script env" "tx_steps env s t" "unused_ids env s" "pg_tick s \<le> n"
  shows "pe_uuid env n \<notin> row_id ` set (db_appointments (pg_db t))"
proof -
  have g: "generated env (pg_db t) = generated env (pg_db s)" by (rule generated_steps [OF assms(1,2)])
  have "pe_uuid env n \<notin> row_id ` set (db_appointments (pg_db s))" using assms(3,4) unfolding
    unused_ids_def by blast
  moreover have "pe_uuid env n \<in> generated env d \<longleftrightarrow> pe_uuid env n \<in> row_id ` set
    (db_appointments d)" for d
    by (simp add: generated_def)
  ultimately show ?thesis using g by metis
qed

lemma unused_steps:
  assumes "foreign_script env" "tx_steps env s t" "unused_ids env s"
  shows "unused_ids env t"
  using unused_later [OF assms] frame.tx_steps_R [OF assms(2)] by (auto simp: unused_ids_def frame_kept_def)

section \<open>Records that hold no CONTENTION\<close>

text \<open>No idempotency record holds CONTENTION: not in the database, and no other session stores one.\<close>

definition records_durable :: "db \<Rightarrow> bool" where
  "records_durable d \<longleftrightarrow> (\<forall>v \<in> ran (db_keys d). kr_error v \<noteq> Some ''CONTENTION'')"

definition durable_script :: "pg_env \<Rightarrow> bool" where
  "durable_script env \<longleftrightarrow> (\<forall>n. \<forall>w \<in> set (ev_keys (pe_script env n)). kr_error (snd w) \<noteq> Some ''CONTENTION'')"

definition durable_kept :: "pg_env \<Rightarrow> 'm pg_scheme \<Rightarrow> 'm pg_scheme \<Rightarrow> bool" where
  "durable_kept env s t \<longleftrightarrow> (durable_script env \<longrightarrow> records_durable (pg_db s) \<longrightarrow> records_durable (pg_db t))"

lemma other_rows_keys [simp]:
  "db_keys (cancel_rows ids d) = db_keys d" "db_keys (pg_db (admit_row w s)) = db_keys (pg_db s)"
  by (simp_all add: cancel_rows_def admit_row_def add_row_def split: prod.splits)

lemma durable_keys: "db_keys (pg_db t) = db_keys (pg_db s) \<Longrightarrow> durable_kept env s t"
  by (simp add: durable_kept_def records_durable_def)

lemma set_key_durable:
  assumes "records_durable d" "kr_error v \<noteq> Some ''CONTENTION''"
  shows "records_durable (set_key k v d)"
proof -
  have "ran ((db_keys d)(k \<mapsto> v)) \<subseteq> insert v (ran (db_keys d))" by (auto simp: ran_def)
  then show ?thesis using assms unfolding records_durable_def set_key_def by auto
qed

lemma durable_admit:
  assumes "w \<in> set (ev_keys (pe_script env n))"
  shows "durable_kept env s (admit_key env w s)"
proof -
  obtain d k v where w: "w = ((d, k), v)" by (metis surj_pair)
  have "kr_error v \<noteq> Some ''CONTENTION''" if "durable_script env"
    using that assms unfolding durable_script_def w by (metis snd_conv)
  then show ?thesis by (simp add: durable_kept_def admit_key_def w set_key_durable)
qed

interpretation durable: session_relation "durable_kept env" env for env
proof unfold_locales
  show "durable_kept env s u" if "durable_kept env s t" "durable_kept env t u" for s t u :: "'a pg_scheme"
    using that by (simp add: durable_kept_def)
qed (simp_all add: durable_keys durable_admit)

lemma code_of_text_contention: "code_of_text c = CodeContention \<longleftrightarrow> c = ''CONTENTION''"
  by (simp add: code_of_text_def)

lemma replay_not_contention:
  assumes "replay (bookingTx env) (record_of_row env d k v) fp s = ((appt, out, r), t)" "kr_error v \<noteq> Some ''CONTENTION''"
  shows "case r of Some e \<Rightarrow> CodeOf e \<noteq> CodeContention | None \<Rightarrow> out \<noteq> None \<longrightarrow> CodeOf (the out) \<noteq> CodeContention"
proof -
  have a: "CodeOf e \<noteq> CodeContention" if "appointment env i u = (Inl e, w)" for i e and u w :: "'a pg_scheme"
    using that by (auto simp: appointment_def CodeOf_def no_code_def dest!: query_Inl split: if_splits prod.splits sum.splits option.splits)
  show ?thesis
    using assms
    by (auto simp: replay_def record_of_row_def CodeOf_def no_code_def code_of_text_contention
      split: if_splits prod.splits sum.splits option.splits dest!: a)
qed

section \<open>The insert under the lock\<close>

text \<open>An insert that the constraints accept does not lose a race.\<close>

lemma no_race_failure:
  assumes "no_deadlocks env" "ev_fail (pe_script env n) = Some f"
  shows "\<not> error_is (mapInsertError (failure_error f)) ELostRace"
proof (cases f)
  case (FailServer e)
  then have "pg_Code e \<noteq> ''40P01''" "pg_Code e \<noteq> ''23P01''" using assms unfolding
    no_deadlocks_def by blast+
  then show ?thesis using FailServer by (simp add: mapInsertError_def)
qed (simp_all add: mapInsertError_def)

lemma insert_no_race:
  assumes "no_deadlocks env"
    and "\<And>n u. tx_steps env s u \<Longrightarrow> pg_own_rows u = pg_own_rows s \<Longrightarrow>
    pg_tick s \<le> n \<Longrightarrow> insert_violation (view u) (new_row env na n) = None"
    and "InsertAppointment env na s = (Inl e, t)"
  shows "\<not> error_is e ELostRace"
proof -
  define us where "us = [na_DealershipID na, na_VehicleID na, na_CustomerID na, na_ServiceTypeID na,
                          na_RequiredSkillID na, na_TechnicianID na, na_BayID na]"
  obtain r1 s1 where 1: "statement env [] (\<lambda>s. (Inr (), s)) s = (r1, s1)" by fastforce
  obtain r2 s2 where 2: "statement env us (\<lambda>s. insert_row (new_row env na (pg_tick s1)) s) s1 = (r2, s2)"
    by fastforce
  obtain r3 s3 where 3: "statement env [] (\<lambda>s. (Inr (), s)) s2 = (r3, s3)" by fastforce
  note I = InsertAppointment_def 1 2 [unfolded us_def] 3
  have kind: "\<not> error_is err ELostRace" if "statement env vs (\<lambda>s. (Inr (), s)) u =
    (Inl err, v)" for vs err and u v :: "'a pg_scheme"
    using statement_Inl [OF that] by auto
  show ?thesis
  proof (cases r1)
    case (Inl e1)
    then show ?thesis using assms(3) kind [OF 1 [unfolded Inl]] by (auto simp: I Inl)
  next
    case r1: (Inr x1)
    have s1: "s1 = arrive env s" using 1 r1 by (auto dest: skip_Inr)
    have steps: "tx_steps env s (arrive env s1)" unfolding s1 by (rule rtranclp_trans [OF tx_steps_arrive
    tx_steps_arrive])
    have ins: "insert_violation (view (arrive env s1)) (new_row env na (pg_tick s1)) = None"
      by (rule assms(2) [OF steps]) (simp_all add: s1)
    show ?thesis
    proof (cases r2)
      case (Inl e2)
      have "(\<exists>f. e2 = failure_error f \<and> ev_fail (pe_script env (pg_tick s1)) = Some f) \<or>
          e2 = EText ''cannot encode uuid parameter'' \<or> e2 = pg_aborted_error"
        using 2 [unfolded Inl] ins by (auto simp: statement_def Let_def insert_row_def split: if_splits
    option.splits)
      then have "\<not> error_is (mapInsertError e2) ELostRace"
        using no_race_failure [OF assms(1)] by (auto simp: pg_aborted_error_def pg_error_of_def
    mapInsertError_def)
      then show ?thesis using assms(3) by (auto simp: I r1 Inl)
    next
      case r2: (Inr i)
      show ?thesis
      proof (cases r3)
        case (Inl e3)
        then show ?thesis using assms(3) kind [OF 3 [unfolded Inl]] by (auto simp: I r1 r2 Inl)
      next
        case r3: (Inr x)
        have "appointment env i s3 = (Inl e, t)" using assms(3) by (simp add: I r1 r2 r3)
        then show ?thesis
          by (auto simp: appointment_def dest!: query_Inr query_Inl split: if_splits prod.splits sum.splits
    option.splits)
      qed
    qed
  qed
qed


section \<open>One attempt is enough\<close>

text \<open>What a transaction relies on before and while it holds the lock of the day.\<close>

definition day_ready ::
  "pg_env \<Rightarrow> book_request \<Rightarrow> schedule_query \<Rightarrow> lock_pair \<Rightarrow> 'm
    pg_scheme \<Rightarrow> bool" where
  "day_ready env req q p s \<longleftrightarrow>
     (let D = uuid_arg env (rq_DealershipID req);
          lo = timestamptz env (iv_start (sq_Day q)); hi = timestamptz env (iv_end (sq_Day q)) in
      day_protocol env D lo hi p \<and> orderly_db env D lo hi (pg_db s) \<and>
      catalogue_ok (pg_db s) \<and> session_ok s \<and> pg_own_rows s = [] \<and> unused_ids env s)"

definition day_locked ::
  "pg_env \<Rightarrow> book_request \<Rightarrow> schedule_query \<Rightarrow> lock_pair \<Rightarrow> 'm
    pg_scheme \<Rightarrow> bool" where
  "day_locked env req q p s \<longleftrightarrow> day_ready env req q p s \<and> p \<in> pg_locks s"

lemma day_ready_steps:
  assumes "day_ready env req q p s" "tx_steps env s t" "pg_own_rows t = []" "foreign_script env"
  shows "day_ready env req q p t"
proof -
  let ?D = "uuid_arg env (rq_DealershipID req)" and ?lo = "timestamptz env (iv_start (sq_Day q))"
    and ?hi = "timestamptz env (iv_end (sq_Day q))"
  have "day_kept env ?D ?lo ?hi p s t" by (rule day.tx_steps_R [OF assms(2)])
  then show ?thesis
    using assms(1,3) session_ok_steps [OF assms(2)] unused_steps [OF assms(4,2)]
      catalogue_ok_catalogue [OF tx_frame [OF assms(2)]]
    by (simp add: day_ready_def day_kept_def Let_def)
qed

lemma day_locked_steps:
  assumes "day_locked env req q p s" "tx_steps env s t" "pg_own_rows t = []" "foreign_script env"
  shows "day_locked env req q p t"
proof -
  have r: "day_ready env req q p s" "p \<in> pg_locks s" using assms(1) by (simp_all add: day_locked_def)
  have "p \<in> pg_locks t"
    using r day.tx_steps_R [OF assms(2),
    of "uuid_arg env (rq_DealershipID req)" "timestamptz env (iv_start (sq_Day q))"
        "timestamptz env (iv_end (sq_Day q))" p]
    by (simp add: day_ready_def day_kept_def Let_def)
  then show ?thesis using day_ready_steps [OF r(1) assms(2-4)] by (simp add: day_locked_def)
qed

lemma day_ready_lock: "day_ready env req q p (s\<lparr>pg_locks := l\<rparr>) = day_ready env req q p s"
  by (simp add: day_ready_def unused_ids_def)

lemma locked_insert_accepted:
  assumes env: "env_ok env" "mono (pe_ts env)" "foreign_script env" and s: "day_locked env req q p s"
    and steps: "tx_steps env s u" "pg_own_rows u = []" "pg_tick s \<le> n"
    and found: "\<exists>x \<in> set (db_dealerships (pg_db s)). dlr_id x = uuid_arg env (rq_DealershipID req)"
      "sr \<in> set (db_service_types (pg_db s))" "st = service_type_of_row sr"
      "vehicle_with_owner env (rq_DealershipID req) (rq_VehicleID req) (pg_db s) = Some (v, c)"
    and q: "sq_DealershipID q = rq_DealershipID req" "sq_VehicleID q = ve_ID v"
    and a: "Assign (schedule_of env q (view s)) st iv pick = Inr a" and pick: "policy_contract pick"
    and iv: "timestamptz env (iv_start iv) < timestamptz env (iv_end iv)"
      "timestamptz env (iv_start (sq_Day q)) \<le> timestamptz env (iv_start iv)"
      "timestamptz env (iv_end iv) \<le> timestamptz env (iv_end (sq_Day q))"
  shows "insert_violation (view u) (new_row env (with_assignment (booking_appointment req st v c iv) a) n) = None"
proof -
  let ?D = "uuid_arg env (rq_DealershipID req)" and ?lo = "timestamptz env (iv_start (sq_Day q))"
    and ?hi = "timestamptz env (iv_end (sq_Day q))"
  have u: "day_locked env req q p u" by (rule day_locked_steps [OF s steps(1,2) env(3)])
  have kept: "day_kept env ?D ?lo ?hi p s u" by (rule day.tx_steps_R [OF steps(1)])
  have s': "day_protocol env ?D ?lo ?hi p" "p \<in> pg_locks s" "orderly_db env ?D ?lo ?hi (pg_db s)"
      "pg_own_rows s =
    []" "unused_ids env s" "session_ok u" "catalogue_ok (pg_db u)" "orderly_db env ?D ?lo ?hi (pg_db u)"
    using s u by (simp_all add: day_locked_def day_ready_def Let_def)
  have cat: "same_catalogue (pg_db s) (pg_db u)" by (rule tx_frame [OF steps(1)])
  have view: "same_catalogue (view s) (view u)" "same_catalogue (pg_db u) (view u)" "same_catalogue (pg_db s)
    (view u)"
    using cat by (simp_all add: same_catalogue_iff)
  have same: "vehicle_with_owner env (rq_DealershipID req) (rq_VehicleID req) (view u) = Some (v, c)"
    using found(4) cat by (simp add: vehicle_with_owner_def same_catalogue_iff cong: option.case_cong)
  have "row_ok (view u) x" if "x \<in> set (db_appointments (view u))" for x
    using s'(6) that by (simp add: session_ok_def db_ok_def)
  moreover have "times_ok env (view u)"
    using s'(8) steps(2) env(2) by (simp add: times_ok_def orderly_db_def orderly_row_def)
  moreover have "day_covered env q (view s) (view u)"
    unfolding day_covered_def
  proof (intro ballI impI)
    fix r assume r: "r \<in> set (db_appointments (view u))" "row_status r = StatusConfirmed"
      "row_dealership r = uuid_arg env (sq_DealershipID q)" "row_start r < ?hi" "?lo < row_end r"
    have m: "meets_day ?D ?lo ?hi r" using r q(1) by (simp add: meets_day_def)
    then have "r \<in> set (db_appointments (pg_db s))"
      using kept s'(1,2) r(1,2) steps(2) by (simp add: day_kept_def)
    moreover have "?lo \<le> row_start r" using calculation s'(3) m by (auto simp: orderly_db_def orderly_row_def)
    ultimately show "r \<in> set (select_day env q (view s))" using r by (simp add: select_day_def)
  qed
  moreover have "pe_uuid env n \<notin> row_id ` set (db_appointments (view u))"
    using unused_later [OF env(3) steps(1) s'(5) steps(3)] steps(2) by simp
  ultimately show ?thesis
    using selected_row_accepted [OF env(1) _ view(1) _ _ _ _ found(3) same q a pick _ iv] found(1,2)
      catalogue_ok_catalogue [OF view(2)] s'(7) view(3) by (simp add: same_catalogue_iff)
qed

text \<open>What the lookups found for a request, in a database of this catalogue.\<close>

definition request_found ::
  "pg_env \<Rightarrow> book_request \<Rightarrow> service_type \<Rightarrow> vehicle \<Rightarrow> customer
    \<Rightarrow> db \<Rightarrow> bool" where
  "request_found env req st v c d \<longleftrightarrow>
     (\<exists>x \<in> set (db_dealerships d). dlr_id x = uuid_arg env (rq_DealershipID req)) \<and>
     (\<exists>sr \<in> set (db_service_types d). st = service_type_of_row sr) \<and>
     vehicle_with_owner env (rq_DealershipID req) (rq_VehicleID req) d = Some (v, c)"

lemma request_found_catalogue:
  "same_catalogue d e \<Longrightarrow> request_found env req st v c d = request_found env req st v c e"
  by (simp add: request_found_def vehicle_with_owner_def same_catalogue_iff cong: option.case_cong)

definition within_day :: "pg_env \<Rightarrow> schedule_query \<Rightarrow> interval \<Rightarrow> bool" where
  "within_day env q iv \<longleftrightarrow> timestamptz env (iv_start iv) < timestamptz env (iv_end iv) \<and>
     timestamptz env (iv_start (sq_Day q)) \<le> timestamptz env (iv_start iv) \<and>
     timestamptz env (iv_end iv) \<le> timestamptz env (iv_end (sq_Day q))"

lemma locked_attempt:
  assumes env: "env_ok env" "mono (pe_ts env)" "foreign_script env" "no_deadlocks env"
    and s: "day_locked env req q p s" and found: "request_found env req st v c (pg_db s)"
    and q: "sq_DealershipID q = rq_DealershipID req" "sq_VehicleID q = ve_ID v"
    and pick: "policy_contract (sch_policy sch)" and max: "0 < sch_maxAttempts sch" and iv: "within_day env q iv"
    and r: "assignAndInsert sch (bookingTx env) q st (booking_appointment req st v c iv) s = ((appt, out, tr), t)"
  shows "\<not> tr \<and> (out \<noteq> None \<longrightarrow> CodeOf (the out) \<noteq> CodeContention)"
proof -
  let ?na = "booking_appointment req st v c iv"
  have na: "na_Interval ?na = iv" by (simp add: booking_appointment_def)
  from r [unfolded assignAndInsert_def] show ?thesis
  proof (cases rule: attempts_cases)
    case (lost_race schedule s1 a err s2)
    have keys: "keys_distinct (pg_db s)" using s by (simp add: day_locked_def day_ready_def catalogue_ok_def
    Let_def)
    have d: "daySchedule env q s = (Inr schedule, s1)" using lost_race(2) by simp
    have s1: "schedule = schedule_of env q (view s1)" "s1 = arrive env (arrive env (arrive env s))"
      using daySchedule_Inr [OF d keys] by simp_all
    have steps: "tx_steps env s s1" using daySchedule_steps [of env s q] d by simp
    have locked: "day_locked env req q p s1"
      by (rule day_locked_steps [OF s steps _ env(3)]) (use s in \<open>simp add: s1(2) day_locked_def
    day_ready_def Let_def\<close>)
    have found1: "request_found env req st v c (pg_db s1)"
      using found request_found_catalogue [OF tx_frame [OF steps]] by simp
    have "\<not> error_is err ELostRace"
    proof (rule insert_no_race [OF env(4)])
      show "InsertAppointment env (with_assignment ?na a) s1 = (Inl err, s2)" using lost_race(4) by simp
      fix n and u :: "'a pg_scheme"
      assume u: "tx_steps env s1 u" "pg_own_rows u = pg_own_rows s1" "pg_tick s1 \<le> n"
      have own: "pg_own_rows u = []" using u(2) locked by (simp add: day_locked_def day_ready_def Let_def)
      from found1 obtain sr where sr: "sr \<in> set (db_service_types (pg_db s1))" "st = service_type_of_row sr"
        unfolding request_found_def by blast
      show "insert_violation (view u) (new_row env (with_assignment ?na a) n) = None"
        using locked_insert_accepted [OF env(1-3) locked u(1) own u(3) _ sr _ q lost_race(3) [unfolded s1(1)
    na] pick] found1 iv
        by (simp add: request_found_def within_day_def)
    qed
    then show ?thesis using lost_race(5) by simp
  next
    case (schedule_error err s1)
    then show ?thesis using store.schedule_failed [of env q s err s1] by simp
  next
    case (rejected schedule s1 err)
    then show ?thesis using Assign_code [OF rejected(3)] by auto
  next
    case (insert_error schedule s1 a err s2)
    have "session_ok s1"
      using session_ok_steps [OF daySchedule_steps [of env s q]] insert_error(2) s by (simp add:
    day_locked_def day_ready_def Let_def)
    then have "AsError err = None" using store.insert_failed [of env s1] insert_error(4,5) env(1) by fastforce
    then show ?thesis using insert_error by (simp add: CodeOf_def no_code_def)
  qed (use max in auto)
qed

section \<open>The booking\<close>

definition microsecond_times :: "pg_env \<Rightarrow> bool" where
  "microsecond_times env \<longleftrightarrow> (\<forall>ns. pe_ts env ns = ns div 1000 * 1000)"

lemma microsecond_mono: "microsecond_times env \<Longrightarrow> mono (pe_ts env)"
  by (simp add: microsecond_times_def mono_def zdiv_mono1)

definition hours_of_row :: "hours_row \<Rightarrow> opening_hours" where
  "hours_of_row h = \<lparr>OpensAt = minutes_of_time (hor_opens_at h), ClosesAt =
    minutes_of_time (hor_closes_at h)\<rparr>"

text \<open>A store ready for a booking, the session included.\<close>

definition store_ready :: "pg_env \<Rightarrow> 'm pg_scheme \<Rightarrow> bool" where
  "store_ready env s \<longleftrightarrow> session_ok s \<and> idle s \<and> unused_ids env s \<and>
    catalogue_ok (pg_db s) \<and>
     (\<forall>h \<in> set (db_hours (pg_db s)). within_day_hours (hours_of_row h)) \<and>
     (\<forall>x \<in> set (db_service_types (pg_db s)). 0 < svr_duration_minutes x \<and>
    svr_duration_minutes x \<le> 153722867)"

text \<open>The zone of the requested dealership, and the protocol for the day of the requested start.\<close>

definition zone_of :: "pg_env \<Rightarrow> book_request \<Rightarrow> location \<Rightarrow> db
    \<Rightarrow> bool" where
  "zone_of env req loc d \<longleftrightarrow> (\<forall>x \<in> set (db_dealerships d). dlr_id x =
    uuid_arg env (rq_DealershipID req) \<longrightarrow>
     pe_load_location env (dlr_timezone x) = Some loc)"

definition writers_lock_day :: "pg_env \<Rightarrow> book_request \<Rightarrow> location \<Rightarrow> db
    \<Rightarrow> bool" where
  "writers_lock_day env req loc d \<longleftrightarrow>
     (let day = DateOf (rq_StartTime req) loc; D = uuid_arg env (rq_DealershipID req);
          lo = timestamptz env (iv_start (Bounds day loc)); hi = timestamptz env (iv_end (Bounds day loc)) in
      orderly_db env D lo hi d \<and>
      day_protocol env D lo hi (pe_hash env (rq_DealershipID req), pe_hash env (''day:'' @ date_text day)))"

lemma scan_hours_from: "scan_hours hs rs wd = Some oh \<Longrightarrow>
    hs wd = Some oh \<or> (\<exists>h \<in> set rs. oh = hours_of_row h)"
  by (induction hs rs rule: scan_hours.induct) (auto simp: hours_of_row_def split: if_splits)

lemma dealership_Inr:
  assumes "dealership env i s = (Inr d, t)"
  shows "\<exists>row \<in> set (db_dealerships (pg_db s)). dlr_id row = uuid_arg env i \<and>
      pe_load_location env (dlr_timezone row) = Some (dl_Location d)"
    and "dl_Hours d wd = Some oh \<Longrightarrow> \<exists>h \<in> set (db_hours (pg_db s)). oh = hours_of_row h"
proof -
  obtain x u where q: "query env [i] (\<lambda>d. select_by_uuid env dlr_id i (db_dealerships d)) s =
    (x, u)" by fastforce
  obtain y w where r: "query env [i] (\<lambda>d. filter (\<lambda>h. hor_dealership h =
    uuid_arg env i) (db_hours d)) u = (y, w)" by fastforce
  obtain row loc rows where row: "x = Inr (Some row)" "pe_load_location env (dlr_timezone row) =
    Some loc" "y = Inr rows"
      "d = \<lparr>dl_ID = dlr_id row, dl_Name = dlr_name row, dl_Location = loc, dl_Hours =
    scan_hours Map.empty rows\<rparr>"
    using assms by (auto simp: dealership_def q r split: if_splits sum.splits option.splits)
  note f = query_Inr [OF q [unfolded row(1)]] and g = query_Inr [OF r [unfolded row(3)]]
  have cat: "same_catalogue (pg_db s) (pg_db u)" "same_catalogue (pg_db u) (pg_db w)"
    using f g tx_frame [OF tx_steps_arrive] by simp_all
  have "row \<in> set (db_dealerships (pg_db u))" "dlr_id row = uuid_arg env i"
    using f by (auto simp: select_by_uuid_def dest: find_Some [OF sym])
  then show "\<exists>row \<in> set (db_dealerships (pg_db s)). dlr_id row = uuid_arg env i \<and>
      pe_load_location env (dlr_timezone row) = Some (dl_Location d)"
    using row(2,4) cat(1) by (auto simp: same_catalogue_iff)
  show "\<exists>h \<in> set (db_hours (pg_db s)). oh = hours_of_row h" if "dl_Hours d wd = Some oh"
    using scan_hours_from [of Map.empty rows wd oh] that g cat by (auto simp: row(4) same_catalogue_iff)
qed

lemma vehicleWithOwner_Inr:
  assumes "vehicleWithOwner env i j s = (Inr (v, c), t)"
  shows "vehicle_with_owner env i j (pg_db s) = Some (v, c)"
proof -
  obtain x u where q: "query env [j, i] (vehicle_with_owner env i j) s = (x, u)" by fastforce
  then have x: "x = Inr (Some (v, c))"
    using assms by (auto simp: vehicleWithOwner_def split: if_splits sum.splits option.splits)
  have "vehicle_with_owner env i j (view u) = Some (v, c)" "u = arrive env s"
    using query_Inr [OF q [unfolded x]] by simp_all
  then show ?thesis
    using tx_frame [OF tx_steps_arrive, of s env]
    by (simp add: vehicle_with_owner_def same_catalogue_iff cong: option.case_cong)
qed

lemma lookup_errors:
  "dealership env i s = (Inl e, t) \<Longrightarrow> CodeOf e \<noteq> CodeContention"
  "serviceType env i s = (Inl e, t) \<Longrightarrow> CodeOf e \<noteq> CodeContention"
  "vehicleWithOwner env i j s = (Inl e, t) \<Longrightarrow> CodeOf e \<noteq> CodeContention"
  by (auto simp: dealership_def serviceType_def vehicleWithOwner_def CodeOf_def no_code_def dest!: query_Inl
      split: if_splits prod.splits sum.splits option.splits)

text \<open>What a keyed booking does before and after the selection is no CONTENTION either.\<close>

lemma key_statement_failed:
  "LockIdempotencyKey env d k s = (Some e, t) \<Longrightarrow> AsError e = None"
  "FindIdempotencyRecord env d k now s = (Inl e, t) \<Longrightarrow> AsError e = None"
proof -
  show "AsError e = None" if "LockIdempotencyKey env d k s = (Some e, t)"
    using that by (auto simp: LockIdempotencyKey_def advisory_lock_def dest!: statement_Inl split: prod.splits sum.splits)
  show "AsError e = None" if "FindIdempotencyRecord env d k now s = (Inl e, t)"
    using that by (auto simp: FindIdempotencyRecord_def dest!: query_Inl split: prod.splits sum.splits option.splits)
qed

lemma SaveIdempotencyRecord_failed:
  assumes "SaveIdempotencyRecord env rec s = (Some e, t)"
  shows "AsError e = None"
proof -
  let ?us = "[ir_DealershipID rec, ir_Key rec] @ (if ir_AppointmentID rec \<noteq> [] then [ir_AppointmentID rec] else [])"
  let ?run = "upsert_key (uuid_arg env (ir_DealershipID rec), uuid_arg env (ir_Key rec)) (row_of_record env rec)"
  obtain x u where st: "statement env ?us ?run s = (x, u)" by fastforce
  then obtain y where y: "x = Inl y" "e = EWrap ''save idempotency key'' y"
    using assms unfolding SaveIdempotencyRecord_def by (auto split: sum.splits)
  show ?thesis
    using statement_Inl [OF st [unfolded y(1)]] y(2) by (auto simp: upsert_key_def split: option.splits)
qed

abbreviation no_contention :: "go_error option \<Rightarrow> go_error option \<Rightarrow> bool" where
  "no_contention r out \<equiv> (case r of Some e \<Rightarrow> CodeOf e \<noteq> CodeContention
     | None \<Rightarrow> out \<noteq> None \<longrightarrow> CodeOf (the out) \<noteq> CodeContention)"

lemma no_contention_outside: "AsError e = None \<Longrightarrow> no_contention (Some e) out"
  by (simp add: CodeOf_def no_code_def)

lemma fresh_not_contention:
  assumes env: "env_ok env" "mono (pe_ts env)" "foreign_script env" "no_deadlocks env"
    and s: "day_ready env req q (pe_hash env (rq_DealershipID req), pe_hash env (''day:'' @ date_text day)) s"
    and found: "request_found env req st v c (pg_db s)"
    and q: "sq_DealershipID q = rq_DealershipID req" "sq_VehicleID q = ve_ID v"
    and pick: "policy_contract (sch_policy sch)" and max: "0 < sch_maxAttempts sch" and iv: "within_day env q iv"
    and b: "book_fresh rt sch req now day q st (booking_appointment req st v c iv) (bookingTx env) s =
    ((r, appt, out), t)"
  shows "no_contention r out"
proof -
  let ?p = "(pe_hash env (rq_DealershipID req), pe_hash env (''day:'' @ date_text day))"
  let ?na = "booking_appointment req st v c iv"
  obtain l s1 where l: "LockSchedulingDay env (rq_DealershipID req) day s = (l, s1)" by fastforce
  note B = b [unfolded book_fresh_def bookingTx_sel l]
  show ?thesis
  proof (cases l)
    case (Some e)
    then have "AsError e = None"
      using l by (auto simp: LockSchedulingDay_def advisory_lock_def dest!: statement_Inl split: prod.splits
    sum.splits)
    then show ?thesis using B Some by (auto simp: CodeOf_def no_code_def)
  next
    case None
    have s1: "s1 = (arrive env s)\<lparr>pg_locks := insert ?p (pg_locks s)\<rparr>"
      using l None by (auto simp: LockSchedulingDay_def advisory_lock_def dest!: statement_Inr split:
    prod.splits sum.splits)
    obtain ap o' tr s2 where a: "assignAndInsert sch (bookingTx env) q st ?na s1 = ((ap, o', tr), s2)"
      by (metis prod.exhaust)
    obtain w s3 where w: "SaveIdempotencyRecord env (outcome_record rt req now ap o') s2 = (w, s3)" by fastforce
    have f: "request_found env req st v c (pg_db s1)"
      using found request_found_catalogue [OF tx_frame [OF tx_steps_arrive, of s env]] by (simp add: s1)
    have "day_ready env req q ?p (arrive env s)"
      by (rule day_ready_steps [OF s tx_steps_arrive _ env(3)]) (use s in \<open>simp add: day_ready_def
    Let_def\<close>)
    then have locked: "day_locked env req q ?p s1" by (simp add: s1 day_locked_def day_ready_lock)
    have a': "\<not> tr \<and> (o' \<noteq> None \<longrightarrow> CodeOf (the o') \<noteq> CodeContention)"
      by (rule locked_attempt [OF env locked f q pick max iv a])
    have "CodeOf e \<noteq> CodeContention" if "w = Some e" for e
      using SaveIdempotencyRecord_failed [OF w [unfolded that]] by (simp add: CodeOf_def no_code_def)
    then show ?thesis using B None a a' w by (auto split: if_splits option.splits)
  qed
qed

lemma book_not_contention:
  assumes env: "env_ok env" "mono (pe_ts env)" "foreign_script env" "no_deadlocks env"
    and s: "day_ready env req q (pe_hash env (rq_DealershipID req), pe_hash env (''day:'' @ date_text day)) s"
    and found: "request_found env req st v c (pg_db s)"
    and q: "sq_DealershipID q = rq_DealershipID req" "sq_VehicleID q = ve_ID v"
    and pick: "policy_contract (sch_policy sch)" and max: "0 < sch_maxAttempts sch" and iv: "within_day env q iv"
    and keys: "durable_script env" "records_durable (pg_db s)" "pg_own_keys s = Map.empty"
    and b: "book_body rt sch req now day q st (booking_appointment req st v c iv) (bookingTx env) s =
    ((r, appt, out), t)"
  shows "no_contention r out"
proof (cases "rq_IdempotencyKey req = []")
  case True
  then show ?thesis
    using fresh_not_contention [OF env s found q pick max iv] b by (simp add: book_body_def)
next
  case False
  let ?d = "rq_DealershipID req" and ?k = "rq_IdempotencyKey req"
  obtain r1 s1 where l: "LockIdempotencyKey env ?d ?k s = (r1, s1)" by fastforce
  obtain r2 s2 where f: "FindIdempotencyRecord env ?d ?k now s1 = (r2, s2)" by fastforce
  have st: "tx_steps env s s1" "tx_steps env s1 s2"
    using session.step_LockIdempotencyKey [of env s ?d ?k] session.step_FindIdempotencyRecord [of env s1 ?d ?k now]
    by (simp_all add: l f)
  have steps: "tx_steps env s s2" by (rule rtranclp_trans [OF st])
  have own: "pg_own_rows s2 = []" "pg_own_keys s2 = Map.empty"
    using LockIdempotencyKey_own [of env ?d ?k s] LockIdempotencyKey_keys [of env ?d ?k s]
      FindIdempotencyRecord_own [of env ?d ?k now s1] FindIdempotencyRecord_keys [of env ?d ?k now s1] l f keys(3) s
    by (simp_all add: day_ready_def Let_def)
  note B = b [unfolded book_body_def bookingTx_sel l, simplified]
  show ?thesis
  proof (cases r1)
    case (Some e)
    then show ?thesis using B False no_contention_outside [OF key_statement_failed(1) [OF l [unfolded Some]]] by simp
  next
    case None
    show ?thesis
    proof (cases r2)
      case (Inl e)
      then show ?thesis using B False None f no_contention_outside [OF key_statement_failed(2) [OF f [unfolded Inl]]] by simp
    next
      case r2: (Inr res)
      note F = FindIdempotencyRecord_Inr [OF f [unfolded r2]]
      show ?thesis
      proof (cases res)
        case None
        have "request_found env req st v c (pg_db s2)"
          using found request_found_catalogue [OF tx_frame [OF steps]] by simp
        from fresh_not_contention [OF env day_ready_steps [OF s steps own(1) env(3)] this q pick max iv]
        show ?thesis using B False \<open>r1 = None\<close> f r2 None by simp
      next
        case (Some rec)
        then obtain v where v: "select_key env ?d ?k now (view s2) = Some v" "rec = record_of_row env ?d ?k v"
          using F by (auto simp: map_option_case split: option.splits)
        have "records_durable (pg_db s2)"
          using durable.tx_steps_R [OF steps] keys(1,2) by (simp add: durable_kept_def)
        then have "kr_error v \<noteq> Some ''CONTENTION''"
          using v(1) own(2) by (auto simp: select_key_def records_durable_def intro: ranI split: option.splits if_splits)
        from replay_not_contention [OF _ this, of env ?d ?k "fingerprint rt req" s2]
        show ?thesis using B False \<open>r1 = None\<close> f r2 Some v(2) by (auto split: prod.splits)
      qed
    qed
  qed
qed

lemma booking_within_day:
  assumes mts: "microsecond_times env" and v: "ValidateBookingTime start (st_Duration st) now loc hours = Inr iv"
    and steady: "day_offsets loc o1 o2 (epoch_day (DateOf start loc))"
    and hours: "\<forall>wd oh. hours wd = Some oh \<longrightarrow> within_day_hours oh"
    and dur: "st = service_type_of_row sr" "0 < svr_duration_minutes sr" "svr_duration_minutes sr \<le> 153722867"
    and q: "sq_Day q = Bounds (DateOf (iv_start iv) loc) loc"
  shows "within_day env q iv"
proof -
  have iv: "iv = NewInterval start (st_Duration st)" using v by (simp add: ValidateBookingTime_Inr)
  have d: "60000000000 \<le> st_Duration st"
    using dur wrap64_id [of "svr_duration_minutes sr * minute"]
    by (simp add: service_type_of_row_def catalogue_duration_def minute_def second_def min_int64_def
    max_int64_def)
  have "t_ns (iv_start iv) div 1000 * 1000 < t_ns (iv_end iv) div 1000 * 1000"
  proof -
    have "t_ns (iv_end iv) =
    t_ns (iv_start iv) + st_Duration st" by (simp add: iv NewInterval_def add_duration_def)
    then have "t_ns (iv_start iv) + 1000 \<le> t_ns (iv_end iv)" using d by simp
    then have "t_ns (iv_start iv) div 1000 + 1 \<le> t_ns (iv_end iv) div 1000"
      using zdiv_mono1 [of "t_ns (iv_start iv) + 1000" "t_ns (iv_end iv)" 1000] by simp
    then show ?thesis by simp
  qed
  then show ?thesis
    using validated_in_bounds [OF v steady hours] monoD [OF microsecond_mono [OF mts]] mts
    by (simp add: within_day_def timestamptz_def q microsecond_times_def iv NewInterval_def)
qed

lemma InTx_not_contention:
  assumes "InTx env body s = ((r, appt, out), t)"
    and "\<And>r appt out t. body (bookingTx env) (open_tx (arrive env s)) = ((r, appt, out), t) \<Longrightarrow>
      case r of Some e \<Rightarrow> CodeOf e \<noteq> CodeContention | None \<Rightarrow> out \<noteq> None
    \<longrightarrow> CodeOf (the out) \<noteq> CodeContention"
    and "tx_result r appt out = Inl err"
  shows "CodeOf err \<noteq> CodeContention"
proof -
  have none: "CodeOf e \<noteq> CodeContention" if "AsError e =
    None" for e using that by (simp add: CodeOf_def no_code_def)
  show ?thesis
    using assms(1)
  proof (cases rule: InTx_cases)
    case (begin_failed e)
    then show ?thesis using assms(3) none by (simp add: tx_result_def)
  next
    case (rolled_back e s2)
    then show ?thesis using assms(2) [OF rolled_back(1)] assms(3) by (simp add: tx_result_def)
  next
    case (commit_failed e s2)
    then show ?thesis using assms(3) none by (simp add: tx_result_def)
  next
    case (lost_ack e s2)
    then show ?thesis using assms(3) none by (simp add: tx_result_def)
  next
    case (committed s2)
    then show ?thesis using assms(2) [OF committed(1)] assms(3) by (auto simp: tx_result_def split: option.splits)
  qed
qed

lemma day_ready_begin:
  assumes "day_ready env req q p s" "foreign_script env"
  shows "day_ready env req q p (open_tx (arrive env s))"
proof -
  have "pg_own_rows (arrive env s) = []" using assms(1) by (simp add: day_ready_def Let_def)
  then have "day_ready env req q p (arrive env s)" by (rule day_ready_steps [OF assms(1) tx_steps_arrive _
    assms(2)])
  then show ?thesis by (simp add: day_ready_def Let_def unused_ids_def) (simp add: open_tx_def)
qed

lemma lookups_found:
  assumes ready: "store_ready env s" and zone: "zone_of env req loc (pg_db s)"
    and d: "dealership env (rq_DealershipID req) s = (Inr d, s1)"
    and st: "serviceType env (rq_ServiceTypeID req) s1 = (Inr st, s2)"
    and v: "vehicleWithOwner env (rq_DealershipID req) (rq_VehicleID req) s2 = (Inr (v, c), s3)"
  shows "tx_steps env s s3" "same_catalogue (pg_db s) (pg_db s3)" "idle s3" "dl_Location d = loc"
    "\<forall>wd oh. dl_Hours d wd = Some oh \<longrightarrow> within_day_hours oh"
    "request_found env req st v c (pg_db s)"
    "\<exists>sr. st = service_type_of_row sr \<and> 0 < svr_duration_minutes sr \<and> svr_duration_minutes sr \<le> 153722867"
proof -
  have r: "idle s" "\<forall>h \<in> set (db_hours (pg_db s)). within_day_hours (hours_of_row h)"
    "\<forall>x \<in> set (db_service_types (pg_db s)). 0 < svr_duration_minutes x \<and> svr_duration_minutes x \<le> 153722867"
    using ready by (simp_all add: store_ready_def)
  note steps = lookup_steps(1) [OF d] lookup_steps(2) [OF st] lookup_steps(3) [OF v]
  show all: "tx_steps env s s3" using steps by (meson rtranclp_trans)
  show "idle s3" by (rule idle_vehicleWithOwner [OF idle_serviceType [OF idle_dealership [OF r(1) d] st] v])
  have cat: "same_catalogue (pg_db s) (pg_db s1)" "same_catalogue (pg_db s) (pg_db s2)"
    using tx_frame [OF steps(1)] tx_frame [OF steps(2)] by (auto simp: same_catalogue_iff)
  show "same_catalogue (pg_db s) (pg_db s3)" by (rule tx_frame [OF all])
  obtain row where row: "row \<in> set (db_dealerships (pg_db s))" "dlr_id row = uuid_arg env (rq_DealershipID req)"
      "pe_load_location env (dlr_timezone row) = Some (dl_Location d)"
    using dealership_Inr(1) [OF d] by blast
  then show "dl_Location d = loc" using zone by (auto simp: zone_of_def)
  show "\<forall>wd oh. dl_Hours d wd = Some oh \<longrightarrow> within_day_hours oh" using dealership_Inr(2) [OF d] r(2) by blast
  obtain sr where sr: "sr \<in> set (db_service_types (pg_db s))" "st = service_type_of_row sr"
    using serviceType_Inr [OF st] cat(1) by (auto simp: same_catalogue_iff)
  then show "\<exists>sr. st = service_type_of_row sr \<and> 0 < svr_duration_minutes sr \<and> svr_duration_minutes sr \<le> 153722867"
    using r(3) by blast
  have "vehicle_with_owner env (rq_DealershipID req) (rq_VehicleID req) (pg_db s) = Some (v, c)"
    using vehicleWithOwner_Inr [OF v] cat(2) by (simp add: vehicle_with_owner_def same_catalogue_iff cong: option.case_cong)
  then show "request_found env req st v c (pg_db s)" using row(1,2) sr unfolding request_found_def by blast
qed

lemma store_ready_observe [simp]: "store_ready env (s\<lparr>pg.more := x\<rparr>) = store_ready env s"
  by (simp add: store_ready_def unused_ids_def)

text \<open>The transaction begins in a state that is ready for the day of the booking.\<close>

lemma booking_day_ready:
  assumes "store_ready env s" "foreign_script env" "writers_lock_day env req loc (pg_db s)"
    and "tx_steps env s u" "idle u" "iv_start iv = rq_StartTime req" "dl_Location d = loc"
  shows "day_ready env req (booking_query req d v iv)
    (pe_hash env (rq_DealershipID req), pe_hash env (''day:'' @ date_text (DateOf (iv_start iv) loc)))
    (open_tx (arrive env u))"
proof -
  let ?q = "booking_query req d v iv" and ?p = "(pe_hash env (rq_DealershipID req),
    pe_hash env (''day:'' @ date_text (DateOf (iv_start iv) loc)))"
  have "day_ready env req ?q ?p s"
    using assms(1,3,6,7) by (simp add: store_ready_def day_ready_def writers_lock_day_def idle_def booking_query_def Let_def)
  then show ?thesis
    using day_ready_begin [OF day_ready_steps [OF _ assms(4) _ assms(2)] assms(2)] assms(5) by (simp add: idle_def)
qed

text \<open>C4: while every session that writes an appointment of the requested day holds the lock of that day
  (ADR-0001), a booking, with or without an idempotency key, does not end in CONTENTION: the selection
  of its first attempt is still free when it is inserted. This rests on what the lock and the service
  assume: the server reports no deadlock, and a failed exclusion constraint only when one of the schema
  is violated; no stored appointment of the dealership reaches into the day from before it (INV-6), since
  the day's schedule does not show it; no idempotency record holds CONTENTION, which the service never
  stores; and the zone keeps its offset around the day or changes it inside the day.\<close>

theorem day_lock_prevents_contention:
  assumes "env_ok env" "microsecond_times env" "foreign_script env" "no_deadlocks env"
    and "store_ready env s" "zone_of env req loc (pg_db s)" "writers_lock_day env req loc (pg_db s)"
    and "day_offsets loc o1 o2 (epoch_day (DateOf (rq_StartTime req) loc))"
    and "sch_repo sch = Repository env" "beside (sch_metrics sch)" "policy_contract (sch_policy sch)"
    and "0 < sch_maxAttempts sch" "durable_script env" "records_durable (pg_db s)"
    and "Book rt sch req s = (Inl err, t)"
  shows "CodeOf err \<noteq> CodeContention"
proof -
  obtain x y u where b: "book_in_tx rt sch req (s\<lparr>pg.more := x\<rparr>) = (Inl err, u)" "t = u\<lparr>pg.more := y\<rparr>"
    using Book_cases [OF assms(15,10)] by blast
  let ?s = "s\<lparr>pg.more := x\<rparr>"
  have ready: "store_ready env ?s" "zone_of env req loc (pg_db ?s)" "writers_lock_day env req loc (pg_db ?s)"
    using assms(5-7) by simp_all
  from b(1) show ?thesis
  proof (cases rule: book_in_tx_cases)
    case (in_tx d s1 st s2 v c s3 iv r appt out)
    note found = lookups_found [OF ready(1,2) in_tx(1-3) [unfolded assms(9) Repository_sel]]
    obtain sr where sr: "st = service_type_of_row sr" "0 < svr_duration_minutes sr" "svr_duration_minutes sr \<le> 153722867"
      using found(7) by blast
    have start: "iv_start iv = rq_StartTime req" using in_tx(4) by (auto simp: ValidateBookingTime_Inr NewInterval_def)
    have day: "within_day env (booking_query req d v iv) iv"
      by (rule booking_within_day [OF assms(2) in_tx(4) _ found(5) sr])
        (use assms(8) in \<open>simp_all add: found(4) booking_query_def start\<close>)
    have req: "request_found env req st v c (pg_db (open_tx (arrive env s3)))"
      using found(6) request_found_catalogue [OF found(2), of env req st v c]
        request_found_catalogue [OF tx_frame [OF tx_steps_arrive], of env req st v c s3 env] by simp
    have keys: "records_durable (pg_db (open_tx (arrive env s3)))" "pg_own_keys (open_tx (arrive env s3)) = Map.empty"
      using durable.tx_steps_R [OF rtranclp_trans [OF found(1) tx_steps_arrive]] assms(13,14) found(3)
      by (simp_all add: durable_kept_def idle_def)
    note rdy = booking_day_ready [OF ready(1) assms(3) ready(3) found(1,3) start found(4), of v]
    note body = book_not_contention [OF assms(1) microsecond_mono [OF assms(2)] assms(3,4)
        rdy [folded found(4)] req _ _ assms(11,12) day assms(13) keys]
    show ?thesis
      by (rule InTx_not_contention [OF in_tx(5) [unfolded assms(9) Repository_sel] body in_tx(6) [symmetric]])
        (simp_all add: booking_query_def)
  qed (auto simp: assms(9) dest: lookup_errors elim!: ValidateBookingTime_Inl)
qed

lemma sample_canonical: "is_hex c \<Longrightarrow> lower_char c = c \<Longrightarrow> canonical (sample_id c)"
  by (simp add: canonical_def)

lemma sample_catalogue: "catalogue_ok sample_db"
  by (simp add: catalogue_ok_def keys_distinct_def sample_db_def sample_canonical)

lemma sample_hours: "\<forall>h \<in> set (db_hours sample_db). within_day_hours (hours_of_row h)"
  by (simp add: sample_db_def within_day_hours_def hours_of_row_def minutes_of_time_def trunc_div_def)

lemma sample_no_events: "ev_rows (pe_script sample_env n) = []" "ev_fail (pe_script sample_env n) = None"
  using sample_env_ok(2) by (simp_all add: quiet_def quiet_event_def)

lemma sample_uuid_new: "pe_uuid sample_env n = sample_id (CHR ''a'')" by (simp add: sample_env_def)

lemma sample_durations:
  "\<forall>x \<in> set (db_service_types sample_db). 0 < svr_duration_minutes x \<and> svr_duration_minutes x \<le> 153722867"
  by (simp add: sample_db_def)

lemma sample_ready:
  assumes "same_catalogue (pg_db s) sample_db" "session_ok s" "idle s"
    and "sample_id (CHR ''a'') \<notin> row_id ` set (db_appointments (pg_db s))"
  shows "store_ready sample_env s"
  using assms sample_hours sample_durations sample_catalogue catalogue_ok_catalogue [OF assms(1)]
  by (simp add: store_ready_def unused_ids_def sample_uuid_new same_catalogue_iff)

lemma sample_steady: "steady_day ict 25200 (epoch_day sample_date)"
proof -
  have "epoch_day sample_date = 21977" by code_simp
  then show ?thesis using steady_day_ict [of 21977] by simp
qed

lemma sample_microseconds: "microsecond_times sample_env"
  by (simp add: microsecond_times_def sample_env_def)

theorem day_lock_prevents_contention_witness:
  "\<exists>e. fst (booked [] taken_pg) = Inl e \<and> CodeOf e \<noteq> CodeContention"
proof -
  obtain e n where n: "booked [] taken_pg = (Inl (EDomain e), tick n taken_pg)" using sample_rejects by blast
  have ready: "store_ready sample_env taken_pg"
    using taken_session by (intro sample_ready) (simp_all add: taken_row_def)
  have lock: "writers_lock_day sample_env (sample_request []) ict (pg_db taken_pg)"
    by (simp add: writers_lock_day_def Let_def day_protocol_def sample_no_events orderly_db_def orderly_row_def
        timestamptz_def taken_row_def sample_row_def meets_day_def) (simp add: sample_env_def)
  have off: "day_offsets ict 25200 25200 (epoch_day (DateOf (rq_StartTime (sample_request [])) ict))"
    using day_offsets_steady [OF sample_steady] by simp
  have keys: "durable_script sample_env" "records_durable (pg_db taken_pg)"
    using sample_scripts(2) by (simp_all add: durable_script_def keyless_script_def records_durable_def taken_pg_def)
      (simp add: sample_db_def)
  show ?thesis
    using day_lock_prevents_contention [OF sample_env_ok(1) sample_microseconds sample_scripts(1) _ ready _ lock off
        sample_sel(1) sample_beside _ _ keys n [unfolded booked_def]] least_loaded.policy_contract_axioms n
    by (simp add: no_deadlocks_def sample_no_events zone_of_def)
qed

section \<open>The schedule of a day\<close>

text \<open>The appointments that count against a day: CONFIRMED, of the dealership, and starting in it.\<close>

definition starts_in_day :: "pg_env \<Rightarrow> schedule_query \<Rightarrow> appointment_row \<Rightarrow> bool" where
  "starts_in_day env q r \<longleftrightarrow> row_status r = StatusConfirmed \<and>
     pe_parse_uuid env (sq_DealershipID q) = Some (row_dealership r) \<and>
     row_start r \<in> {pe_ts env (t_ns (iv_start (sq_Day q))) ..< pe_ts env (t_ns (iv_end (sq_Day q)))}"

lemma map_filter_comprehension: "map f (filter P xs) = [f x. x \<leftarrow> xs, P x]"
  by (induction xs) simp_all

lemma booked_intervals:
  assumes "sched = schedule_of env q d" "pe_parse_uuid env (sq_DealershipID q) = Some D"
  shows "\<forall>ts \<in> set (Technicians sched). ts_Booked ts =
      [row_interval env r. r \<leftarrow> db_appointments d, starts_in_day env q r \<and> row_technician r = tech_ID (ts_Technician ts)]"
    and "\<forall>bs \<in> set (Bays sched). bs_Booked bs =
      [row_interval env r. r \<leftarrow> db_appointments d, starts_in_day env q r \<and> row_bay r = bay_ID (bs_Bay bs)]"
    and "sq_VehicleID q \<noteq> [] \<Longrightarrow> VehicleBooked sched =
      [row_interval env r. r \<leftarrow> db_appointments d, starts_in_day env q r \<and> row_vehicle r = sq_VehicleID q]"
proof -
  have day: "select_day env q d = filter (starts_in_day env q) (db_appointments d)"
    by (auto simp: select_day_def starts_in_day_def timestamptz_def uuid_arg_def assms(2) intro!: filter_cong)
  have pick: "map (row_interval env) (filter P (select_day env q d)) =
      [row_interval env r. r \<leftarrow> db_appointments d, starts_in_day env q r \<and> Q r]" if "\<And>r. P r = Q r" for P Q
    unfolding day filter_filter map_filter_comprehension by (simp add: that conj_commute)
  show "\<forall>ts \<in> set (Technicians sched). ts_Booked ts =
      [row_interval env r. r \<leftarrow> db_appointments d, starts_in_day env q r \<and> row_technician r = tech_ID (ts_Technician ts)]"
    by (auto simp: assms(1) schedule_of_def booked_schedule_def intro!: pick)
  show "\<forall>bs \<in> set (Bays sched). bs_Booked bs =
      [row_interval env r. r \<leftarrow> db_appointments d, starts_in_day env q r \<and> row_bay r = bay_ID (bs_Bay bs)]"
    by (auto simp: assms(1) schedule_of_def booked_schedule_def intro!: pick)
  show "VehicleBooked sched =
      [row_interval env r. r \<leftarrow> db_appointments d, starts_in_day env q r \<and> row_vehicle r = sq_VehicleID q]"
    if "sq_VehicleID q \<noteq> []"
    using that by (auto simp: assms(1) schedule_of_def booked_schedule_def intro!: pick)
qed

lemma listed_resources:
  assumes "sched = schedule_of env q d" "pe_parse_uuid env (sq_DealershipID q) = Some D" "keys_distinct d"
  shows "sorted_wrt (<) (map (tech_ID \<circ> ts_Technician) (Technicians sched))"
    and "(tech_ID \<circ> ts_Technician) ` set (Technicians sched) = ter_id ` {x \<in> set (db_technicians d). ter_dealership x = D}"
    and "\<forall>ts \<in> set (Technicians sched). set (tech_SkillIDs (ts_Technician ts)) =
      {k. (tech_ID (ts_Technician ts), k) \<in> set (db_technician_skills d)}"
    and "sorted_wrt (<) (map (bay_ID \<circ> bs_Bay) (Bays sched))"
    and "bs_Bay ` set (Bays sched) = bay_of_row ` {x \<in> set (db_bays d). bar_dealership x = D}"
proof -
  have u: "uuid_arg env (sq_DealershipID q) = D" by (simp add: uuid_arg_def assms(2))
  have t: "map ts_Technician (Technicians sched) = select_technicians env (sq_DealershipID q) d"
    and b: "map bs_Bay (Bays sched) = select_bays env (sq_DealershipID q) d"
    by (simp_all add: assms(1) schedule_of_def booked_schedule_def comp_def)
  have t': "ts_Technician ` set (Technicians sched) = set (select_technicians env (sq_DealershipID q) d)"
    and b': "bs_Bay ` set (Bays sched) = set (select_bays env (sq_DealershipID q) d)"
    by (metis t list.set_map) (metis b list.set_map)
  have strict: "sorted xs \<Longrightarrow> distinct xs \<Longrightarrow> sorted_wrt (<) xs" for xs :: "string list"
    by (simp add: strict_sorted_iff)
  have "map tech_ID (map ts_Technician (Technicians sched)) = map ter_id (sort_key ter_id
      (filter (\<lambda>x. ter_dealership x = D) (db_technicians d)))"
    by (simp add: t select_technicians_def u comp_def)
  moreover have "distinct (map tech_ID (map ts_Technician (Technicians sched)))"
    unfolding t by (rule distinct_select_technicians [OF assms(3)])
  ultimately show "sorted_wrt (<) (map (tech_ID \<circ> ts_Technician) (Technicians sched))"
    by (intro strict) simp_all
  show "(tech_ID \<circ> ts_Technician) ` set (Technicians sched) = ter_id ` {x \<in> set (db_technicians d). ter_dealership x = D}"
    unfolding image_comp [symmetric] t' by (simp add: select_technicians_def u image_image)
  have "set (tech_SkillIDs x) = {k. (tech_ID x, k) \<in> set (db_technician_skills d)}"
    if "x \<in> set (select_technicians env (sq_DealershipID q) d)" for x
    using that by (force simp: select_technicians_def)
  then show "\<forall>ts \<in> set (Technicians sched). set (tech_SkillIDs (ts_Technician ts)) =
      {k. (tech_ID (ts_Technician ts), k) \<in> set (db_technician_skills d)}"
    using t' by blast
  have "map bay_ID (map bs_Bay (Bays sched)) = map bar_id (sort_key bar_id
      (filter (\<lambda>x. bar_dealership x = D) (db_bays d)))"
    by (simp add: b select_bays_def u comp_def bay_of_row_def)
  moreover have "distinct (map bay_ID (map bs_Bay (Bays sched)))"
    unfolding b by (rule distinct_select_bays [OF assms(3)])
  ultimately show "sorted_wrt (<) (map (bay_ID \<circ> bs_Bay) (Bays sched))"
    by (intro strict) simp_all
  show "bs_Bay ` set (Bays sched) = bay_of_row ` {x \<in> set (db_bays d). bar_dealership x = D}"
    unfolding b' by (simp add: select_bays_def u)
qed

text \<open>C15: the schedule the transaction decides on lists exactly the technicians and bays of the dealership, in
  the order of their identifiers, each technician with the skills it holds; and each with exactly the
  intervals of its appointments that are CONFIRMED, of the dealership, and start at or after the start of
  the day and before its end. The intervals of the vehicle, when one is given, are chosen the same way. All
  of it is as the last of the three statements saw it.\<close>

theorem day_schedule_exact:
  assumes "daySchedule env q s = (Inr sched, t)" "keys_distinct (pg_db s)"
    and "pe_parse_uuid env (sq_DealershipID q) = Some D"
  shows "sorted_wrt (<) (map (tech_ID \<circ> ts_Technician) (Technicians sched)) \<and>
    (tech_ID \<circ> ts_Technician) ` set (Technicians sched) =
      ter_id ` {x \<in> set (db_technicians (view t)). ter_dealership x = D} \<and>
    (\<forall>ts \<in> set (Technicians sched). set (tech_SkillIDs (ts_Technician ts)) =
      {k. (tech_ID (ts_Technician ts), k) \<in> set (db_technician_skills (view t))}) \<and>
    sorted_wrt (<) (map (bay_ID \<circ> bs_Bay) (Bays sched)) \<and>
    bs_Bay ` set (Bays sched) = bay_of_row ` {x \<in> set (db_bays (view t)). bar_dealership x = D} \<and>
    (\<forall>ts \<in> set (Technicians sched). ts_Booked ts = [row_interval env r. r \<leftarrow> db_appointments (view t),
       starts_in_day env q r \<and> row_technician r = tech_ID (ts_Technician ts)]) \<and>
    (\<forall>bs \<in> set (Bays sched). bs_Booked bs = [row_interval env r. r \<leftarrow> db_appointments (view t),
       starts_in_day env q r \<and> row_bay r = bay_ID (bs_Bay bs)]) \<and>
    (sq_VehicleID q \<noteq> [] \<longrightarrow> VehicleBooked sched = [row_interval env r. r \<leftarrow> db_appointments (view t),
       starts_in_day env q r \<and> row_vehicle r = sq_VehicleID q])"
proof -
  have sched: "sched = schedule_of env q (view t)" using daySchedule_Inr [OF assms(1,2)] by (rule conjunct1)
  have "same_catalogue (pg_db s) (pg_db t)"
    using tx_frame [OF daySchedule_steps [of env s q]] assms(1) by simp
  then have k: "keys_distinct (view t)" using assms(2) by (simp add: keys_distinct_def same_catalogue_iff)
  show ?thesis
    using booked_intervals [OF sched assms(3)] listed_resources [OF sched assms(3) k] by blast
qed

theorem day_schedule_exact_witness:
  "\<exists>sched. fst (daySchedule sample_env (sample_query []) taken_pg) = Inr sched \<and>
    map bs_Booked (Bays sched) = [[row_interval sample_env taken_row]]"
proof -
  have d: "daySchedule sample_env (sample_query []) taken_pg = (Inr full_schedule, tick 3 taken_pg)"
    by (rule sample_day_full) simp_all
  have "catalogue_ok (pg_db taken_pg)" using sample_catalogue catalogue_ok_catalogue [OF taken_sel(2)] by simp
  then have k: "keys_distinct (pg_db taken_pg)" by (simp add: catalogue_ok_def)
  have u: "pe_parse_uuid sample_env (sq_DealershipID (sample_query [])) = Some (sample_id (CHR ''d''))"
    by (simp add: booking_query_def) (simp add: sample_env_def)
  have e: "select_day sample_env (sample_query []) (view (tick 3 taken_pg)) = [taken_row]"
    by (rule taken_row_scheduled) simp
  have r: "db_appointments (view (tick 3 taken_pg)) = [taken_row]" by (simp add: view_def)
  have s: "starts_in_day sample_env (sample_query []) taken_row"
    using e r by (auto simp: select_day_def starts_in_day_def timestamptz_def uuid_arg_def u split: if_splits)
  have b: "row_bay taken_row = sample_id (CHR ''b'')" by (simp add: taken_row_def sample_row_def)
  have i: "map (bay_ID \<circ> bs_Bay) (Bays full_schedule) = [sample_id (CHR ''b'')]"
    by (simp add: full_schedule_def sample_schedule_def Let_def)
  show ?thesis
    using day_schedule_exact [OF d k u] i unfolding r by (cases "Bays full_schedule") (auto simp: d b s)
qed

end
