(* ===== verification/Offered.thy ===== *)
theory Offered
  imports DayLock
begin

text \<open>
  From availability to booking: with no other session and no failure in between, a slot that
  \<^verbatim>\<open>Availability\<close> offers is a slot that \<^verbatim>\<open>Book\<close> books.
\<close>

section \<open>Lookups again\<close>

text \<open>Two states in which a quiet statement sees the same.\<close>

definition same_view :: "'m pg_scheme \<Rightarrow> 'm pg_scheme \<Rightarrow> bool" where
  "same_view s s' \<longleftrightarrow> view s' = view s \<and> \<not> pg_aborted s \<and> \<not> pg_aborted s'"

lemma same_view_tick [simp]:
  "same_view (tick n s) s' = same_view s s'" "same_view s (tick n s') = same_view s s'"
  by (simp_all add: same_view_def)

lemma quiet_query:
  assumes "quiet env" "\<not> pg_aborted s"
  shows "query env us f s = (if list_ex (\<lambda>u. pe_parse_uuid env u = None) us
    then (Inl (EText ''cannot encode uuid parameter''), tick 1 s) else (Inr (f (view s)), tick 1 s))"
proof -
  have "ev_fail (pe_script env n) = None" for n
    using assms(1) by (simp add: quiet_def quiet_event_def)
  then show ?thesis
    using assms(2) by (simp add: query_def statement_def Let_def arrive_quiet [OF assms(1)])
qed

lemma dealership_again:
  assumes "quiet env" "same_view s s'" "dealership env i s = (Inr d, t)"
  shows "\<exists>k k'. t = tick k s \<and> dealership env i s' = (Inr d, tick k' s')"
  using assms(2,3) by (auto simp: dealership_def same_view_def quiet_query [OF assms(1)] split: if_splits
    option.splits)

lemma serviceType_again:
  assumes "quiet env" "same_view s s'" "serviceType env i s = (Inr d, t)"
  shows "\<exists>k k'. t = tick k s \<and> serviceType env i s' = (Inr d, tick k' s')"
  using assms(2,3) by (auto simp: serviceType_def same_view_def quiet_query [OF assms(1)] split: if_splits
    option.splits)

lemma vehicleWithOwner_again:
  assumes "quiet env" "same_view s s'" "vehicleWithOwner env i j s = (Inr d, t)"
  shows "\<exists>k k'. t = tick k s \<and> vehicleWithOwner env i j s' = (Inr d, tick k' s')"
  using assms(2,3)
  by (auto simp: vehicleWithOwner_def same_view_def quiet_query [OF assms(1)] split: if_splits option.splits)

lemma daySchedule_again:
  assumes "quiet env" "same_view s s'" "daySchedule env q s = (Inr d, t)"
  shows "\<exists>k k'. t = tick k s \<and> daySchedule env q s' = (Inr d, tick k' s')"
  using assms(2,3)
  by (auto simp: daySchedule_def same_view_def quiet_query [OF assms(1)] split: if_splits prod.splits)

section \<open>The insert, undisturbed\<close>

lemma quiet_insert:
  assumes q: "quiet env" "env_ok env" "\<not> pg_aborted s" "session_ok s"
    and us: "uuids_ok env [na_DealershipID na, na_VehicleID na, na_CustomerID na, na_ServiceTypeID na,
        na_RequiredSkillID na, na_TechnicianID na, na_BayID na]"
    and v: "insert_violation (view s) (new_row env na (Suc (pg_tick s))) = None"
    and zone: "\<forall>x \<in> set (db_dealerships (pg_db s)). dlr_id x =
    uuid_arg env (na_DealershipID na) \<longrightarrow>
        pe_load_location env (dlr_timezone x) = Some loc"
  shows "\<exists>a. InsertAppointment env na s =
    (Inr a, tick 4 (s\<lparr>pg_own_rows := pg_own_rows s @ [new_row env na (Suc (pg_tick s))]\<rparr>))"
proof -
  let ?r = "new_row env na (Suc (pg_tick s))"
  let ?t = "tick 3 (s\<lparr>pg_own_rows := pg_own_rows s @ [?r]\<rparr>)"
  have ok: "session_ok ?t" using session_ok_insert [OF q(4) v] by simp
  have i: "row_id ?r = pe_uuid env (Suc (pg_tick s))" by (simp add: new_row_def)
  have "?r \<in> set (db_appointments (view ?t))" by simp
  moreover have "uuid_arg env (row_id ?r) = row_id ?r" using uuid_arg_generated [OF q(2)] by (simp add: i)
  ultimately obtain j where j: "select_appointment env (row_id ?r) (view ?t) =
    Some (?r, j)" "join_appointment (view ?t) ?r = Some j"
    using select_own_row [OF ok] by blast
  obtain dl c ve sty te ba where j': "j = (dl, c, ve, sty, te, ba)" by (metis prod_cases6)
  have "dl \<in> set (db_dealerships (pg_db s))" "dlr_id dl = row_dealership ?r"
    using j(2) by (auto simp: j' join_appointment_def dest!: find_Some split: option.splits)
  then have loc: "pe_load_location env (dlr_timezone dl) = Some loc" using zone by (simp add: new_row_def)
  have uid: "is_uuid (row_id ?r)" using q(2) by (simp add: env_ok_def i)
  have "appointment env (row_id ?r) ?t = (Inr (appointment_of_row env loc ?r c ve sty te ba), tick 1 ?t)"
    using q(3) uid j(1) loc by (simp add: appointment_def j' query_quiet [OF q(1,2)])
  then show ?thesis
    using q(3) us v by (simp add: InsertAppointment_def insert_row_def eval_nat_numeral statement_quiet [OF
    q(1,2)])
qed

section \<open>A booking, undisturbed\<close>

text \<open>
  The booking of an accepted interval in a quiet session: when the lookups succeed and the schedule
  of the day admits a selection, the booking succeeds.
\<close>

lemma quiet_attempt:
  assumes env: "quiet env" "env_ok env" "microsecond_times env"
    and s: "day_locked env req q p s" "\<not> pg_aborted s" and found: "request_found env req st v c (pg_db s)"
    and zone: "zone_of env req loc (pg_db s)"
    and ids: "is_uuid (rq_DealershipID req)"
    and q: "sq_DealershipID q = rq_DealershipID req" "sq_VehicleID q = ve_ID v"
    and pick: "policy_contract (sch_policy sch)" and max: "0 < sch_maxAttempts sch" and iv: "within_day env q iv"
    and d: "daySchedule env q s = (Inr schedule, tick k s)"
    and a: "Assign schedule st iv (sch_policy sch) = Inr a"
  shows "\<exists>appt n r. assignAndInsert sch (bookingTx env) q st (booking_appointment req st v c iv) s =
    ((appt, None, False), tick n (s\<lparr>pg_own_rows := [r]\<rparr>))"
proof -
  let ?na = "with_assignment (booking_appointment req st v c iv) a"
  let ?s = "tick k s"
  have f: "foreign_script env" using quiet_scripts [OF env(1)] by simp
  have steps: "tx_steps env s ?s" using daySchedule_steps [of env s q] d by simp
  have own: "pg_own_rows ?s = []" "keys_distinct (pg_db s)"
    using s(1) by (simp_all add: day_locked_def day_ready_def catalogue_ok_def Let_def)
  have locked: "day_locked env req q p ?s" by (rule day_locked_steps [OF s(1) steps own(1) f])
  have sched: "schedule = schedule_of env q (view ?s)" using daySchedule_Inr [OF d own(2)] by (rule conjunct1)
  obtain sr where sr: "sr \<in> set (db_service_types (pg_db ?s))" "st = service_type_of_row sr"
    using found unfolding request_found_def by auto
  have v: "vehicle_with_owner env (rq_DealershipID req) (rq_VehicleID req) (pg_db ?s) = Some (v, c)"
    and dl: "\<exists>x \<in> set (db_dealerships (pg_db ?s)). dlr_id x = uuid_arg env (rq_DealershipID req)"
    using found by (simp_all add: request_found_def)
  have ins: "insert_violation (view ?s) (new_row env ?na (Suc (pg_tick ?s))) = None"
    by (rule locked_insert_accepted [OF env(2) microsecond_mono [OF env(3)] f locked rtranclp.rtrancl_refl
    own(1) _ dl sr v q
          a [unfolded sched] pick]) (use iv in \<open>simp_all add: within_day_def\<close>)
  have as: "technician_assigned schedule st iv (as_Technician a)" "bay_assigned schedule st iv (as_Bay a)"
    using policy_contract.assigned_resources [OF pick a] by simp_all
  have cat: "catalogue_ok (pg_db s)" using s(1) by (simp add: day_locked_def day_ready_def Let_def)
  have us: "uuids_ok env [na_DealershipID ?na, na_VehicleID ?na, na_CustomerID ?na, na_ServiceTypeID ?na,
        na_RequiredSkillID ?na, na_TechnicianID ?na, na_BayID ?na]"
    using ids sr cat vehicle_with_owner_Some(1) [OF v] selected_technician(1) [OF as(1) [unfolded sched]]
      selected_bay(1) [OF as(2) [unfolded sched]]
    by (auto simp: with_assignment_def booking_appointment_def service_type_of_row_def catalogue_ok_def
    canonical_def)
  obtain appt where appt: "InsertAppointment env ?na ?s =
    (Inr appt, tick 4 (?s\<lparr>pg_own_rows := pg_own_rows ?s @ [new_row env ?na (Suc (pg_tick ?s))]\<rparr>))"
    using quiet_insert [OF env(1,2) _ _ us ins, of loc] s(2) locked zone
    by (auto simp: day_locked_def day_ready_def Let_def zone_of_def with_assignment_def booking_appointment_def)
  have na: "na_Interval (booking_appointment req st v c iv) = iv" by (simp add: booking_appointment_def)
  show ?thesis
    using max a appt own(1)
    by (auto simp: assignAndInsert_def attempts.simps [of _ _ _ _ 0] d na)
qed

lemma quiet_commit: "quiet env \<Longrightarrow> \<not> pg_aborted s \<Longrightarrow>
    commit_tx env s = (None, tick 1 (apply_tx s))"
  by (simp add: commit_tx_def Let_def arrive_quiet) (simp add: quiet_def quiet_event_def)

lemma quiet_protocol: "quiet env \<Longrightarrow> day_protocol env D lo hi p" "quiet env \<Longrightarrow>
    no_deadlocks env"
  by (simp_all add: quiet_def quiet_event_def day_protocol_def no_deadlocks_def)

lemma same_view_fields [simp]:
  "view (open_tx s) = view s" "view (s\<lparr>pg_locks := l\<rparr>) =
    view s" "pg_db (s\<lparr>pg_locks := l\<rparr>) = pg_db s"
  "pg_tick (open_tx s) = pg_tick s"
  by (simp_all add: open_tx_def view_def)

text \<open>What an availability answer with a slot in it tells.\<close>

lemma Availability_slot:
  assumes "Availability sch aq s = (Inr ar, t)" "slot \<in> set (ar_Slots ar)"
  obtains date d s1 st s2 v c s3 w sched where "ParseDate (aq_Date aq) = Inr date"
    "repo_Dealership (sch_repo sch) (aq_DealershipID aq) s = (Inr d, s1)"
    "repo_ServiceType (sch_repo sch) (aq_ServiceTypeID aq) s1 = (Inr st, s2)"
    "repo_VehicleWithOwner (sch_repo sch) (aq_DealershipID aq) (aq_VehicleID aq) s2 = (Inr (v, c), s3)"
    "Window (dl_Hours d) date (dl_Location d) = Some w"
    "repo_DaySchedule (sch_repo sch) \<lparr>sq_DealershipID = aq_DealershipID aq, sq_Day =
    Bounds date (dl_Location d),
       sq_VehicleID = aq_VehicleID aq\<rparr> s3 = (Inr sched, t)"
    "slot \<in> set (AvailableSlots w st sched (sch_now sch t) (sch_granularity sch) (sch_policy sch))"
  using assms by (auto simp: Availability_def split: sum.splits prod.splits option.splits if_splits)

lemma quiet_fresh:
  assumes env: "quiet env" "env_ok env" "microsecond_times env"
    and s: "day_ready env req q (pe_hash env (rq_DealershipID req),
    pe_hash env (''day:'' @ date_text day)) s" "\<not> pg_aborted s"
    and found: "request_found env req st v c (pg_db s)" and zone: "zone_of env req loc (pg_db s)"
    and ids: "is_uuid (rq_DealershipID req)"
    and q: "sq_DealershipID q = rq_DealershipID req" "sq_VehicleID q = ve_ID v"
    and pick: "policy_contract (sch_policy sch)" and max: "0 < sch_maxAttempts sch" and iv: "within_day env q iv"
    and d: "same_view s' s" "daySchedule env q s' = (Inr schedule, t')"
    and a: "Assign schedule st iv (sch_policy sch) = Inr a" and key: "rq_IdempotencyKey req = []"
  shows "\<exists>appt u. book_body rt sch req now day q st (booking_appointment req st v c iv) (bookingTx
    env) s =
    ((None, appt, None), u) \<and> \<not> pg_aborted u"
proof -
  let ?p = "(pe_hash env (rq_DealershipID req), pe_hash env (''day:'' @ date_text day))"
  let ?s = "tick 1 (s\<lparr>pg_locks := insert ?p (pg_locks s)\<rparr>)"
  have l: "LockSchedulingDay env (rq_DealershipID req) day s = (None, ?s)"
    using s(2) by (simp add: LockSchedulingDay_def advisory_lock_def statement_quiet [OF env(1,2)])
  have locked: "day_locked env req q ?p ?s"
  proof -
    have "day_ready env req q ?p (arrive env s)"
      by (rule day_ready_steps [OF s(1) tx_steps_arrive]) (use s(1) quiet_scripts [OF env(1)] in
    \<open>simp_all add: day_ready_def Let_def\<close>)
    then show ?thesis by (simp add: day_locked_def arrive_quiet [OF env(1)] day_ready_def unused_ids_def Let_def)
  qed
  have "same_view s' ?s" using d(1) by (simp add: same_view_def)
  then obtain k where k: "daySchedule env q ?s = (Inr schedule, tick k ?s)"
    using daySchedule_again [OF env(1) _ d(2)] daySchedule_again [OF env(1)] by (metis same_view_def)
  have f: "request_found env req st v c (pg_db ?s)" "zone_of env req loc (pg_db ?s)" "\<not> pg_aborted ?s"
    using found zone s(2) by simp_all
  obtain appt n r where n: "assignAndInsert sch (bookingTx env) q st (booking_appointment req st v c iv) ?s =
      ((appt, None, False), tick n (?s\<lparr>pg_own_rows := [r]\<rparr>))"
    using quiet_attempt [OF env locked f(3,1,2) ids q pick max iv k a] by blast
  show ?thesis using s(2) key by (auto simp: book_body_def book_fresh_def l n [simplified])
qed

lemma lookups_again:
  assumes q: "quiet env" and v0: "same_view s s'"
    and d: "dealership env i s = (Inr d, s1)" and st: "serviceType env j s1 = (Inr st, s2)"
    and v: "vehicleWithOwner env i k s2 = (Inr (v, c), s3)"
  obtains n m1 m2 m3 where "s3 = tick n s" "dealership env i s' = (Inr d, tick m1 s')"
    "serviceType env j (tick m1 s') = (Inr st, tick m2 s')"
    "vehicleWithOwner env i k (tick m2 s') = (Inr (v, c), tick m3 s')"
proof -
  obtain k1 m1 where 1: "s1 = tick k1 s" "dealership env i s' = (Inr d, tick m1 s')"
    using dealership_again [OF q v0 d] by blast
  obtain k2 m2 where 2: "s2 = tick k2 s1" "serviceType env j (tick m1 s') = (Inr st, tick m2 (tick m1 s'))"
    using serviceType_again [OF q _ st, of "tick m1 s'"] v0 1 by auto
  obtain k3 m3 where 3: "s3 = tick k3 s2"
      "vehicleWithOwner env i k (tick m2 (tick m1 s')) = (Inr (v, c), tick m3 (tick m2 (tick m1 s')))"
    using vehicleWithOwner_again [OF q _ v, of "tick m2 (tick m1 s')"] v0 1 2 by auto
  show ?thesis using 1 2 3 that by simp
qed

text \<open>A booking whose lookups succeed, whose start is accepted and for which a selection exists.\<close>

lemma quiet_book:
  assumes env: "quiet env" "env_ok env" "microsecond_times env"
    and s: "store_ready env s" "zone_of env req loc (pg_db s)" "writers_lock_day env req loc (pg_db s)"
    and steady: "steady_day loc off (epoch_day (DateOf (rq_StartTime req) loc))"
    and sch: "sch_repo sch = Repository env" "policy_contract (sch_policy sch)" "0 < sch_maxAttempts sch"
    and l: "dealership env (rq_DealershipID req) s = (Inr d, tick m1 s)"
      "serviceType env (rq_ServiceTypeID req) (tick m1 s) = (Inr st, tick m2 s)"
      "vehicleWithOwner env (rq_DealershipID req) (rq_VehicleID req) (tick m2 s) = (Inr (v, c), tick m3 s)"
    and iv: "iv = NewInterval (rq_StartTime req) (st_Duration st)"
    and ok: "ValidateBookingTime (rq_StartTime req) (st_Duration st) (sch_now sch (tick m3 s)) loc (dl_Hours d) = Inr iv"
    and sched: "same_view s' s" "daySchedule env (booking_query req d v iv) s' = (Inr sched, t')"
    and a: "Assign sched st iv (sch_policy sch) = Inr a" and key: "rq_IdempotencyKey req = []"
  shows "\<exists>appt u. book_in_tx rt sch req s = (Inr appt, u)"
proof -
  note found = lookups_found [OF s(1,2) l]
  obtain sr where sr: "st = service_type_of_row sr" "0 < svr_duration_minutes sr" "svr_duration_minutes sr \<le> 153722867"
    using found(7) by blast
  have start: "iv_start iv = rq_StartTime req" by (simp add: iv NewInterval_def)
  let ?b = "open_tx (arrive env (tick m3 s))" and ?q = "booking_query req d v iv"
  have b: "?b = open_tx (tick (m3 + 1) s)" by (simp add: arrive_quiet [OF env(1)])
  have ab: "\<not> pg_aborted s" using s(1) by (simp add: store_ready_def idle_def)
  have day: "within_day env ?q iv"
    by (rule booking_within_day [OF env(3) ok day_offsets_steady [OF steady] found(5) sr]) (simp add: booking_query_def start found(4))
  have rdy: "day_ready env req ?q (pe_hash env (rq_DealershipID req),
      pe_hash env (''day:'' @ date_text (DateOf (iv_start iv) loc))) ?b"
    using booking_day_ready [OF s(1) _ s(3) found(1,3) start found(4)] quiet_scripts [OF env(1)] by simp
  have f: "request_found env req st v c (pg_db ?b)" "zone_of env req loc (pg_db ?b)" "\<not> pg_aborted ?b" "same_view s' ?b"
    using found(6) s(2) ab sched(1) by (simp_all add: arrive_quiet [OF env(1)] same_view_def open_tx_def)
  have qs: "sq_DealershipID ?q = rq_DealershipID req" "sq_VehicleID ?q = ve_ID v" by (simp_all add: booking_query_def)
  have isu: "is_uuid (rq_DealershipID req)" using l(1) by (auto simp: dealership_def split: if_splits)
  obtain appt u where body: "book_body rt sch req (sch_now sch (tick m3 s)) (DateOf (iv_start iv) loc) ?q st
      (booking_appointment req st v c iv) (bookingTx env) ?b = ((None, appt, None), u)" "\<not> pg_aborted u"
    using quiet_fresh [OF env rdy f(3,1,2) isu qs sch(2,3) day f(4) sched(2) a key] by blast
  have "InTx env (book_body rt sch req (sch_now sch (tick m3 s)) (DateOf (iv_start iv) loc) ?q st
      (booking_appointment req st v c iv)) (tick m3 s) = ((None, appt, None), tick 1 (apply_tx u))"
    using body ab by (simp add: InTx_def statement_quiet [OF env(1,2)] quiet_commit [OF env(1)] b)
  then show ?thesis
    using ok by (simp add: book_in_tx_def sch(1) l Let_def booking_query_def booking_appointment_def found(4) start)
qed

lemma offered_slot_books:
  assumes "quiet env" "env_ok env" "microsecond_times env"
    and "store_ready env s" "zone_of env req loc (pg_db s)" "writers_lock_day env req loc (pg_db s)"
    and "ParseDate (aq_Date aq) = Inr date" "steady_day loc off (epoch_day date)" "canonical (aq_VehicleID aq)"
    and "sch_repo sch = Repository env" "beside (sch_metrics sch)" "policy_contract (sch_policy sch)"
    and "0 < sch_maxAttempts sch" "\<And>u. t_ns (sch_now sch u) \<le> t_ns (rq_StartTime req)"
    and "Availability sch aq s = (Inr ar, t)" "slot \<in> set (ar_Slots ar)" "t_ns (rq_StartTime req) = t_ns slot"
    and "rq_DealershipID req = aq_DealershipID aq" "rq_VehicleID req = aq_VehicleID aq"
    and "rq_ServiceTypeID req = aq_ServiceTypeID aq" "rq_IdempotencyKey req = []"
  shows "\<exists>appt u. Book rt sch req t = (Inr appt, u)"
proof -
  obtain d s1 st s2 v c s3 w sched where av: "dealership env (rq_DealershipID req) s = (Inr d, s1)"
    "serviceType env (rq_ServiceTypeID req) s1 = (Inr st, s2)"
    "vehicleWithOwner env (rq_DealershipID req) (rq_VehicleID req) s2 = (Inr (v, c), s3)"
    "Window (dl_Hours d) date (dl_Location d) = Some w"
    "daySchedule env \<lparr>sq_DealershipID = rq_DealershipID req, sq_Day = Bounds date (dl_Location d),
       sq_VehicleID = aq_VehicleID aq\<rparr> s3 = (Inr sched, t)"
    "slot \<in> set (AvailableSlots w st sched (sch_now sch t) (sch_granularity sch) (sch_policy sch))"
    by (rule Availability_slot [OF assms(15,16)]) (use assms(7,10,18-20) in auto)
  obtain x where x: "BookingStarted (sch_metrics sch) t = t\<lparr>pg.more := x\<rparr>" using assms(11) unfolding beside_def by blast
  let ?t = "t\<lparr>pg.more := x\<rparr>" and ?iv = "NewInterval (rq_StartTime req) (st_Duration st)"
  note found = lookups_found [OF assms(4,5) av(1-3)]
  have ab: "\<not> pg_aborted s" using assms(4) by (simp add: store_ready_def idle_def)
  then have v0: "same_view s s" by (simp add: same_view_def)
  obtain n where n: "s3 = tick n s" by (rule lookups_again [OF assms(1) v0 av(1-3)])
  obtain k where k: "t = tick k s" using daySchedule_again [OF assms(1) _ av(5), of s3] v0 n by auto
  obtain m1 m2 m3 where b: "dealership env (rq_DealershipID req) ?t = (Inr d, tick m1 ?t)"
    "serviceType env (rq_ServiceTypeID req) (tick m1 ?t) = (Inr st, tick m2 ?t)"
    "vehicleWithOwner env (rq_DealershipID req) (rq_VehicleID req) (tick m2 ?t) = (Inr (v, c), tick m3 ?t)"
    by (rule lookups_again [OF assms(1) _ av(1-3), of ?t]) (use ab in \<open>simp_all add: k same_view_def\<close>)
  have valid: "valid_date date" using assms(7) by (simp add: ParseDate_iff wire_date_def)
  note ok = slot_start_accepted [OF assms(8) valid av(4) [unfolded found(4)] found(5) av(6) assms(17)]
  have "ve_ID v = aq_VehicleID aq"
    using vehicleWithOwner_Inr [OF av(3)] uuid_arg_canonical [OF assms(2,9)] assms(19)
    by (auto simp: vehicle_with_owner_def vehicle_of_row_def split: option.splits dest!: find_Some)
  then have q: "booking_query req d v ?iv = \<lparr>sq_DealershipID = rq_DealershipID req,
      sq_Day = Bounds date (dl_Location d), sq_VehicleID = aq_VehicleID aq\<rparr>"
    using ok(1) by (simp add: booking_query_def found(4) NewInterval_def)
  obtain a where a: "Assign sched st ?iv (sch_policy sch) = Inr a" using ok(3) by blast
  have s: "store_ready env ?t" "zone_of env req loc (pg_db ?t)" "writers_lock_day env req loc (pg_db ?t)" "same_view s3 ?t"
    using assms(4-6) ab by (simp_all add: k n same_view_def store_ready_def unused_ids_def)
  have "\<exists>appt u. book_in_tx rt sch req ?t = (Inr appt, u)"
    by (rule quiet_book [OF assms(1-3) s(1-3) assms(8) [folded ok(1)] assms(10,12,13) b refl
          ok(2) [OF assms(14)] s(4) av(5) [folded q] a assms(21)])
  then show ?thesis by (auto simp: Book_def x Let_def)
qed

text \<open>C5: with no other activity and no failure in between, a slot that Availability offers for a vehicle can be
  booked: the request for it, without an idempotency key and sent before the slot starts, succeeds
  (AC-22). The zone keeps its offset around the day, and no stored appointment of the dealership reaches
  into the day from before it (INV-6): the answer and the booking read the appointments that start in the
  day, the constraints see all of them.\<close>

theorem offered_slot_is_booked:
  assumes "quiet env" "env_ok env" "microsecond_times env"
    and "store_ready env s" "zone_of env req loc (pg_db s)" "writers_lock_day env req loc (pg_db s)"
    and "ParseDate (aq_Date aq) = Inr date" "steady_day loc off (epoch_day date)" "canonical (aq_VehicleID aq)"
    and "sch_repo sch = Repository env" "beside (sch_metrics sch)" "policy_contract (sch_policy sch)"
    and "0 < sch_maxAttempts sch" "\<And>u. t_ns (sch_now sch u) \<le> t_ns (rq_StartTime req)"
    and "Availability sch aq s = (Inr ar, t)" "rq_StartTime req \<in> set (ar_Slots ar)"
    and "rq_DealershipID req = aq_DealershipID aq" "rq_VehicleID req = aq_VehicleID aq"
    and "rq_ServiceTypeID req = aq_ServiceTypeID aq" "rq_IdempotencyKey req = []"
  shows "\<exists>appt u. Book rt sch req t = (Inr appt, u)"
  by (rule offered_slot_books [OF assms(1-16) refl assms(17-20)])

definition sample_question :: availability_query where
  "sample_question = \<lparr>aq_DealershipID = sample_id (CHR ''d''), aq_ServiceTypeID = sample_id (CHR ''5''),
     aq_Date = ''2030-03-04'', aq_VehicleID = sample_id (CHR ''8'')\<rparr>"

lemma sample_date_parses: "ParseDate ''2030-03-04'' = Inr sample_date"
proof -
  have "date_text sample_date = ''2030-03-04''" by code_simp
  moreover have "wire_date sample_date" by code_simp
  ultimately show ?thesis by (simp add: ParseDate_iff)
qed

lemma sample_opening:
  "Window (dl_Hours sample_dealership) sample_date ict =
    Some \<lparr>w_Open = go_date 2030 3 4 0 480 0 0 ict, w_Close = go_date 2030 3 4 0 1020 0 0 ict\<rparr>"
proof -
  have "dl_Hours sample_dealership 1 = Some \<lparr>OpensAt = 480, ClosesAt = 1020\<rparr>"
    by (simp add: sample_dealership_def sample_db_def minutes_of_time_def trunc_div_def)
  moreover have "date_weekday sample_date = 1" by code_simp
  ultimately show ?thesis by (simp add: Window_def)
qed

lemma sample_slot:
  "sample_start \<in> set (AvailableSlots \<lparr>w_Open = go_date 2030 3 4 0 480 0 0 ict, w_Close =
    go_date 2030 3 4 0 1020 0 0 ict\<rparr>
     alignment_service sample_schedule sample_now DefaultSlotGranularity LeastLoaded)"
proof -
  have t: "t_ns (go_date 2030 3 4 0 480 0 0 ict) =
    1898816400000000000" "t_ns (go_date 2030 3 4 0 1020 0 0 ict) = 1898848800000000000"
    by code_simp+
  have eq: "sample_start = add_duration (w_Open \<lparr>w_Open = go_date 2030 3 4 0 480 0 0 ict, w_Close =
    go_date 2030 3 4 0 1020 0 0 ict\<rparr>) (int 2 * DefaultSlotGranularity)"
    by (rule gtime.equality) (simp_all add: t DefaultSlotGranularity_def minute_def second_def add_duration_def)
  have b: "bookable \<lparr>w_Open = go_date 2030 3 4 0 480 0 0 ict, w_Close =
    go_date 2030 3 4 0 1020 0 0 ict\<rparr>
      alignment_service sample_schedule sample_now LeastLoaded sample_start"
    using sample_assigned by (simp add: bookable_def t)
  have pos: "0 < DefaultSlotGranularity \<and> 0 < st_Duration alignment_service"
    by (simp add: DefaultSlotGranularity_def minute_def second_def)
  show ?thesis unfolding AvailableSlots_set if_P [OF pos]
    using b [unfolded eq] by (subst eq) blast
qed

lemma sample_granularity [simp]: "sch_granularity sample_scheduler = DefaultSlotGranularity"
  by (simp add: sample_scheduler_def New_def)

lemma sample_availability:
  "\<exists>ar n. Availability sample_scheduler sample_question sample_pg = (Inr ar, tick n sample_pg) \<and>
    sample_start \<in> set (ar_Slots ar)"
  using sample_slot sample_empty
  by (simp add: Availability_def sample_question_def sample_date_parses sample_dealership_found
    sample_service_found
      sample_vehicle_found sample_opening sample_day empty_day_def)
    blast

theorem offered_slot_is_booked_witness:
  "\<exists>ar t. Availability sample_scheduler sample_question sample_pg = (Inr ar, t) \<and>
    sample_start \<in> set (ar_Slots ar) \<and>
    (\<exists>appt u. booked [] t = (Inr appt, u))"
proof -
  obtain ar n where ar: "Availability sample_scheduler sample_question sample_pg = (Inr ar, tick n sample_pg)"
      "sample_start \<in> set (ar_Slots ar)" using sample_availability by blast
  have ready: "store_ready sample_env sample_pg"
    using sample_session sample_empty(3) by (intro sample_ready) (simp_all add: sample_db_def)
  have lock: "writers_lock_day sample_env (sample_request []) ict (pg_db sample_pg)"
    by (simp add: writers_lock_day_def Let_def day_protocol_def sample_no_events orderly_db_def) (simp add:
    sample_db_def)
  show ?thesis
    using offered_slot_is_booked [OF sample_env_ok(2,1) sample_microseconds ready _ lock _ sample_steady _
    sample_sel(1)
        sample_beside _ _ _ ar(1), where rt = sample_runtime] ar least_loaded.policy_contract_axioms
    by (simp add: zone_of_def sample_question_def sample_date_parses sample_canonical booked_def)
qed
end
