(* ===== verification/Rfc3339.thy ===== *)
theory Rfc3339
  imports Offered "HOL-Library.Monad_Syntax"
begin

text \<open>
  \<^verbatim>\<open>time.Parse(time.RFC3339, s)\<close>, as the handlers use it on the start time of a request
  (\<^verbatim>\<open>internal/httpapi/handlers.go\<close>), and its agreement with \<^verbatim>\<open>Format(time.RFC3339)\<close>, by which
  the responses render instants (\<^verbatim>\<open>internal/httpapi/dto.go\<close>). The parser follows the standard
  library chunk by chunk: each step consumes a prefix of the text and fails with \<open>None\<close>. It is
  laxer than RFC 3339: one digit of the hour is enough, a fraction may follow the seconds after a
  dot or a comma, and the offset may reach 24:60.
\<close>

section \<open>The chunks of the layout\<close>

definition fixed_digits :: "nat \<Rightarrow> string \<Rightarrow> (int \<times> string) option" where
  "fixed_digits w s =
     (if length s < w then None
      else case digits_value 0 (take w s) of None \<Rightarrow> None | Some v \<Rightarrow> Some (v, drop w s))"

text \<open>\<^verbatim>\<open>getnum(value, false)\<close>: two digits, or one that no digit follows.\<close>

definition one_or_two_digits :: "string \<Rightarrow> (int \<times> string) option" where
  "one_or_two_digits s =
     (case fixed_digits 2 s of Some r \<Rightarrow> Some r | None \<Rightarrow> fixed_digits 1 s)"

fun literal :: "char \<Rightarrow> string \<Rightarrow> string option" where
  "literal c [] = None"
| "literal c (d # s) = (if d = c then Some s else None)"

definition in_range :: "int \<Rightarrow> int \<Rightarrow> int \<times> string \<Rightarrow> (int \<times> string) option" where
  "in_range lo hi r = (if lo \<le> fst r \<and> fst r \<le> hi then Some r else None)"

definition is_digit :: "char \<Rightarrow> bool" where
  "is_digit c \<longleftrightarrow> char_digit c \<noteq> None"

text \<open>A fraction the layout does not ask for: at most nine of its digits count.\<close>

definition fraction :: "string \<Rightarrow> int \<times> string" where
  "fraction s =
     (case s of
        c # d # r \<Rightarrow>
          if (c = CHR ''.'' \<or> c = CHR '','') \<and> is_digit d
          then (let ds = takeWhile is_digit (d # r); ns = take 9 ds in
                (map_get 0 (\<lambda>k. digits_value 0 k) ns * 10 ^ (9 - length ns), drop (length ds) (d # r)))
          else (0, s)
      | _ \<Rightarrow> (0, s))"

text \<open>\<^verbatim>\<open>Z07:00\<close>: \<open>None\<close> stands for \<^verbatim>\<open>Z\<close>, otherwise the offset in seconds.\<close>

definition zone_offset :: "string \<Rightarrow> (int option \<times> string) option" where
  "zone_offset s =
     (case s of
        [] \<Rightarrow> None
      | c # r \<Rightarrow>
          if c = CHR ''Z'' then Some (None, r)
          else do {
            (h, r) \<leftarrow> fixed_digits 2 r \<bind> in_range 0 24;
            r \<leftarrow> literal CHR '':'' r;
            (m, r) \<leftarrow> fixed_digits 2 r \<bind> in_range 0 60;
            let off = (h * 60 + m) * 60;
            if c = CHR ''+'' then Some (Some off, r)
            else if c = CHR ''-'' then Some (Some (- off), r)
            else None
          })"

text \<open>
  The location of the result: UTC for \<^verbatim>\<open>Z\<close>, the location of the process when its offset at the
  instant is the one given, a zone of that one offset otherwise.
\<close>

definition zoned :: "location \<Rightarrow> int \<Rightarrow> int \<Rightarrow> int option \<Rightarrow> gtime" where
  "zoned local_loc wall ns zone =
     (case zone of
        None \<Rightarrow> \<lparr>t_ns = wall * second + ns, t_loc = UTC\<rparr>
      | Some off \<Rightarrow>
          \<lparr>t_ns = (wall - off) * second + ns,
           t_loc = (if offset_at local_loc (wall - off) = off then local_loc else fixed_zone [] off)\<rparr>)"

definition parse_rfc3339 :: "location \<Rightarrow> string \<Rightarrow> gtime option" where
  "parse_rfc3339 local_loc s = do {
     (y, s) \<leftarrow> fixed_digits 4 s;
     s \<leftarrow> literal CHR ''-'' s;
     (mo, s) \<leftarrow> fixed_digits 2 s \<bind> in_range 1 12;
     s \<leftarrow> literal CHR ''-'' s;
     (d, s) \<leftarrow> fixed_digits 2 s;
     s \<leftarrow> literal CHR ''T'' s;
     (h, s) \<leftarrow> one_or_two_digits s \<bind> in_range 0 23;
     s \<leftarrow> literal CHR '':'' s;
     (mi, s) \<leftarrow> fixed_digits 2 s \<bind> in_range 0 59;
     s \<leftarrow> literal CHR '':'' s;
     (sec, s) \<leftarrow> fixed_digits 2 s \<bind> in_range 0 59;
     let (ns, s) = fraction s;
     (zone, s) \<leftarrow> zone_offset s;
     if s = [] \<and> valid_civil y mo d
     then Some (zoned local_loc (wall_sec y mo d h mi sec) ns zone) else None
   }"

section \<open>Rendered instants parse\<close>

lemma fixed_digits_append:
  assumes "0 \<le> n" "n < 10 ^ w" "0 < w"
  shows "fixed_digits w (append_int w n @ s) = Some (n, s)"
proof -
  have "append_int w n = sprintf_0d w n" using assms(1) by (simp add: append_int_def sprintf_0d_def)
  then show ?thesis using sprintf_0d_digits [OF assms] by (simp add: fixed_digits_def)
qed

lemma one_or_two_digits_append:
  assumes "0 \<le> n" "n < 100"
  shows "one_or_two_digits (append_int 2 n @ s) = Some (n, s)"
  using fixed_digits_append [of n 2 s] assms by (simp add: one_or_two_digits_def)

lemma bind_in_range [simp]: "lo \<le> n \<Longrightarrow> n \<le> hi \<Longrightarrow> in_range lo hi (n, s) = Some (n, s)"
  by (simp add: in_range_def)

text \<open>An offset the layout can express: whole minutes, less than a day.\<close>

definition whole_offset :: "int \<Rightarrow> bool" where
  "whole_offset off \<longleftrightarrow> off mod 60 = 0 \<and> \<bar>off\<bar> < day_seconds"

lemma format_zone_parses:
  assumes "whole_offset off"
  shows "zone_offset (format_zone off) = Some (if off = 0 then None else Some off, [])"
proof (cases "off = 0")
  case True
  then show ?thesis by (simp add: format_zone_def zone_offset_def)
next
  case False
  define a where "a = \<bar>off\<bar> div 60"
  have e: "\<bar>off\<bar> = 60 * a"
  proof -
    have "\<bar>off\<bar> mod 60 = 0" using assms by (auto simp: whole_offset_def mod_0_imp_dvd dvd_imp_mod_0 abs_if)
    then show ?thesis using mult_div_mod_eq [of 60 "\<bar>off\<bar>"] by (simp add: a_def)
  qed
  have t: "trunc_div off 60 = (if off < 0 then - a else a)" by (simp add: trunc_div_def a_def)
  have r: "0 < a" "a < 1440" using False e assms by (auto simp: whole_offset_def day_seconds_def)
  define h m where "h = a div 60" and "m = a mod 60"
  have hm: "a = 60 * h + m" "0 \<le> m" "m < 60" by (simp_all add: h_def m_def)
  then have h: "0 \<le> h" "h < 24" using r by linarith+
  have off: "(if off < 0 then - ((h * 60 + m) * 60) else (h * 60 + m) * 60) = off"
    using e hm by auto
  have f: "format_zone off = (if off < 0 then CHR ''-'' else CHR ''+'') #
    append_int 2 h @ CHR '':'' # append_int 2 m"
    using False t r by (simp add: format_zone_def Let_def h_def m_def)
  have "zone_offset (format_zone off) =
      Some (Some (if off < 0 then - ((h * 60 + m) * 60) else (h * 60 + m) * 60), [])"
    using h hm(2,3) fixed_digits_append [of h 2] fixed_digits_append [of m 2 "[]"]
    unfolding f zone_offset_def by simp
  then show ?thesis unfolding off using False by simp
qed

lemma fraction_zone: "fraction (format_zone off) = (0, format_zone off)"
proof -
  have "\<exists>c s. format_zone off = c # s \<and> c \<in> {CHR ''Z'', CHR ''-'', CHR ''+''}"
    by (simp add: format_zone_def Let_def)
  then show ?thesis by (auto simp: fraction_def split: list.splits)
qed

lemma clock_of_second:
  fixes u :: int
  shows "0 \<le> u mod day_seconds div 3600" "u mod day_seconds div 3600 \<le> 23"
    "0 \<le> u mod day_seconds div 60 mod 60" "u mod day_seconds div 60 mod 60 \<le> 59"
    "0 \<le> u mod 60" "u mod 60 \<le> 59"
    "u div day_seconds * day_seconds + u mod day_seconds div 3600 * 3600
       + u mod day_seconds div 60 mod 60 * 60 + u mod 60 = u"
proof -
  define v where "v = u mod day_seconds"
  have v: "0 \<le> v" "v < 86400" by (simp_all add: v_def day_seconds_def)
  define h where "h = v div 3600"
  define k where "k = v div 60"
  define m where "m = k mod 60"
  define x where "x = u mod 60"
  have hv: "v = 3600 * h + v mod 3600" by (simp add: h_def)
  have kv: "v = 60 * k + v mod 60" by (simp add: k_def)
  have kh: "k div 60 = h" using zdiv_zmult2_eq [of 60 v 60] by (simp add: k_def h_def)
  have km: "k = 60 * h + m" using mult_div_mod_eq [of 60 k] by (simp add: kh m_def)
  have vx: "v mod 60 = x" using mod_mod_cancel [of 60 day_seconds u] by (simp add: v_def x_def day_seconds_def)
  show "0 \<le> u mod day_seconds div 3600" "u mod day_seconds div 3600 \<le> 23"
    using v hv pos_mod_bound [of 3600 v] pos_mod_sign [of 3600 v] by (fold v_def, fold h_def) linarith+
  show "0 \<le> u mod day_seconds div 60 mod 60" "u mod day_seconds div 60 mod 60 \<le> 59"
    using pos_mod_bound [of 60 k] by (fold v_def, fold k_def) simp_all
  show "0 \<le> u mod 60" "u mod 60 \<le> 59" using pos_mod_bound [of 60 u] by simp_all
  have "u = day_seconds * (u div day_seconds) + v" by (simp add: v_def)
  then show "u div day_seconds * day_seconds + u mod day_seconds div 3600 * 3600
       + u mod day_seconds div 60 mod 60 * 60 + u mod 60 = u"
    using kv km vx by (fold v_def, fold k_def h_def x_def, fold m_def) (simp add: day_seconds_def)
qed

lemma parse_chunks:
  assumes "0 \<le> y" "y \<le> 9999" "valid_civil y m d" "0 \<le> h" "h \<le> 23" "0 \<le> mi" "mi \<le> 59" "0 \<le> x" "x \<le> 59"
    and "whole_offset off"
  shows "parse_rfc3339 local_loc (append_int 4 y @ CHR ''-'' # append_int 2 m @ CHR ''-'' # append_int 2 d @
      CHR ''T'' # append_int 2 h @ CHR '':'' # append_int 2 mi @ CHR '':'' # append_int 2 x @ format_zone off) =
    Some (zoned local_loc (wall_sec y m d h mi x) 0 (if off = 0 then None else Some off))"
proof -
  have md: "1 \<le> m" "m \<le> 12" "1 \<le> d" "d < 100"
    using assms(3) days_in_month_bound [of y m] by (auto simp: valid_civil_def)
  show ?thesis
    using assms md
    by (simp add: parse_rfc3339_def fixed_digits_append one_or_two_digits_append fraction_zone format_zone_parses)
qed

lemma parse_format:
  assumes "civil_of_time t = (y, m, d)" "0 \<le> y" "y \<le> 9999"
    and "whole_offset (offset_at (t_loc t) (unix_sec t))"
  shows "parse_rfc3339 local_loc (format_rfc3339 t) =
    Some (zoned local_loc (local_sec t) 0
      (if offset_at (t_loc t) (unix_sec t) = 0 then None else Some (offset_at (t_loc t) (unix_sec t))))"
proof -
  let ?u = "local_sec t" and ?off = "offset_at (t_loc t) (unix_sec t)"
  define h mi x where "h = ?u mod day_seconds div 3600" and "mi = ?u mod day_seconds div 60 mod 60" and "x = ?u mod 60"
  have v: "valid_civil y m d" "days_of_civil y m d = ?u div day_seconds"
    using civil_of_days_inverse [of "?u div day_seconds" y m d] assms(1) by (simp_all add: civil_of_time_def)
  note c = clock_of_second [of ?u, folded h_def mi_def x_def]
  have w: "wall_sec y m d h mi x = ?u" unfolding wall_sec_def v(2) by (rule c(7))
  have f: "format_rfc3339 t = append_int 4 y @ CHR ''-'' # append_int 2 m @ CHR ''-'' # append_int 2 d @
      CHR ''T'' # append_int 2 h @ CHR '':'' # append_int 2 mi @ CHR '':'' # append_int 2 x @ format_zone ?off"
    by (simp add: format_rfc3339_def format_date_clock_def format_hhmm_def assms(1) Let_def h_def mi_def x_def)
  show ?thesis unfolding f parse_chunks [OF assms(2,3) v(1) c(1-6) assms(4)] w ..
qed

text \<open>The instant of a rendered time, and the offset at it, survive: only the fraction of the second is lost.\<close>

lemma parse_format_instant:
  assumes "civil_of_time t = (y, m, d)" "0 \<le> y" "y \<le> 9999"
    and "whole_offset (offset_at (t_loc t) (unix_sec t))"
  obtains u where "parse_rfc3339 local_loc (format_rfc3339 t) = Some u" "t_ns u = unix_sec t * second"
    "offset_at (t_loc u) (unix_sec u) = offset_at (t_loc t) (unix_sec t)"
proof
  let ?off = "offset_at (t_loc t) (unix_sec t)"
  let ?u = "zoned local_loc (local_sec t) 0 (if ?off = 0 then None else Some ?off)"
  show "parse_rfc3339 local_loc (format_rfc3339 t) = Some ?u" by (rule parse_format [OF assms])
  show ns: "t_ns ?u = unix_sec t * second" by (simp add: zoned_def local_sec_def)
  have "unix_sec ?u = unix_sec t" unfolding unix_sec_def [of ?u] ns by (simp add: second_def)
  then show "offset_at (t_loc ?u) (unix_sec ?u) = ?off"
    by (simp add: zoned_def local_sec_def UTC_def utc_lookup_def fixed_zone_def offset_at_def)
qed

end
