(* ===== verification/Wire.thy ===== *)
theory Wire
  imports Rfc3339 "HOL-Library.AList"
begin

text \<open>
  The wire side of the HTTP adapter: what a handler writes (\<^verbatim>\<open>writeJSON\<close>, \<^verbatim>\<open>writeError\<close>,
  \<^verbatim>\<open>writeDomainError\<close>, \<^verbatim>\<open>statusFor\<close> of \<^verbatim>\<open>internal/httpapi/errors.go\<close>), the response bodies
  (\<^verbatim>\<open>internal/httpapi/dto.go\<close>) and the decoding of the request body (\<^verbatim>\<open>decodeJSON\<close> of
  \<^verbatim>\<open>internal/httpapi/handlers.go\<close>). A body is a JSON value whose members carry the names and the
  \<^verbatim>\<open>omitempty\<close> rules of the struct tags; the bytes that \<^verbatim>\<open>encoding/json\<close> reads and writes for a
  value are the standard library's. A Go map is an association list with one entry per key; the
  encoder sorts it.
\<close>

datatype json = JNull | JBool bool | JNum string | JStr string | JArr "json list" | JObj "(string \<times> json) list"

section \<open>Writing a response\<close>

text \<open>The calls of a handler on its \<^verbatim>\<open>http.ResponseWriter\<close>, in order, and what the server sends for them.\<close>

datatype write_op = SetHeader string string | WriteHeader int | WriteBody json

record response =
  rsp_Header :: "(string \<times> string) list"
  rsp_Sent :: "((string \<times> string) list \<times> int) option"
  rsp_Body :: "json list"

definition empty_response :: response where
  "empty_response = \<lparr>rsp_Header = [], rsp_Sent = None, rsp_Body = []\<rparr>"

text \<open>The first status wins and fixes the headers; a body without a status sends 200.\<close>

definition send_status :: "int \<Rightarrow> response \<Rightarrow> response" where
  "send_status code r = (case rsp_Sent r of
     None \<Rightarrow> r\<lparr>rsp_Sent := Some (rsp_Header r, code)\<rparr> | Some _ \<Rightarrow> r)"

fun perform :: "write_op \<Rightarrow> response \<Rightarrow> response" where
  "perform (SetHeader k v) r = r\<lparr>rsp_Header := AList.update k v (rsp_Header r)\<rparr>"
| "perform (WriteHeader code) r = send_status code r"
| "perform (WriteBody v) r = (send_status 200 r)\<lparr>rsp_Body := rsp_Body r @ [v]\<rparr>"

text \<open>When the handler returns without a status, the server sends 200 and the headers set.\<close>

definition respond :: "write_op list \<Rightarrow> response" where
  "respond ops = send_status 200 (fold perform ops empty_response)"

definition status_of :: "write_op list \<Rightarrow> int" where
  "status_of ops = snd (the (rsp_Sent (respond ops)))"

definition header_of :: "write_op list \<Rightarrow> string \<Rightarrow> string option" where
  "header_of ops k = map_of (fst (the (rsp_Sent (respond ops)))) k"

definition body_of :: "write_op list \<Rightarrow> json list" where
  "body_of ops = rsp_Body (respond ops)"

definition writeJSON :: "int \<Rightarrow> json \<Rightarrow> write_op list" where
  "writeJSON status v =
     [SetHeader ''Content-Type'' ''application/json; charset=utf-8'', WriteHeader status, WriteBody v]"

section \<open>Errors on the wire\<close>

definition retryAfterSeconds :: string where "retryAfterSeconds = ''1''"

record error_body =
  eb_Code :: string
  eb_Message :: string
  eb_Conflicting :: "string list"
  eb_Details :: "(string \<times> string) list"

definition json_map :: "(string \<times> string) list \<Rightarrow> json" where
  "json_map m = JObj (map (\<lambda>(k, v). (k, JStr v)) (sort_key fst m))"

definition error_json :: "error_body \<Rightarrow> json" where
  "error_json e = JObj
     ([(''code'', JStr (eb_Code e)), (''message'', JStr (eb_Message e))]
      @ (if eb_Conflicting e = [] then [] else [(''conflicting'', JArr (map JStr (eb_Conflicting e)))])
      @ (if eb_Details e = [] then [] else [(''details'', json_map (eb_Details e))]))"

fun statusFor :: "code \<Rightarrow> int" where
  "statusFor CodeNoAvailableResource = 409"
| "statusFor CodeVehicleAlreadyBooked = 409"
| "statusFor CodeOutsideBusinessHours = 422"
| "statusFor CodeServiceExceedsClosingTime = 422"
| "statusFor CodeStartTimeInPast = 422"
| "statusFor CodeIdempotencyKeyReused = 422"
| "statusFor CodeContention = 503"
| "statusFor CodeResourceNotFound = 404"
| "statusFor CodeValidationError = 400"
| "statusFor (CodeOther s) = 500"

definition writeError ::
  "int \<Rightarrow> string \<Rightarrow> string \<Rightarrow> string list \<Rightarrow> (string \<times> string) list \<Rightarrow> write_op list" where
  "writeError status code message conflicting details = writeJSON status
     (error_json \<lparr>eb_Code = code, eb_Message = message, eb_Conflicting = conflicting, eb_Details = details\<rparr>)"

definition writeValidationError :: "string \<Rightarrow> (string \<times> string) list \<Rightarrow> write_op list" where
  "writeValidationError message details = writeError 400 (code_text CodeValidationError) message [] details"

definition writeDomainError :: "go_error \<Rightarrow> write_op list" where
  "writeDomainError err =
     (case AsError err of
        Some de \<Rightarrow>
          (if err_Code de = CodeContention then [SetHeader ''Retry-After'' retryAfterSeconds] else [])
          @ writeError (statusFor (err_Code de)) (code_text (err_Code de)) (err_Message de)
              (map resource_text (err_Conflicting de)) []
      | None \<Rightarrow>
          if error_is err ECanceled then []
          else if error_is err EDeadlineExceeded
          then writeError 504 ''TIMEOUT'' ''the request could not be completed in time'' [] []
          else writeError 500 ''INTERNAL_ERROR'' ''an internal error occurred'' [] [])"

section \<open>Response bodies\<close>

definition formatTime :: "gtime \<Rightarrow> string" where "formatTime t = format_rfc3339 t"

record refDTO =
  ref_ID :: string
  ref_Name :: string

record vehicleDTO =
  vd_ID :: string
  vd_VIN :: string
  vd_Model :: string

record bayDTO =
  bd_ID :: string
  bd_Name :: string
  bd_BayType :: string

record appointment_response =
  apr_ID :: string
  apr_Status :: string
  apr_StartTime :: string
  apr_EndTime :: string
  apr_Customer :: refDTO
  apr_Vehicle :: vehicleDTO
  apr_ServiceType :: refDTO
  apr_Technician :: refDTO
  apr_Bay :: bayDTO

definition toAppointmentResponse :: "appointment \<Rightarrow> appointment_response" where
  "toAppointmentResponse a =
     \<lparr>apr_ID = ap_ID a, apr_Status = status_text (ap_Status a),
      apr_StartTime = formatTime (iv_start (ap_Interval a)), apr_EndTime = formatTime (iv_end (ap_Interval a)),
      apr_Customer = \<lparr>ref_ID = cu_ID (ap_Customer a), ref_Name = cu_Name (ap_Customer a)\<rparr>,
      apr_Vehicle = \<lparr>vd_ID = ve_ID (ap_Vehicle a), vd_VIN = ve_VIN (ap_Vehicle a), vd_Model = ve_Model (ap_Vehicle a)\<rparr>,
      apr_ServiceType = \<lparr>ref_ID = st_ID (ap_ServiceType a), ref_Name = st_Name (ap_ServiceType a)\<rparr>,
      apr_Technician = \<lparr>ref_ID = tech_ID (ap_Technician a), ref_Name = tech_Name (ap_Technician a)\<rparr>,
      apr_Bay = \<lparr>bd_ID = bay_ID (ap_Bay a), bd_Name = bay_Name (ap_Bay a), bd_BayType = bay_type_text (bay_Type (ap_Bay a))\<rparr>\<rparr>"

definition ref_json :: "refDTO \<Rightarrow> json" where
  "ref_json r = JObj [(''id'', JStr (ref_ID r)), (''name'', JStr (ref_Name r))]"

definition vehicle_json :: "vehicleDTO \<Rightarrow> json" where
  "vehicle_json v = JObj [(''id'', JStr (vd_ID v)), (''vin'', JStr (vd_VIN v)), (''model'', JStr (vd_Model v))]"

definition bay_json :: "bayDTO \<Rightarrow> json" where
  "bay_json b = JObj [(''id'', JStr (bd_ID b)), (''name'', JStr (bd_Name b)), (''bayType'', JStr (bd_BayType b))]"

definition appointment_json :: "appointment_response \<Rightarrow> json" where
  "appointment_json a = JObj
     [(''id'', JStr (apr_ID a)), (''status'', JStr (apr_Status a)), (''startTime'', JStr (apr_StartTime a)),
      (''endTime'', JStr (apr_EndTime a)), (''customer'', ref_json (apr_Customer a)),
      (''vehicle'', vehicle_json (apr_Vehicle a)), (''serviceType'', ref_json (apr_ServiceType a)),
      (''technician'', ref_json (apr_Technician a)), (''bay'', bay_json (apr_Bay a))]"

record service_typeDTO =
  sd_ID :: string
  sd_Name :: string
  sd_DurationMinutes :: int

record availability_response =
  avr_Date :: string
  avr_ServiceType :: service_typeDTO
  avr_AvailableSlots :: "string list"

definition toAvailabilityResponse :: "availability_result \<Rightarrow> availability_response" where
  "toAvailabilityResponse res =
     \<lparr>avr_Date = date_text (ar_Date res),
      avr_ServiceType = \<lparr>sd_ID = st_ID (ar_ServiceType res), sd_Name = st_Name (ar_ServiceType res),
                         sd_DurationMinutes = trunc_div (st_Duration (ar_ServiceType res)) minute\<rparr>,
      avr_AvailableSlots = map formatTime (ar_Slots res)\<rparr>"

definition service_type_json :: "service_typeDTO \<Rightarrow> json" where
  "service_type_json s = JObj [(''id'', JStr (sd_ID s)), (''name'', JStr (sd_Name s)),
     (''durationMinutes'', JNum (append_int 1 (sd_DurationMinutes s)))]"

definition availability_json :: "availability_response \<Rightarrow> json" where
  "availability_json a = JObj
     [(''date'', JStr (avr_Date a)), (''serviceType'', service_type_json (avr_ServiceType a)),
      (''availableSlots'', JArr (map JStr (avr_AvailableSlots a)))]"

section \<open>Reading a request body\<close>

record createAppointmentRequest =
  cr_DealershipID :: string
  cr_VehicleID :: string
  cr_ServiceTypeID :: string
  cr_StartTime :: string

text \<open>
  What \<^verbatim>\<open>encoding/json\<close> makes of the bytes it can read: no value, a syntax error, their end inside a
  value, a read error, or a value and the bytes behind it. The function from bytes to this result
  is the standard library's and a parameter below.
\<close>

datatype body_scan =
    ScanEOF | ScanSyntaxError | ScanTruncated | ScanTooLarge | ScanFailed | ScanValue json string

text \<open>
  \<^verbatim>\<open>http.MaxBytesReader\<close>: of a longer body the first bytes are read, and asking for one more is an
  error. An object or array ends with its bracket; the decoder reads one byte past any other value.
\<close>

definition maxBodyBytes :: nat where "maxBodyBytes = 64 * 1024"

fun self_delimiting :: "json \<Rightarrow> bool" where
  "self_delimiting (JObj ms) = True"
| "self_delimiting (JArr vs) = True"
| "self_delimiting _ = False"

definition scan_body :: "(string \<Rightarrow> body_scan) \<Rightarrow> string \<Rightarrow> body_scan" where
  "scan_body scan bytes =
     (let r = scan (take maxBodyBytes bytes) in
      if length bytes \<le> maxBodyBytes then r
      else case r of
             ScanEOF \<Rightarrow> ScanTooLarge
           | ScanTruncated \<Rightarrow> ScanTooLarge
           | ScanValue v rest \<Rightarrow> if rest = [] \<and> \<not> self_delimiting v then ScanTooLarge else r
           | _ \<Rightarrow> r)"

datatype decode_error = TypeError string | UnknownField string

text \<open>
  Member names are matched as \<^verbatim>\<open>encoding/json\<close> does: without regard to case, where the long s
  (U+017F) and the Kelvin sign (U+212A) fold to the letters s and k.
\<close>

fun fold_key :: "string \<Rightarrow> string" where
  "fold_key [] = []"
| "fold_key (c # s) =
     (if c = CHR 0xC5 \<and> take 1 s = [CHR 0xBF] then CHR ''s'' # fold_key (drop 1 s)
      else if c = CHR 0xE2 \<and> take 2 s = [CHR 0x84, CHR 0xAA] then CHR ''k'' # fold_key (drop 2 s)
      else lower_char c # fold_key s)"

datatype request_field = FieldDealership | FieldVehicle | FieldServiceType | FieldStartTime

fun field_name :: "request_field \<Rightarrow> string" where
  "field_name FieldDealership = ''dealershipId''"
| "field_name FieldVehicle = ''vehicleId''"
| "field_name FieldServiceType = ''serviceTypeId''"
| "field_name FieldStartTime = ''startTime''"

definition field_of_key :: "string \<Rightarrow> request_field option" where
  "field_of_key key = List.find (\<lambda>f. fold_key (field_name f) = fold_key key)
     [FieldDealership, FieldVehicle, FieldServiceType, FieldStartTime]"

fun set_field :: "request_field \<Rightarrow> string \<Rightarrow> createAppointmentRequest \<Rightarrow> createAppointmentRequest" where
  "set_field FieldDealership v r = r\<lparr>cr_DealershipID := v\<rparr>"
| "set_field FieldVehicle v r = r\<lparr>cr_VehicleID := v\<rparr>"
| "set_field FieldServiceType v r = r\<lparr>cr_ServiceTypeID := v\<rparr>"
| "set_field FieldStartTime v r = r\<lparr>cr_StartTime := v\<rparr>"

fun get_field :: "request_field \<Rightarrow> createAppointmentRequest \<Rightarrow> string" where
  "get_field FieldDealership r = cr_DealershipID r"
| "get_field FieldVehicle r = cr_VehicleID r"
| "get_field FieldServiceType r = cr_ServiceTypeID r"
| "get_field FieldStartTime r = cr_StartTime r"

text \<open>The first error is kept and the remaining members are still read.\<close>

definition save_error :: "decode_error \<Rightarrow> decode_error option \<Rightarrow> decode_error option" where
  "save_error e saved = (case saved of None \<Rightarrow> Some e | Some _ \<Rightarrow> saved)"

fun decode_members ::
  "(string \<times> json) list \<Rightarrow> createAppointmentRequest \<Rightarrow> decode_error option
     \<Rightarrow> createAppointmentRequest \<times> decode_error option" where
  "decode_members [] r e = (r, e)"
| "decode_members ((key, v) # ms) r e =
     (case field_of_key key of
        None \<Rightarrow> decode_members ms r (save_error (UnknownField key) e)
      | Some f \<Rightarrow>
          (case v of
             JStr s \<Rightarrow> decode_members ms (set_field f s r) e
           | JNull \<Rightarrow> decode_members ms r e
           | _ \<Rightarrow> decode_members ms r (save_error (TypeError (field_name f)) e)))"

definition empty_request :: createAppointmentRequest where
  "empty_request = \<lparr>cr_DealershipID = [], cr_VehicleID = [], cr_ServiceTypeID = [], cr_StartTime = []\<rparr>"

fun decode_value :: "json \<Rightarrow> createAppointmentRequest \<times> decode_error option" where
  "decode_value (JObj ms) = decode_members ms empty_request None"
| "decode_value JNull = (empty_request, None)"
| "decode_value _ = (empty_request, Some (TypeError []))"

text \<open>\<^verbatim>\<open>Decoder.More\<close>: another byte follows that is neither blank nor a closing bracket.\<close>

definition is_blank :: "char \<Rightarrow> bool" where
  "is_blank c \<longleftrightarrow> c \<in> {CHR '' '', CHR 0x09, CHR 0x0D, CHR 0x0A}"

definition more_follows :: "string \<Rightarrow> bool" where
  "more_follows rest = (case dropWhile is_blank rest of
     [] \<Rightarrow> False | c # s \<Rightarrow> c \<noteq> CHR '']'' \<and> c \<noteq> CHR ''}'')"

definition decodeJSON :: "(string \<Rightarrow> body_scan) \<Rightarrow> string \<Rightarrow> string + createAppointmentRequest" where
  "decodeJSON scan bytes =
     (case scan_body scan bytes of
        ScanEOF \<Rightarrow> Inl ''request body is required''
      | ScanSyntaxError \<Rightarrow> Inl ''malformed JSON''
      | ScanTooLarge \<Rightarrow> Inl ''request body too large''
      | ScanTruncated \<Rightarrow> Inl ''malformed request body''
      | ScanFailed \<Rightarrow> Inl ''malformed request body''
      | ScanValue v rest \<Rightarrow>
          (case decode_value v of
             (r, Some (TypeError f)) \<Rightarrow> Inl (''field '' @ f @ '' has the wrong type'')
           | (r, Some (UnknownField k)) \<Rightarrow> Inl (''unknown field '' @ go_quote k)
           | (r, None) \<Rightarrow>
               if more_follows rest then Inl ''request body must contain a single JSON object'' else Inr r))"

section \<open>What is sent\<close>

lemma writeJSON_sent [wire_simps]:
  "status_of (writeJSON c v) = c" "body_of (writeJSON c v) = [v]"
  "header_of (writeJSON c v) ''Content-Type'' = Some ''application/json; charset=utf-8''"
  "k \<noteq> ''Content-Type'' \<Longrightarrow> header_of (writeJSON c v) k = None"
  by (simp_all add: writeJSON_def status_of_def body_of_def header_of_def respond_def empty_response_def
      send_status_def)

lemma header_writeJSON_sent [wire_simps]:
  "h \<noteq> ''Content-Type'' \<Longrightarrow> status_of (SetHeader h x # writeJSON c v) = c"
  "h \<noteq> ''Content-Type'' \<Longrightarrow> body_of (SetHeader h x # writeJSON c v) = [v]"
  "h \<noteq> ''Content-Type'' \<Longrightarrow> header_of (SetHeader h x # writeJSON c v) h = Some x"
  by (auto simp: writeJSON_def status_of_def body_of_def header_of_def respond_def empty_response_def
      send_status_def)

lemma nothing_sent [wire_simps]: "status_of [] = 200" "body_of [] = []" "header_of [] k = None"
  by (simp_all add: status_of_def body_of_def header_of_def respond_def empty_response_def send_status_def)

lemma writeError_sent [wire_simps]:
  "status_of (writeError c code msg cs ds) = c"
  "body_of (writeError c code msg cs ds) =
     [error_json \<lparr>eb_Code = code, eb_Message = msg, eb_Conflicting = cs, eb_Details = ds\<rparr>]"
  by (simp_all add: writeError_def wire_simps)

end
