(* ===== verification/Handlers.thy ===== *)
theory Handlers
  imports Wire
begin

text \<open>
  The HTTP adapter: the handlers of \<^verbatim>\<open>internal/httpapi/handlers.go\<close> over the service port, and the
  router of \<^verbatim>\<open>internal/httpapi/router.go\<close>. A handler takes the request and the state of the service
  and returns its calls on the response writer and the next state. Matching a method and a path to
  a route is the work of the router package and arrives here as a \<open>route\<close>; logging, recovery from
  panics and the request timeout are left out.
\<close>

record 's service =
  svc_Availability :: "availability_query \<Rightarrow> 's \<Rightarrow> (go_error + availability_result) \<times> 's"
  svc_Book :: "book_request \<Rightarrow> 's \<Rightarrow> (go_error + appointment) \<times> 's"
  svc_GetAppointment :: "string \<Rightarrow> 's \<Rightarrow> (go_error + appointment) \<times> 's"

text \<open>
  The method and path, the route pattern the router reports once it has matched (empty otherwise),
  the decoded query parameters in order, the headers by canonical name, the body, and the
  correlation id in the context of the request.
\<close>

record http_request =
  hr_Method :: string
  hr_Path :: string
  hr_Pattern :: string
  hr_Query :: "(string \<times> string) list"
  hr_Header :: "(string \<times> string) list"
  hr_Body :: string
  hr_CorrelationID :: string

text \<open>The standard library below the handlers: the scanner of JSON and the location of the process.\<close>

record http_runtime =
  hrt_scan :: "string \<Rightarrow> body_scan"
  hrt_Local :: location

type_synonym 's handler = "http_request \<Rightarrow> 's \<Rightarrow> write_op list \<times> 's"

definition idempotencyKeyHeader :: string where "idempotencyKeyHeader = ''Idempotency-Key''"

text \<open>\<^verbatim>\<open>url.Values.Get\<close> and \<^verbatim>\<open>http.Header.Get\<close>: the first value, or the empty string.\<close>

definition get_first :: "(string \<times> string) list \<Rightarrow> string \<Rightarrow> string" where
  "get_first vs k = map_get [] (map_of vs) k"

definition uuidRe :: "string \<Rightarrow> bool" where "uuidRe s = is_uuid s"

definition dateRe :: "string \<Rightarrow> bool" where
  "dateRe s \<longleftrightarrow> length s = 10 \<and> s ! 4 = CHR ''-'' \<and> s ! 7 = CHR ''-'' \<and>
     list_all is_digit (take 4 s @ take 2 (drop 5 s) @ drop 8 s)"

definition requireUUID :: "(string \<times> string) list \<Rightarrow> string \<Rightarrow> string \<Rightarrow> (string \<times> string) list" where
  "requireUUID details field v =
     (if v = [] then AList.update field ''required'' details
      else if \<not> uuidRe v then AList.update field ''must be a UUID'' details
      else details)"

definition availability_details :: "http_request \<Rightarrow> (string \<times> string) list" where
  "availability_details req =
     (let q = get_first (hr_Query req);
          d = requireUUID [] ''dealershipId'' (q ''dealershipId'');
          d = requireUUID d ''serviceTypeId'' (q ''serviceTypeId'');
          d = (if q ''date'' = [] then AList.update ''date'' ''required'' d
               else if \<not> dateRe (q ''date'') then AList.update ''date'' ''must be YYYY-MM-DD'' d
               else d)
      in requireUUID d ''vehicleId'' (q ''vehicleId''))"

definition availability_query_of :: "http_request \<Rightarrow> availability_query" where
  "availability_query_of req =
     (let q = get_first (hr_Query req) in
      \<lparr>aq_DealershipID = to_lower (q ''dealershipId''), aq_ServiceTypeID = to_lower (q ''serviceTypeId''),
       aq_Date = q ''date'', aq_VehicleID = to_lower (q ''vehicleId'')\<rparr>)"

definition availability :: "'s service \<Rightarrow> 's handler" where
  "availability svc req s =
     (let details = availability_details req in
      if details \<noteq> [] then (writeValidationError ''invalid query parameters'' details, s)
      else case svc_Availability svc (availability_query_of req) s of
             (Inl err, t) \<Rightarrow> (writeDomainError err, t)
           | (Inr res, t) \<Rightarrow> (writeJSON 200 (availability_json (toAvailabilityResponse res)), t))"

definition request_key :: "http_request \<Rightarrow> string" where
  "request_key req = get_first (hr_Header req) idempotencyKeyHeader"

definition booking_details :: "http_runtime \<Rightarrow> createAppointmentRequest \<Rightarrow> string \<Rightarrow> (string \<times> string) list" where
  "booking_details rt body key =
     (let d = requireUUID [] ''dealershipId'' (cr_DealershipID body);
          d = requireUUID d ''vehicleId'' (cr_VehicleID body);
          d = requireUUID d ''serviceTypeId'' (cr_ServiceTypeID body);
          d = (if cr_StartTime body = [] then AList.update ''startTime'' ''required'' d
               else case parse_rfc3339 (hrt_Local rt) (cr_StartTime body) of
                      None \<Rightarrow> AList.update ''startTime''
                        ''must be ISO-8601 with an explicit offset, e.g. 2026-09-15T09:00:00+07:00'' d
                    | Some t \<Rightarrow> d)
      in if key \<noteq> [] \<and> \<not> uuidRe key then AList.update idempotencyKeyHeader ''must be a UUID'' d else d)"

definition start_time :: "http_runtime \<Rightarrow> createAppointmentRequest \<Rightarrow> gtime" where
  "start_time rt body =
     (if cr_StartTime body = [] then zero_time
      else case parse_rfc3339 (hrt_Local rt) (cr_StartTime body) of None \<Rightarrow> zero_time | Some t \<Rightarrow> t)"

definition book_request_of :: "http_runtime \<Rightarrow> createAppointmentRequest \<Rightarrow> string \<Rightarrow> book_request" where
  "book_request_of rt body key =
     \<lparr>rq_DealershipID = to_lower (cr_DealershipID body), rq_VehicleID = to_lower (cr_VehicleID body),
      rq_ServiceTypeID = to_lower (cr_ServiceTypeID body), rq_StartTime = start_time rt body,
      rq_IdempotencyKey = to_lower key\<rparr>"

definition createAppointment :: "http_runtime \<Rightarrow> 's service \<Rightarrow> 's handler" where
  "createAppointment rt svc req s =
     (case decodeJSON (hrt_scan rt) (hr_Body req) of
        Inl msg \<Rightarrow> (writeValidationError msg [], s)
      | Inr body \<Rightarrow>
          let key = request_key req; details = booking_details rt body key in
          if details \<noteq> [] then (writeValidationError ''invalid request'' details, s)
          else case svc_Book svc (book_request_of rt body key) s of
                 (Inl err, t) \<Rightarrow> (writeDomainError err, t)
               | (Inr appt, t) \<Rightarrow>
                   (SetHeader ''Location'' (''/api/v1/appointments/'' @ ap_ID appt)
                    # writeJSON 201 (appointment_json (toAppointmentResponse appt)), t))"

definition getAppointment :: "'s service \<Rightarrow> string \<Rightarrow> 's handler" where
  "getAppointment svc ident req s =
     (if \<not> uuidRe ident then (writeDomainError (EDomain (NotFound ''appointment'' ident)), s)
      else case svc_GetAppointment svc (to_lower ident) s of
             (Inl err, t) \<Rightarrow> (writeDomainError err, t)
           | (Inr appt, t) \<Rightarrow> (writeJSON 200 (appointment_json (toAppointmentResponse appt)), t))"

section \<open>The router\<close>

datatype route =
    RouteHealthz | RouteReadyz | RouteAvailability | RouteCreateAppointment | RouteGetAppointment string
  | RouteExtra string | RouteNotFound | RouteMethodNotAllowed

record 's router_config =
  rc_middlewares :: "('s handler \<Rightarrow> 's handler) list"
  rc_extraRoutes :: "string \<Rightarrow> 's handler option"
  rc_ready :: "('s \<Rightarrow> go_error option \<times> 's) option"

type_synonym 's router_option = "'s router_config \<Rightarrow> 's router_config"

definition WithReadiness :: "('s \<Rightarrow> go_error option \<times> 's) \<Rightarrow> 's router_option" where
  "WithReadiness check c = c\<lparr>rc_ready := Some check\<rparr>"

definition WithMiddleware :: "('s handler \<Rightarrow> 's handler) list \<Rightarrow> 's router_option" where
  "WithMiddleware mw c = c\<lparr>rc_middlewares := rc_middlewares c @ mw\<rparr>"

definition WithRoutes :: "(string \<Rightarrow> 's handler option) \<Rightarrow> 's router_option" where
  "WithRoutes fn c = c\<lparr>rc_extraRoutes := fn\<rparr>"

definition notFound :: "'s handler" where
  "notFound req s = (writeError 404 ''NOT_FOUND'' ''no such route'' [] [], s)"

definition methodNotAllowed :: "'s handler" where
  "methodNotAllowed req s =
     (writeError 405 ''METHOD_NOT_ALLOWED'' ''method not allowed for this route'' [] [], s)"

definition healthz :: "'s handler" where
  "healthz req s = (writeJSON 200 (json_map [(''status'', ''ok'')]), s)"

definition readyz :: "('s \<Rightarrow> go_error option \<times> 's) option \<Rightarrow> 's handler" where
  "readyz ready req s =
     (case ready of
        None \<Rightarrow> (writeJSON 200 (json_map [(''status'', ''ready'')]), s)
      | Some check \<Rightarrow>
          (case check s of
             (Some err, t) \<Rightarrow>
               (writeJSON 503 (json_map [(''status'', ''unavailable''), (''reason'', ''dependency check failed'')]), t)
           | (None, t) \<Rightarrow> (writeJSON 200 (json_map [(''status'', ''ready'')]), t)))"

definition endpoint :: "http_runtime \<Rightarrow> 's service \<Rightarrow> 's router_config \<Rightarrow> route \<Rightarrow> 's handler" where
  "endpoint rt svc cfg r =
     (case r of
        RouteHealthz \<Rightarrow> healthz
      | RouteReadyz \<Rightarrow> readyz (rc_ready cfg)
      | RouteAvailability \<Rightarrow> availability svc
      | RouteCreateAppointment \<Rightarrow> createAppointment rt svc
      | RouteGetAppointment ident \<Rightarrow> getAppointment svc ident
      | RouteExtra name \<Rightarrow> (case rc_extraRoutes cfg name of Some h \<Rightarrow> h | None \<Rightarrow> notFound)
      | RouteNotFound \<Rightarrow> notFound
      | RouteMethodNotAllowed \<Rightarrow> methodNotAllowed)"

text \<open>The middleware listed first is the outermost, and runs for every request, matched or not.\<close>

definition NewRouter :: "http_runtime \<Rightarrow> 's service \<Rightarrow> 's router_option list \<Rightarrow> route \<Rightarrow> 's handler" where
  "NewRouter rt svc opts r =
     (let cfg = fold (\<lambda>o' c. o' c) opts
            \<lparr>rc_middlewares = [], rc_extraRoutes = (\<lambda>name. None), rc_ready = None\<rparr>
      in foldr (\<lambda>mw h. mw h) (rc_middlewares cfg) (endpoint rt svc cfg r))"

text \<open>The service the server mounts: the scheduler.\<close>

definition scheduler_service :: "'s runtime \<Rightarrow> 's scheduler \<Rightarrow> 's service" where
  "scheduler_service rt sch =
     \<lparr>svc_Availability = Availability sch, svc_Book = Book rt sch, svc_GetAppointment = GetAppointment sch\<rparr>"

section \<open>Requests, accepted and rejected\<close>

lemma update_not_Nil [simp]: "AList.update k v m \<noteq> []"
  by (cases m) auto

lemma requireUUID_Nil [wire_simps]: "requireUUID d f v = [] \<longleftrightarrow> d = [] \<and> uuidRe v"
  by (auto simp: requireUUID_def uuidRe_def is_uuid_def)

lemma dateRe_not_Nil: "dateRe s \<Longrightarrow> s \<noteq> []"
  by (auto simp: dateRe_def)

definition availability_accepted :: "http_request \<Rightarrow> bool" where
  "availability_accepted req \<longleftrightarrow>
     (\<forall>p \<in> {''dealershipId'', ''serviceTypeId'', ''vehicleId''}. uuidRe (get_first (hr_Query req) p)) \<and>
     dateRe (get_first (hr_Query req) ''date'')"

lemma availability_details_Nil: "availability_details req = [] \<longleftrightarrow> availability_accepted req"
  by (auto simp: availability_details_def availability_accepted_def Let_def wire_simps dateRe_not_Nil)

text \<open>The booking a POST asks for, when it is well formed.\<close>

definition accepted_booking :: "http_runtime \<Rightarrow> http_request \<Rightarrow> book_request option" where
  "accepted_booking rt req =
     (case decodeJSON (hrt_scan rt) (hr_Body req) of
        Inl msg \<Rightarrow> None
      | Inr b \<Rightarrow>
          if uuidRe (cr_DealershipID b) \<and> uuidRe (cr_VehicleID b) \<and> uuidRe (cr_ServiceTypeID b) \<and>
             parse_rfc3339 (hrt_Local rt) (cr_StartTime b) \<noteq> None \<and>
             (request_key req = [] \<or> uuidRe (request_key req))
          then Some \<lparr>rq_DealershipID = to_lower (cr_DealershipID b), rq_VehicleID = to_lower (cr_VehicleID b),
                 rq_ServiceTypeID = to_lower (cr_ServiceTypeID b),
                 rq_StartTime = the (parse_rfc3339 (hrt_Local rt) (cr_StartTime b)),
                 rq_IdempotencyKey = to_lower (request_key req)\<rparr>
          else None)"

lemma parse_rfc3339_Nil [simp]: "parse_rfc3339 l [] = None"
  by (simp add: parse_rfc3339_def fixed_digits_def)

lemma booking_details_Nil:
  "booking_details rt b key = [] \<longleftrightarrow>
     uuidRe (cr_DealershipID b) \<and> uuidRe (cr_VehicleID b) \<and> uuidRe (cr_ServiceTypeID b) \<and>
     parse_rfc3339 (hrt_Local rt) (cr_StartTime b) \<noteq> None \<and> (key = [] \<or> uuidRe key)"
  by (auto simp: booking_details_def Let_def wire_simps split: option.splits)

lemma start_time_parsed: "parse_rfc3339 (hrt_Local rt) (cr_StartTime b) = Some t \<Longrightarrow> start_time rt b = t"
  by (auto simp: start_time_def)

lemma createAppointment_accepted:
  assumes "accepted_booking rt req = Some r"
  shows "createAppointment rt svc req s =
    (case svc_Book svc r s of
       (Inl err, t) \<Rightarrow> (writeDomainError err, t)
     | (Inr appt, t) \<Rightarrow> (SetHeader ''Location'' (''/api/v1/appointments/'' @ ap_ID appt)
                    # writeJSON 201 (appointment_json (toAppointmentResponse appt)), t))"
proof -
  obtain b where b: "decodeJSON (hrt_scan rt) (hr_Body req) = Inr b"
    using assms by (auto simp: accepted_booking_def split: sum.splits)
  then have d: "booking_details rt b (request_key req) = []"
    and r: "r = book_request_of rt b (request_key req)"
    using assms start_time_parsed [of rt b]
    by (auto simp: accepted_booking_def booking_details_Nil book_request_of_def split: if_splits)
  show ?thesis by (simp add: createAppointment_def b d r)
qed

lemma createAppointment_refused:
  assumes "accepted_booking rt req = None"
  obtains msg details where "createAppointment rt svc req s = (writeValidationError msg details, s)"
proof (cases "decodeJSON (hrt_scan rt) (hr_Body req)")
  case (Inl msg)
  then show ?thesis using that by (simp add: createAppointment_def)
next
  case (Inr b)
  then have "booking_details rt b (request_key req) \<noteq> []"
    using assms unfolding booking_details_Nil by (simp add: accepted_booking_def split: if_splits)
  then show ?thesis using that Inr by (simp add: createAppointment_def Let_def)
qed

lemma getAppointment_refused:
  "\<not> uuidRe i \<Longrightarrow> getAppointment svc i req s = (writeDomainError (EDomain (NotFound ''appointment'' i)), s)"
  by (simp add: getAppointment_def)

section \<open>Identifiers are compared without regard to case\<close>

lemma lower_char_of: "(of_char (lower_char c) :: nat) =
    (if 65 \<le> (of_char c :: nat) \<and> (of_char c :: nat) \<le> 90 then of_char c + 32 else of_char c)"
  by (simp add: lower_char_def Let_def of_char_of take_bit_eq_mod)

lemma is_hex_lower: "is_hex (lower_char c) = is_hex c"
  by (auto simp: is_hex_def Let_def lower_char_of split: if_splits)

lemma dash_lower: "lower_char c = CHR ''-'' \<longleftrightarrow> c = CHR ''-''"
proof -
  have inj: "d = CHR ''-'' \<longleftrightarrow> (of_char d :: nat) = 45" for d
    using of_char_eq_iff [where 'a = nat, of d "CHR ''-''"] by simp
  show ?thesis unfolding inj [of "lower_char c"] inj [of c] lower_char_of by auto
qed

lemma is_uuid_lower [simp]: "is_uuid (to_lower s) = is_uuid s"
proof -
  have "zip xs (to_lower s) = map (\<lambda>(i, c). (i, lower_char c)) (zip xs s)" for xs :: "nat list"
    by (simp add: to_lower_def zip_map2)
  then show ?thesis
    by (simp add: is_uuid_def list_all_iff case_prod_unfold is_hex_lower dash_lower) (simp add: to_lower_def)
qed

lemma to_lower_idem [simp]: "to_lower (to_lower s) = to_lower s"
  by (simp add: to_lower_def) (simp add: lower_char_def Let_def of_char_of take_bit_eq_mod)

text \<open>Texts that differ in the case of letters only.\<close>

definition same_letters :: "string \<Rightarrow> string \<Rightarrow> bool" where
  "same_letters a b \<longleftrightarrow> to_lower a = to_lower b"

lemma same_letters_uuid: "same_letters a b \<Longrightarrow> uuidRe a = uuidRe b"
  using is_uuid_lower [of a] is_uuid_lower [of b] by (simp add: same_letters_def uuidRe_def)

lemma same_letters_Nil: "same_letters a b \<Longrightarrow> a = [] \<longleftrightarrow> b = []"
  by (auto simp: same_letters_def to_lower_def)

lemma requireUUID_letters: "same_letters a b \<Longrightarrow> requireUUID d f a = requireUUID d f b"
  by (simp add: requireUUID_def same_letters_uuid same_letters_Nil)

definition same_query :: "http_request \<Rightarrow> http_request \<Rightarrow> bool" where
  "same_query req req' \<longleftrightarrow>
     get_first (hr_Query req) ''date'' = get_first (hr_Query req') ''date'' \<and>
     (\<forall>p \<in> {''dealershipId'', ''serviceTypeId'', ''vehicleId''}.
        same_letters (get_first (hr_Query req) p) (get_first (hr_Query req') p))"

lemma availability_letters:
  assumes "same_query req req'"
  shows "availability svc req s = availability svc req' s"
proof -
  have l: "same_letters (get_first (hr_Query req) p) (get_first (hr_Query req') p)"
    if "p \<in> {''dealershipId'', ''serviceTypeId'', ''vehicleId''}" for p
    using assms that unfolding same_query_def by blast
  have d: "get_first (hr_Query req) ''date'' = get_first (hr_Query req') ''date''"
    using assms by (simp add: same_query_def)
  note l = l [of "''dealershipId''", simplified] l [of "''serviceTypeId''", simplified] l [of "''vehicleId''", simplified]
  have "availability_details req = availability_details req'"
    by (simp add: availability_details_def Let_def requireUUID_letters [OF l(1)] requireUUID_letters [OF l(2)]
        requireUUID_letters [OF l(3)] d)
  moreover have "availability_query_of req = availability_query_of req'"
    using l d by (simp add: availability_query_of_def Let_def same_letters_def)
  ultimately show ?thesis by (simp add: availability_def Let_def)
qed

definition same_booking :: "createAppointmentRequest \<Rightarrow> createAppointmentRequest \<Rightarrow> bool" where
  "same_booking b c \<longleftrightarrow> same_letters (cr_DealershipID b) (cr_DealershipID c) \<and>
     same_letters (cr_VehicleID b) (cr_VehicleID c) \<and> same_letters (cr_ServiceTypeID b) (cr_ServiceTypeID c) \<and>
     cr_StartTime b = cr_StartTime c"

lemma createAppointment_letters:
  assumes "decodeJSON (hrt_scan rt) (hr_Body req) = Inr b" "decodeJSON (hrt_scan rt) (hr_Body req') = Inr c"
    and "same_booking b c" "same_letters (request_key req) (request_key req')"
  shows "createAppointment rt svc req s = createAppointment rt svc req' s"
proof -
  have l: "same_letters (cr_DealershipID b) (cr_DealershipID c)" "same_letters (cr_VehicleID b) (cr_VehicleID c)"
      "same_letters (cr_ServiceTypeID b) (cr_ServiceTypeID c)" and t: "cr_StartTime b = cr_StartTime c"
    using assms(3) by (simp_all add: same_booking_def)
  have "booking_details rt b (request_key req) = booking_details rt c (request_key req')"
    by (simp add: booking_details_def Let_def t requireUUID_letters [OF l(1)] requireUUID_letters [OF l(2)]
        requireUUID_letters [OF l(3)] same_letters_uuid [OF assms(4)] same_letters_Nil [OF assms(4)])
  moreover have "book_request_of rt b (request_key req) = book_request_of rt c (request_key req')"
    using assms(3,4) by (simp add: book_request_of_def same_booking_def same_letters_def start_time_def)
  ultimately show ?thesis by (simp add: createAppointment_def assms(1,2) Let_def)
qed

lemma getAppointment_letters:
  assumes "same_letters i j" "uuidRe i"
  shows "getAppointment svc i req s = getAppointment svc j req' s"
  using assms same_letters_uuid [OF assms(1)] by (simp add: getAppointment_def same_letters_def)

section \<open>What an accepted body says\<close>

text \<open>A member names a field and has a string or null; the last string given for a field counts.\<close>

fun string_or_null :: "json \<Rightarrow> bool" where
  "string_or_null JNull = True"
| "string_or_null (JStr s) = True"
| "string_or_null _ = False"

definition well_typed_members :: "(string \<times> json) list \<Rightarrow> bool" where
  "well_typed_members ms \<longleftrightarrow> list_all (\<lambda>(k, v). field_of_key k \<noteq> None \<and> string_or_null v) ms"

fun field_values :: "request_field \<Rightarrow> (string \<times> json) list \<Rightarrow> string list" where
  "field_values f [] = []"
| "field_values f ((k, JStr s) # ms) =
     (if field_of_key k = Some f then s # field_values f ms else field_values f ms)"
| "field_values f (m # ms) = field_values f ms"

definition last_value :: "request_field \<Rightarrow> (string \<times> json) list \<Rightarrow> string" where
  "last_value f ms = last ([] # field_values f ms)"

lemma get_set_field: "get_field f (set_field g v r) = (if f = g then v else get_field f r)"
  by (cases f; cases g) simp_all

lemma decode_members_error: "snd (decode_members ms r (Some e)) = Some e"
  by (induction ms arbitrary: r) (auto simp: save_error_def split: option.splits json.splits)

lemma decode_members_ok:
  "snd (decode_members ms r None) = None \<longleftrightarrow> well_typed_members ms"
proof (induction ms arbitrary: r)
  case (Cons m ms)
  obtain k v where m: "m = (k, v)" by fastforce
  show ?case
    by (cases v; cases "field_of_key k")
      (simp_all add: m Cons.IH well_typed_members_def save_error_def decode_members_error)
qed (simp add: well_typed_members_def)

lemma decode_members_field:
  "well_typed_members ms \<Longrightarrow>
     get_field f (fst (decode_members ms r None)) = last (get_field f r # field_values f ms)"
proof (induction ms arbitrary: r)
  case (Cons m ms)
  obtain k v where m: "m = (k, v)" by fastforce
  have wt: "well_typed_members ms" and k: "field_of_key k \<noteq> None" "string_or_null v"
    using Cons.prems by (auto simp: well_typed_members_def m)
  then obtain g where g: "field_of_key k = Some g" by blast
  show ?case using k(2) by (cases v) (simp_all add: m g Cons.IH [OF wt] get_set_field)
qed simp

lemma request_eqI:
  assumes "\<And>f. get_field f r = get_field f r'"
  shows "r = r'"
  using assms [of FieldDealership] assms [of FieldVehicle] assms [of FieldServiceType] assms [of FieldStartTime]
  by (cases r; cases r') simp

lemma decodeJSON_iff:
  "decodeJSON scan bytes = Inr r \<longleftrightarrow>
     (\<exists>v rest. scan_body scan bytes = ScanValue v rest \<and> \<not> more_follows rest \<and>
        (v = JNull \<and> r = empty_request \<or>
         (\<exists>ms. v = JObj ms \<and> well_typed_members ms \<and> (\<forall>f. get_field f r = last_value f ms))))"
proof -
  have get_empty: "get_field f empty_request = []" for f by (cases f) (simp_all add: empty_request_def)
  have obj: "decode_value (JObj ms) = (r, None) \<longleftrightarrow>
    well_typed_members ms \<and> (\<forall>f. get_field f r = last_value f ms)" for ms
  proof -
    have "decode_value (JObj ms) = (r, None) \<longleftrightarrow>
        snd (decode_members ms empty_request None) = None \<and> fst (decode_members ms empty_request None) = r"
      by (auto simp: prod_eq_iff)
    then show ?thesis
      using decode_members_field [of ms _ empty_request]
      by (auto simp: decode_members_ok last_value_def get_empty intro!: request_eqI simp del: last.simps)
  qed
  have val: "decode_value v = (r, None) \<longleftrightarrow> v = JNull \<and> r = empty_request \<or>
         (\<exists>ms. v = JObj ms \<and> well_typed_members ms \<and> (\<forall>f. get_field f r = last_value f ms))" for v
    by (cases v) (simp_all only: obj, auto)
  have "decodeJSON scan bytes = Inr r \<longleftrightarrow>
      (\<exists>v rest. scan_body scan bytes = ScanValue v rest \<and> \<not> more_follows rest \<and> decode_value v = (r, None))"
    by (auto simp: decodeJSON_def split: body_scan.splits prod.splits option.splits decode_error.splits)
  then show ?thesis by (simp only: val)
qed

text \<open>The message for the first member that names no field or whose value has the wrong type.\<close>

definition member_problem :: "string \<times> json \<Rightarrow> string option" where
  "member_problem m = (case m of (k, v) \<Rightarrow>
     (case field_of_key k of
        None \<Rightarrow> Some (''unknown field '' @ go_quote k)
      | Some f \<Rightarrow> if string_or_null v then None else Some (''field '' @ field_name f @ '' has the wrong type'')))"

definition decode_message :: "decode_error \<Rightarrow> string" where
  "decode_message e = (case e of TypeError f \<Rightarrow> ''field '' @ f @ '' has the wrong type''
     | UnknownField k \<Rightarrow> ''unknown field '' @ go_quote k)"

lemma decode_members_message:
  "map_option decode_message (snd (decode_members ms r None)) =
     (case List.map_filter member_problem ms of [] \<Rightarrow> None | p # _ \<Rightarrow> Some p)"
proof (induction ms arbitrary: r)
  case (Cons m ms)
  obtain k v where m: "m = (k, v)" by fastforce
  have p: "member_problem (k, w) = (case field_of_key k of None \<Rightarrow> Some (decode_message (UnknownField k))
      | Some f \<Rightarrow> if string_or_null w then None else Some (decode_message (TypeError (field_name f))))" for w
    by (simp add: member_problem_def decode_message_def split: option.split)
  show ?case
    by (cases v; cases "field_of_key k")
      (simp_all add: m Cons.IH p save_error_def decode_members_error List.map_filter_simps)
qed (simp add: List.map_filter_simps)

text \<open>What is wrong with a value that was read: its members in order, or that it is no object.\<close>

definition value_problems :: "json \<Rightarrow> string list" where
  "value_problems v = (case v of JObj ms \<Rightarrow> List.map_filter member_problem ms | JNull \<Rightarrow> []
     | _ \<Rightarrow> [''field  has the wrong type''])"

lemma decode_value_message:
  "map_option decode_message (snd (decode_value v)) = (case value_problems v of [] \<Rightarrow> None | p # _ \<Rightarrow> Some p)"
  by (cases v) (simp_all add: value_problems_def decode_members_message decode_message_def)

lemma decodeJSON_message:
  "decodeJSON scan bytes = Inl msg \<longleftrightarrow>
     (case scan_body scan bytes of
        ScanEOF \<Rightarrow> msg = ''request body is required''
      | ScanSyntaxError \<Rightarrow> msg = ''malformed JSON''
      | ScanTooLarge \<Rightarrow> msg = ''request body too large''
      | ScanTruncated \<Rightarrow> msg = ''malformed request body''
      | ScanFailed \<Rightarrow> msg = ''malformed request body''
      | ScanValue v rest \<Rightarrow>
          (case value_problems v of
             p # _ \<Rightarrow> msg = p
           | [] \<Rightarrow> more_follows rest \<and> msg = ''request body must contain a single JSON object''))"
proof (cases "scan_body scan bytes")
  case (ScanValue v rest)
  obtain r e where d: "decode_value v = (r, e)" by fastforce
  have "map_option decode_message e = (case value_problems v of [] \<Rightarrow> None | p # _ \<Rightarrow> Some p)"
    using decode_value_message [of v] d by simp
  then show ?thesis
    using d ScanValue
    by (cases e) (auto simp: decodeJSON_def decode_message_def split: decode_error.splits list.splits)
qed (auto simp: decodeJSON_def)

text \<open>
  The check for a second value lets closing brackets pass: a body with a stray bracket behind its
  object is accepted, although more than a single object was sent.
\<close>

lemma trailing_bracket_accepted:
  "scan_body scan bytes = ScanValue (JObj []) ''} trailing'' \<Longrightarrow> decodeJSON scan bytes = Inr empty_request"
  by (simp add: decodeJSON_def more_follows_def is_blank_def)

section \<open>What a request does to the state\<close>

text \<open>
  The handlers reach the state through the three methods of the service only: a reflexive and
  transitive relation that these keep is kept by every request, by the middleware that keeps it,
  and by a sequence of requests.
\<close>

locale service_steps = state_preorder R for R :: "'s \<Rightarrow> 's \<Rightarrow> bool" +
  fixes svc :: "'s service"
  assumes step_Availability: "R s (snd (svc_Availability svc q s))"
    and step_Book: "R s (snd (svc_Book svc r s))"
    and step_GetAppointment: "R s (snd (svc_GetAppointment svc i s))"
begin

lemma availability_R: "R s (snd (availability svc req s))"
  using step_Availability [of s "availability_query_of req"] R_refl
  by (auto simp: availability_def Let_def split: prod.splits sum.splits)

lemma createAppointment_R: "R s (snd (createAppointment rt svc req s))"
  using step_Book [of s] R_refl
  by (cases "accepted_booking rt req")
    (auto simp: createAppointment_accepted elim!: createAppointment_refused [of rt req svc s]
      split: prod.splits sum.splits; metis snd_conv)+

lemma getAppointment_R: "R s (snd (getAppointment svc i req s))"
  using step_GetAppointment [of s "to_lower i"] R_refl
  by (auto simp: getAppointment_def split: prod.splits sum.splits)

lemma endpoint_R:
  assumes "\<And>check s. rc_ready cfg = Some check \<Longrightarrow> R s (snd (check s))"
    and "\<And>n h req s. rc_extraRoutes cfg n = Some h \<Longrightarrow> R s (snd (h req s))"
  shows "R s (snd (endpoint rt svc cfg r req s))"
proof (cases r)
  case RouteReadyz
  then show ?thesis
    using assms(1) [of _ s] R_refl
    by (auto simp: endpoint_def readyz_def split: option.splits prod.splits; metis snd_conv)
next
  case (RouteExtra n)
  then show ?thesis
    using assms(2) R_refl by (auto simp: endpoint_def notFound_def split: option.splits)
qed (simp_all add: endpoint_def healthz_def notFound_def methodNotAllowed_def R_refl
      availability_R createAppointment_R getAppointment_R)

lemma middleware_R:
  assumes "\<And>mw h req s. mw \<in> set mws \<Longrightarrow> (\<And>req s. R s (snd (h req s))) \<Longrightarrow> R s (snd (mw h req s))"
    and "\<And>req s. R s (snd (h req s))"
  shows "R s (snd (foldr (\<lambda>mw h. mw h) mws h req s))"
  using assms(1)
proof (induction mws arbitrary: req s)
  case (Cons mw mws)
  have "R s (snd (foldr (\<lambda>mw h. mw h) mws h req s))" for req s by (rule Cons.IH) (auto intro: Cons.prems)
  then show ?case using Cons.prems [of mw "foldr (\<lambda>mw h. mw h) mws h"] by simp
qed (simp add: assms(2))

end

text \<open>A sequence of requests, served one after the other.\<close>

fun serve_all :: "(route \<Rightarrow> 's handler) \<Rightarrow> (route \<times> http_request) list \<Rightarrow> 's \<Rightarrow> write_op list list \<times> 's" where
  "serve_all h [] s = ([], s)"
| "serve_all h ((r, req) # rs) s =
     (let (ops, t) = h r req s; (opss, u) = serve_all h rs t in (ops # opss, u))"

lemma serve_all_R:
  assumes "\<And>s. R s s" "\<And>s t u. R s t \<Longrightarrow> R t u \<Longrightarrow> R s u" "\<And>r req s. R s (snd (h r req s))"
  shows "R s (snd (serve_all h rs s))"
proof (induction rs arbitrary: s)
  case (Cons x rs)
  obtain r req where x: "x = (r, req)" by fastforce
  obtain ops t where h: "h r req s = (ops, t)" by fastforce
  obtain opss u where rest: "serve_all h rs t = (opss, u)" by fastforce
  show ?case
    using assms(2) [of s t u] assms(3) [of s r req] Cons.IH [of t] by (simp add: x h rest)
qed (simp add: assms(1))

section \<open>Properties\<close>

text \<open>C21: a POST is answered 400 and leaves the state alone unless its body decodes, the three identifiers
  are UUIDs, the start time is a date and time with an offset and the key is absent or a UUID; then
  the service is called once with the identifiers in lower case, and the answer is 201 with the
  location and the body of the appointment, or the rendering of the error.\<close>

theorem create_appointment_exact:
  "case accepted_booking rt req of
     None \<Rightarrow> \<exists>ops. createAppointment rt svc req s = (ops, s) \<and> status_of ops = 400
   | Some r \<Rightarrow> \<exists>ops. createAppointment rt svc req s = (ops, snd (svc_Book svc r s)) \<and>
       (case fst (svc_Book svc r s) of
          Inl err \<Rightarrow> ops = writeDomainError err
        | Inr a \<Rightarrow> status_of ops = 201 \<and>
            header_of ops ''Location'' = Some (''/api/v1/appointments/'' @ ap_ID a) \<and>
            body_of ops = [appointment_json (toAppointmentResponse a)])"
proof (cases "accepted_booking rt req")
  case None
  show ?thesis
    using None by (rule createAppointment_refused [of rt req svc s]) (simp add: None writeValidationError_def wire_simps)
next
  case (Some r)
  then show ?thesis
    by (auto simp: createAppointment_accepted wire_simps split: prod.splits sum.splits)
qed

text \<open>C22: a request body is accepted exactly when it is one JSON object whose members all name one of the
  four fields, in any case, with a string or null, or the value null; nothing but blanks or a closing
  bracket may follow, and a field has the last string given for it. Every other body is refused with the
  message of what could not be read, of the first member that names no field or has another type, or
  of what follows the object.\<close>

theorem decode_body_exact:
  "(decodeJSON scan bytes = Inr r \<longleftrightarrow>
     (\<exists>v rest. scan_body scan bytes = ScanValue v rest \<and> \<not> more_follows rest \<and>
        (v = JNull \<and> r = empty_request \<or>
         (\<exists>ms. v = JObj ms \<and> well_typed_members ms \<and> (\<forall>f. get_field f r = last_value f ms))))) \<and>
   (decodeJSON scan bytes = Inl msg \<longleftrightarrow>
     (case scan_body scan bytes of
        ScanEOF \<Rightarrow> msg = ''request body is required''
      | ScanSyntaxError \<Rightarrow> msg = ''malformed JSON''
      | ScanTooLarge \<Rightarrow> msg = ''request body too large''
      | ScanTruncated \<Rightarrow> msg = ''malformed request body''
      | ScanFailed \<Rightarrow> msg = ''malformed request body''
      | ScanValue v rest \<Rightarrow>
          (case value_problems v of
             p # _ \<Rightarrow> msg = p
           | [] \<Rightarrow> more_follows rest \<and> msg = ''request body must contain a single JSON object'')))"
  using decodeJSON_iff decodeJSON_message by (rule conjI)

text \<open>C24: an error of the domain is answered with the status of its code: 409 for missing resources and a booked
  vehicle, 422 for a time outside the rules and a reused key, 503 for CONTENTION, 404 for what is not
  found, 400 for invalid input, and 500 for any other; with its code, its message and its resources, and
  with Retry-After exactly for CONTENTION, the only retryable one.\<close>

theorem domain_error_answer:
  assumes "AsError err = Some de"
  shows "(status_of (writeDomainError err) = 409 \<longleftrightarrow> err_Code de \<in> {CodeNoAvailableResource, CodeVehicleAlreadyBooked}) \<and>
    (status_of (writeDomainError err) = 422 \<longleftrightarrow> err_Code de \<in> {CodeOutsideBusinessHours, CodeServiceExceedsClosingTime,
       CodeStartTimeInPast, CodeIdempotencyKeyReused}) \<and>
    (status_of (writeDomainError err) = 404 \<longleftrightarrow> err_Code de = CodeResourceNotFound) \<and>
    (status_of (writeDomainError err) = 400 \<longleftrightarrow> err_Code de = CodeValidationError) \<and>
    (status_of (writeDomainError err) = 503 \<longleftrightarrow> err_Code de = CodeContention) \<and>
    (status_of (writeDomainError err) = 500 \<longleftrightarrow> (\<exists>s. err_Code de = CodeOther s)) \<and>
    header_of (writeDomainError err) ''Retry-After'' =
      (if err_Code de = CodeContention then Some ''1'' else None) \<and>
    (\<exists>m. body_of (writeDomainError err) = [JObj m] \<and> map_of m ''code'' = Some (JStr (code_text (err_Code de))) \<and>
       map_of m ''message'' = Some (JStr (err_Message de)) \<and> map_of m ''details'' = None \<and>
       map_of m ''conflicting'' = (if err_Conflicting de = [] then None
         else Some (JArr (map (JStr \<circ> resource_text) (err_Conflicting de)))))"
proof -
  have status: "statusFor c = 409 \<longleftrightarrow> c \<in> {CodeNoAvailableResource, CodeVehicleAlreadyBooked}"
    "statusFor c = 422 \<longleftrightarrow> c \<in> {CodeOutsideBusinessHours, CodeServiceExceedsClosingTime, CodeStartTimeInPast, CodeIdempotencyKeyReused}"
    "statusFor c = 404 \<longleftrightarrow> c = CodeResourceNotFound" "statusFor c = 400 \<longleftrightarrow> c = CodeValidationError"
    "statusFor c = 503 \<longleftrightarrow> c = CodeContention" "statusFor c = 500 \<longleftrightarrow> (\<exists>s. c = CodeOther s)" for c
    by (cases c; simp)+
  have "status_of (writeDomainError err) = statusFor (err_Code de)"
    by (simp add: writeDomainError_def assms writeError_def wire_simps)
  moreover have "header_of (writeDomainError err) ''Retry-After'' = (if err_Code de = CodeContention then Some ''1'' else None)"
    by (simp add: writeDomainError_def assms writeError_def wire_simps retryAfterSeconds_def)
  moreover have "\<exists>m. body_of (writeDomainError err) = [JObj m] \<and> map_of m ''code'' = Some (JStr (code_text (err_Code de))) \<and>
       map_of m ''message'' = Some (JStr (err_Message de)) \<and> map_of m ''details'' = None \<and>
       map_of m ''conflicting'' = (if err_Conflicting de = [] then None
         else Some (JArr (map (JStr \<circ> resource_text) (err_Conflicting de))))"
    by (simp add: writeDomainError_def assms writeError_def wire_simps error_json_def)
  ultimately show ?thesis by (simp only: status simp_thms)
qed

theorem domain_error_answer_witness:
  "status_of (writeDomainError (EWrap2 ELostRace (EDomain Contention) [])) = 503 \<and>
   header_of (writeDomainError (EWrap2 ELostRace (EDomain Contention) [])) ''Retry-After'' = Some ''1''"
  using domain_error_answer [of "EWrap2 ELostRace (EDomain Contention) []" Contention] by simp


text \<open>C25: an error that is not of the domain reveals nothing: two of them get the same answer, unless they
  differ in being the cancellation or the deadline of the request.\<close>

theorem internal_errors_opaque:
  assumes "AsError e = None" "AsError f = None"
    and "error_is e ECanceled = error_is f ECanceled" "error_is e EDeadlineExceeded = error_is f EDeadlineExceeded"
  shows "writeDomainError e = writeDomainError f \<and>
    status_of (writeDomainError e) \<in> {200, 500, 504}"
  using assms by (simp add: writeDomainError_def wire_simps)

theorem internal_errors_opaque_witness:
  "writeDomainError (EWrap ''select vehicle'' (EText ''connection refused'')) = writeDomainError (EText ''disk full'')"
  by (rule conjunct1 [OF internal_errors_opaque]) simp_all

text \<open>C26: identifiers and idempotency keys are the same in upper and lower case: two bookings, two queries or
  two readings that differ only in the case of the letters of their identifiers get the same answer and
  have the same effect. A text that is not a UUID names no appointment in any case: 404, without an effect.\<close>

theorem case_of_identifiers_irrelevant:
  assumes "decodeJSON (hrt_scan rt) (hr_Body req) = Inr b" "decodeJSON (hrt_scan rt) (hr_Body req') = Inr c"
    and "same_booking b c" "same_letters (request_key req) (request_key req')" "same_query req req'"
    and "same_letters i j"
  shows "createAppointment rt svc req s = createAppointment rt svc req' s \<and>
    availability svc req s = availability svc req' s \<and>
    (if uuidRe i then getAppointment svc i req s = getAppointment svc j req' s
     else \<not> uuidRe j \<and> (\<exists>ops ops'. getAppointment svc i req s = (ops, s) \<and> getAppointment svc j req' s = (ops', s) \<and>
       status_of ops = 404 \<and> status_of ops' = 404))"
proof -
  have "status_of (writeDomainError (EDomain (NotFound ''appointment'' k))) = 404" for k
    by (simp add: writeDomainError_def writeError_def wire_simps NotFound_def NewError_def)
  then show ?thesis
    using same_letters_uuid [OF assms(6)] getAppointment_letters [OF assms(6), of svc req s req']
    by (simp add: createAppointment_letters [OF assms(1-4)] availability_letters [OF assms(5)] getAppointment_refused)
qed

text \<open>C23: a query is answered 400, naming the parameters that are missing or malformed and no others, and
  leaves the state alone, unless the three identifiers are UUIDs and the date has the form of one.\<close>

theorem availability_refused_exact:
  assumes "\<not> availability_accepted req"
  shows "\<exists>d. availability svc req s = (writeValidationError ''invalid query parameters'' d, s) \<and>
    fst ` set d = {p \<in> {''dealershipId'', ''serviceTypeId'', ''vehicleId''}. \<not> uuidRe (get_first (hr_Query req) p)} \<union>
      (if dateRe (get_first (hr_Query req) ''date'') then {} else {''date''})"
proof -
  have keys: "fst ` set (AList.update k v m) = insert k (fst ` set m)" for k :: string and v :: string and m
    using arg_cong [OF update_conv', of dom, of k v m] by (simp add: dom_map_of_conv_image_fst)
  have "requireUUID d f v = (if uuidRe v then d else AList.update f (if v = [] then ''required'' else ''must be a UUID'') d)"
    for d f v by (auto simp: requireUUID_def uuidRe_def is_uuid_def)
  moreover have "\<not> dateRe []" using dateRe_not_Nil by blast
  ultimately have k: "fst ` set (availability_details req) =
      {p \<in> {''dealershipId'', ''serviceTypeId'', ''vehicleId''}. \<not> uuidRe (get_first (hr_Query req) p)} \<union>
      (if dateRe (get_first (hr_Query req) ''date'') then {} else {''date''})"
    by (auto simp: availability_details_def Let_def keys)
  have "availability_details req \<noteq> []" using assms by (simp add: availability_details_Nil)
  then have "availability svc req s =
      (writeValidationError ''invalid query parameters'' (availability_details req), s)"
    by (simp add: availability_def)
  then show ?thesis using k by blast
qed

definition plain_request :: http_request where
  "plain_request = \<lparr>hr_Method = ''GET'', hr_Path = ''/api/v1/availability'', hr_Pattern = [], hr_Query = [],
     hr_Header = [], hr_Body = [], hr_CorrelationID = []\<rparr>"

definition missing_service :: "unit service" where
  "missing_service =
     \<lparr>svc_Availability = (\<lambda>q s. (Inl (EDomain (NotFound ''dealership'' (aq_DealershipID q))), s)),
      svc_Book = (\<lambda>r s. (Inl (EDomain (NotFound ''dealership'' (rq_DealershipID r))), s)),
      svc_GetAppointment = (\<lambda>i s. (Inl (EDomain (NotFound ''appointment'' i)), s))\<rparr>"

definition dated_request :: http_request where
  "dated_request = plain_request\<lparr>hr_Query := [(''date'', ''2030-03-04'')]\<rparr>"

theorem availability_refused_exact_witness:
  "\<exists>d. availability missing_service dated_request () = (writeValidationError ''invalid query parameters'' d, ()) \<and>
    fst ` set d = {''dealershipId'', ''serviceTypeId'', ''vehicleId''}"
proof -
  have n: "\<not> uuidRe []" by (simp add: uuidRe_def is_uuid_def)
  have d: "dateRe ''2030-03-04''" by code_simp
  have q: "get_first (hr_Query dated_request) ''date'' = ''2030-03-04''"
    "get_first (hr_Query dated_request) ''dealershipId'' = []"
    "get_first (hr_Query dated_request) ''serviceTypeId'' = []" "get_first (hr_Query dated_request) ''vehicleId'' = []"
    by (simp_all add: get_first_def dated_request_def)
  have "\<not> availability_accepted dated_request" using n by (simp add: availability_accepted_def q)
  then obtain e where e: "availability missing_service dated_request () = (writeValidationError ''invalid query parameters'' e, ())"
    and keys: "fst ` set e = {p \<in> {''dealershipId'', ''serviceTypeId'', ''vehicleId''}.
        \<not> uuidRe (get_first (hr_Query dated_request) p)} \<union>
        (if dateRe (get_first (hr_Query dated_request) ''date'') then {} else {''date''})"
    using availability_refused_exact [of dated_request missing_service "()"] by blast
  have "fst ` set e = {''dealershipId'', ''serviceTypeId'', ''vehicleId''}"
    unfolding keys using d n by (auto simp: q)
  with e show ?thesis by blast
qed

text \<open>A body with three UUIDs, of which the vehicle is spelled as the bytes say.\<close>

definition spelled_uuid :: "string \<Rightarrow> string" where
  "spelled_uuid c = ''0000000'' @ c @ ''-0000-4000-8000-000000000000''"

definition spelled_body :: "string \<Rightarrow> json" where
  "spelled_body c = JObj [(''dealershipId'', JStr (spelled_uuid ''d'')), (''VehicleID'', JStr (spelled_uuid c)),
     (''serviceTypeId'', JStr (spelled_uuid ''5'')), (''startTime'', JStr ''2030-03-04T09:00:00Z'')]"

definition spelling_runtime :: http_runtime where
  "spelling_runtime = \<lparr>hrt_scan = (\<lambda>bytes. ScanValue (spelled_body bytes) []), hrt_Local = UTC\<rparr>"

lemma spelled_decodes:
  assumes "length c \<le> 10"
  shows "decodeJSON (hrt_scan spelling_runtime) c = Inr \<lparr>cr_DealershipID = spelled_uuid ''d'',
    cr_VehicleID = spelled_uuid c, cr_ServiceTypeID = spelled_uuid ''5'', cr_StartTime = ''2030-03-04T09:00:00Z''\<rparr>"
proof -
  have f: "field_of_key ''dealershipId'' = Some FieldDealership" "field_of_key ''VehicleID'' = Some FieldVehicle"
    "field_of_key ''serviceTypeId'' = Some FieldServiceType" "field_of_key ''startTime'' = Some FieldStartTime"
    by code_simp+
  show ?thesis
    using assms by (simp add: decodeJSON_def scan_body_def maxBodyBytes_def spelling_runtime_def spelled_body_def
        empty_request_def more_follows_def Let_def f)
qed

theorem case_of_identifiers_irrelevant_witness:
  "createAppointment spelling_runtime missing_service (plain_request\<lparr>hr_Body := ''B''\<rparr>) () =
    createAppointment spelling_runtime missing_service (plain_request\<lparr>hr_Body := ''b''\<rparr>) () \<and>
   accepted_booking spelling_runtime (plain_request\<lparr>hr_Body := ''B''\<rparr>) \<noteq> None \<and>
   getAppointment missing_service (spelled_uuid ''B'') plain_request () =
    getAppointment missing_service (spelled_uuid ''b'') plain_request ()"
proof -
  let ?r = "plain_request\<lparr>hr_Body := ''B''\<rparr>" and ?q = "plain_request\<lparr>hr_Body := ''b''\<rparr>"
  have l: "same_letters (spelled_uuid ''B'') (spelled_uuid ''b'')" "uuidRe (spelled_uuid ''B'')"
    "uuidRe (spelled_uuid ''d'')" "uuidRe (spelled_uuid ''5'')"
    "parse_rfc3339 UTC ''2030-03-04T09:00:00Z'' \<noteq> None"
    unfolding same_letters_def by code_simp+
  have d: "decodeJSON (hrt_scan spelling_runtime) (hr_Body ?r) = Inr \<lparr>cr_DealershipID = spelled_uuid ''d'',
      cr_VehicleID = spelled_uuid ''B'', cr_ServiceTypeID = spelled_uuid ''5'', cr_StartTime = ''2030-03-04T09:00:00Z''\<rparr>"
    "decodeJSON (hrt_scan spelling_runtime) (hr_Body ?q) = Inr \<lparr>cr_DealershipID = spelled_uuid ''d'',
      cr_VehicleID = spelled_uuid ''b'', cr_ServiceTypeID = spelled_uuid ''5'', cr_StartTime = ''2030-03-04T09:00:00Z''\<rparr>"
    using spelled_decodes [of "''B''"] spelled_decodes [of "''b''"] by simp_all
  have k: "request_key ?r = []" "request_key ?q = []" by (simp_all add: request_key_def plain_request_def get_first_def)
  have "same_query ?r ?q" by (simp add: same_query_def same_letters_def)
  note c = case_of_identifiers_irrelevant [OF d _ _ this l(1), of missing_service "()"]
  have acc: "accepted_booking spelling_runtime ?r \<noteq> None"
    using l by (simp add: accepted_booking_def d [simplified] k) (simp add: spelling_runtime_def)
  have g: "getAppointment missing_service i ?r () = getAppointment missing_service i plain_request ()" for i
    by (simp add: getAppointment_def)
  show ?thesis
    using c l acc by (simp add: same_booking_def k same_letters_def g getAppointment_def)
qed

text \<open>C35: the text a response gives for an instant is accepted as the start time of a booking, and is read as
  the same second with the same offset, in every zone whose offset is whole minutes and for the years 0 to
  9999; the fraction of the second is lost.\<close>

theorem rendered_time_parses:
  assumes "civil_of_time t = (y, m, d)" "0 \<le> y" "y \<le> 9999"
    and "whole_offset (offset_at (t_loc t) (unix_sec t))" "cr_StartTime body = formatTime t"
  shows "t_ns (start_time rt body) = unix_sec t * second \<and>
    offset_at (t_loc (start_time rt body)) (unix_sec (start_time rt body)) = offset_at (t_loc t) (unix_sec t) \<and>
    map_of (booking_details rt body key) ''startTime'' = None"
proof -
  obtain u where u: "parse_rfc3339 (hrt_Local rt) (formatTime t) = Some u" "t_ns u = unix_sec t * second"
    "offset_at (t_loc u) (unix_sec u) = offset_at (t_loc t) (unix_sec t)"
    using parse_format_instant [OF assms(1-4), of "hrt_Local rt"] unfolding formatTime_def by blast
  have "formatTime t \<noteq> []" using u(1) by auto
  then have "map_of (booking_details rt body key) ''startTime'' = None"
    using u(1) by (simp add: booking_details_def Let_def requireUUID_def assms(5) update_conv' idempotencyKeyHeader_def)
  then show ?thesis using u start_time_parsed [of rt body u] by (simp add: assms(5))
qed

definition timed_body :: "gtime \<Rightarrow> createAppointmentRequest" where
  "timed_body t = empty_request\<lparr>cr_StartTime := formatTime t\<rparr>"

theorem rendered_time_parses_witness:
  "t_ns (start_time spelling_runtime (timed_body \<lparr>t_ns = 1900000000 * second + 5, t_loc = ict\<rparr>)) = 1900000000 * second"
proof -
  let ?t = "\<lparr>t_ns = 1900000000 * second + 5, t_loc = ict\<rparr>"
  have u: "unix_sec ?t = 1900000000" by (simp add: unix_sec_def second_def)
  have o: "offset_at (t_loc ?t) (unix_sec ?t) = 25200" by (simp add: offset_at_def ict_def fixed_zone_def)
  then have "local_sec ?t div day_seconds = 21991" by (simp add: local_sec_def u day_seconds_def)
  moreover have "civil_of_days 21991 = (2030, 3, 18)" by code_simp
  ultimately have c: "civil_of_time ?t = (2030, 3, 18)" by (simp add: civil_of_time_def)
  have "whole_offset (offset_at (t_loc ?t) (unix_sec ?t))" unfolding o by (simp add: whole_offset_def day_seconds_def)
  then show ?thesis using rendered_time_parses [OF c] by (simp add: u timed_body_def)
qed

end
