(* ===== verification/Observability.thy ===== *)
theory Observability
  imports Handlers Offered
begin

text \<open>
  \<^verbatim>\<open>internal/observability\<close>: the booking and HTTP metrics (\<^verbatim>\<open>metrics.go\<close>), the correlation id, the
  request log and the status writer (\<^verbatim>\<open>logging.go\<close>) and the span of a request (\<^verbatim>\<open>tracing.go\<close>). The middlewares are transformers of handlers
  over a state that holds the telemetry; the clock, the random source and the length of an encoded
  body come from outside. A histogram keeps the observed durations; registering the instruments and
  rendering them is the metrics library's work.
\<close>

section \<open>Booking metrics\<close>

type_synonym http_labels = "string \<times> string \<times> string"

text \<open>The level of a log record is \<^verbatim>\<open>slog\<close>'s integer; attributes are kept in order.\<close>

record log_record =
  lr_Level :: int
  lr_Message :: string
  lr_Attrs :: "(string \<times> string) list"

text \<open>An ended span: its name, its attributes and the description of an error status.\<close>

record span =
  sp_Name :: string
  sp_Attrs :: "(string \<times> string) list"
  sp_Error :: "string option"

record telemetry =
  attempted :: nat
  confirmed :: nat
  rejected :: "(string \<times> nat) list"
  bookingDuration :: "duration list"
  httpDuration :: "(http_labels \<times> duration) list"
  httpInFlight :: int
  log_lines :: "log_record list"
  spans :: "span list"

definition NewMetrics :: telemetry where
  "NewMetrics = \<lparr>attempted = 0, confirmed = 0, rejected = [], bookingDuration = [], httpDuration = [],
     httpInFlight = 0, log_lines = [], spans = []\<rparr>"

definition inc_label :: "string \<Rightarrow> (string \<times> nat) list \<Rightarrow> (string \<times> nat) list" where
  "inc_label l m = AList.update l (Suc (map_get 0 (map_of m) l)) m"

definition booking_started :: "telemetry \<Rightarrow> telemetry" where
  "booking_started m = m\<lparr>attempted := Suc (attempted m)\<rparr>"

definition booking_finished :: "go_error option \<Rightarrow> duration \<Rightarrow> telemetry \<Rightarrow> telemetry" where
  "booking_finished err elapsed m =
     (let m = m\<lparr>bookingDuration := bookingDuration m @ [elapsed]\<rparr> in
      case err of
        None \<Rightarrow> m\<lparr>confirmed := Suc (confirmed m)\<rparr>
      | Some e \<Rightarrow>
          if CodeOf e \<noteq> no_code then m\<lparr>rejected := inc_label (code_text (CodeOf e)) (rejected m)\<rparr>
          else m\<lparr>rejected := inc_label ''INTERNAL_ERROR'' (rejected m)\<rparr>)"

text \<open>The metrics live beside the database session, in what extends its record.\<close>

definition Metrics :: "telemetry pg_scheme instrumentation" where
  "Metrics = \<lparr>BookingStarted = (\<lambda>s. s\<lparr>pg.more := booking_started (pg.more s)\<rparr>),
     BookingFinished = (\<lambda>err elapsed s. s\<lparr>pg.more := booking_finished err elapsed (pg.more s)\<rparr>)\<rparr>"

lemma beside_Metrics: "beside Metrics"
  by (auto simp: beside_def Metrics_def)

section \<open>The status writer\<close>

record statusWriter =
  sw_status :: int
  sw_bytes :: int
  sw_written :: bool

definition new_statusWriter :: statusWriter where
  "new_statusWriter = \<lparr>sw_status = 200, sw_bytes = 0, sw_written = False\<rparr>"

fun sw_perform :: "(json \<Rightarrow> int) \<Rightarrow> write_op \<Rightarrow> statusWriter \<Rightarrow> statusWriter" where
  "sw_perform len (SetHeader k v) w = w"
| "sw_perform len (WriteHeader code) w = (if sw_written w then w else w\<lparr>sw_status := code, sw_written := True\<rparr>)"
| "sw_perform len (WriteBody v) w = w\<lparr>sw_written := True, sw_bytes := sw_bytes w + len v\<rparr>"

definition observe_ops :: "(json \<Rightarrow> int) \<Rightarrow> write_op list \<Rightarrow> statusWriter" where
  "observe_ops len ops = fold (sw_perform len) ops new_statusWriter"

definition levelFor :: "int \<Rightarrow> int" where
  "levelFor status = (if 500 \<le> status then 8 else if 400 \<le> status then 4 else 0)"

section \<open>Correlation ids\<close>

definition CorrelationHeader :: string where "CorrelationHeader = ''X-Correlation-ID''"

definition correlation_char :: "char \<Rightarrow> bool" where
  "correlation_char c =
     (let n = of_char c :: nat in
      (65 \<le> n \<and> n \<le> 90) \<or> (97 \<le> n \<and> n \<le> 122) \<or> (48 \<le> n \<and> n \<le> 57) \<or>
      c \<in> {CHR ''.'', CHR ''_'', CHR '':'', CHR ''-''})"

definition correlationIDRe :: "string \<Rightarrow> bool" where
  "correlationIDRe s \<longleftrightarrow> 1 \<le> length s \<and> length s \<le> 128 \<and> list_all correlation_char s"

text \<open>\<^verbatim>\<open>hex.EncodeToString\<close> of sixteen random bytes, or the time when there are none.\<close>

definition hex_text :: "8 word list \<Rightarrow> string" where
  "hex_text bs = concat (map (\<lambda>b. [hex_digit (unat b div 16), hex_digit (unat b mod 16)]) bs)"

definition compact_time :: "gtime \<Rightarrow> string" where
  "compact_time t =
     (case civil_of_time t of (y, m, d) \<Rightarrow> let s = local_sec t mod day_seconds in
        append_int 4 y @ append_int 2 m @ append_int 2 d @ ''T'' @ append_int 2 (s div 3600)
        @ append_int 2 (s div 60 mod 60) @ append_int 2 (s mod 60) @ ''.'' @ append_int 9 (nsec_of t))"

definition newID :: "8 word list option \<Rightarrow> gtime \<Rightarrow> string" where
  "newID random now = (case random of None \<Rightarrow> compact_time (in_loc now UTC) | Some bs \<Rightarrow> hex_text bs)"

text \<open>What the middlewares take from their surroundings at a state.\<close>

record 's surroundings =
  su_random :: "'s \<Rightarrow> 8 word list option"
  su_Now :: "'s \<Rightarrow> gtime"
  su_size :: "json \<Rightarrow> int"
  su_span :: "'s \<Rightarrow> (string \<times> string) option"

definition correlation_id :: "'s surroundings \<Rightarrow> http_request \<Rightarrow> 's \<Rightarrow> string" where
  "correlation_id su req s =
     (let client = get_first (hr_Header req) CorrelationHeader in
      if correlationIDRe client then client else newID (su_random su s) (su_Now su s))"

definition CorrelationMiddleware :: "'s surroundings \<Rightarrow> 's handler \<Rightarrow> 's handler" where
  "CorrelationMiddleware su h req s =
     (let ident = correlation_id su req s;
          (ops, t) = h (req\<lparr>hr_CorrelationID := ident\<rparr>) s
      in (SetHeader CorrelationHeader ident # ops, t))"

section \<open>HTTP metrics and the request log\<close>

text \<open>Access to the telemetry inside a state.\<close>

record 's telemetry_lens =
  tl_get :: "'s \<Rightarrow> telemetry"
  tl_put :: "telemetry \<Rightarrow> 's \<Rightarrow> 's"

definition tl_modify :: "'s telemetry_lens \<Rightarrow> (telemetry \<Rightarrow> telemetry) \<Rightarrow> 's \<Rightarrow> 's" where
  "tl_modify l f s = tl_put l (f (tl_get l s)) s"

definition HTTPMiddleware :: "'s surroundings \<Rightarrow> 's telemetry_lens \<Rightarrow> 's handler \<Rightarrow> 's handler" where
  "HTTPMiddleware su l h req s =
     (let start = su_Now su s;
          s1 = tl_modify l (\<lambda>m. m\<lparr>httpInFlight := httpInFlight m + 1\<rparr>) s;
          (ops, s2) = h req s1;
          route = (if hr_Pattern req \<noteq> [] then hr_Pattern req else ''unmatched'');
          labels = (hr_Method req, route, append_int 1 (sw_status (observe_ops (su_size su) ops)));
          s3 = tl_modify l (\<lambda>m. m\<lparr>httpDuration := httpDuration m @ [(labels, sub_time (su_Now su s2) start)]\<rparr>) s2
      in (ops, tl_modify l (\<lambda>m. m\<lparr>httpInFlight := httpInFlight m - 1\<rparr>) s3))"

text \<open>\<^verbatim>\<open>contextHandler.Handle\<close> stamps a record with the correlation id and the active span.\<close>

definition stamp_record :: "string \<Rightarrow> (string \<times> string) option \<Rightarrow> log_record \<Rightarrow> log_record" where
  "stamp_record correlation span r =
     (let r = (if correlation \<noteq> [] then r\<lparr>lr_Attrs := lr_Attrs r @ [(''correlation_id'', correlation)]\<rparr> else r)
      in case span of
           None \<Rightarrow> r
         | Some (trace_id, span_id) \<Rightarrow>
             r\<lparr>lr_Attrs := lr_Attrs r @ [(''trace_id'', trace_id), (''span_id'', span_id)]\<rparr>)"

text \<open>A request log line; the duration, the peer and the user agent are left out.\<close>

definition request_record :: "http_request \<Rightarrow> statusWriter \<Rightarrow> log_record" where
  "request_record req sw =
     \<lparr>lr_Level = levelFor (sw_status sw), lr_Message = ''http request'',
      lr_Attrs = [(''method'', hr_Method req), (''path'', hr_Path req),
        (''status'', append_int 1 (sw_status sw)), (''bytes'', append_int 1 (sw_bytes sw))]\<rparr>"

definition RequestLogger :: "int \<Rightarrow> 's surroundings \<Rightarrow> 's telemetry_lens \<Rightarrow> 's handler \<Rightarrow> 's handler" where
  "RequestLogger level su l h req s =
     (let (ops, s1) = h req s;
          r = stamp_record (hr_CorrelationID req) (su_span su s1) (request_record req (observe_ops (su_size su) ops))
      in (ops, if level \<le> lr_Level r then tl_modify l (\<lambda>m. m\<lparr>log_lines := log_lines m @ [r]\<rparr>) s1 else s1))"

section \<open>Tracing\<close>

text \<open>\<^verbatim>\<open>http.StatusText\<close> of the server errors.\<close>

definition status_text_5xx :: "int \<Rightarrow> string" where
  "status_text_5xx status = map_get [] (map_of
     [(500, ''Internal Server Error''), (501, ''Not Implemented''), (502, ''Bad Gateway''),
      (503, ''Service Unavailable''), (504, ''Gateway Timeout''), (505, ''HTTP Version Not Supported''),
      (506, ''Variant Also Negotiates''), (507, ''Insufficient Storage''), (508, ''Loop Detected''),
      (510, ''Not Extended''), (511, ''Network Authentication Required'')]) status"

text \<open>
  One span per request, named after the route once the router has matched it. Its parent, taken from
  the headers, and its export are the tracing library's.
\<close>

definition request_span :: "http_request \<Rightarrow> int \<Rightarrow> span" where
  "request_span req status =
     \<lparr>sp_Name = hr_Method req @ '' '' @ (if hr_Pattern req \<noteq> [] then hr_Pattern req else hr_Path req),
      sp_Attrs =
        [(''http.request.method'', hr_Method req), (''url.path'', hr_Path req),
         (''user_agent.original'', get_first (hr_Header req) ''User-Agent'')]
        @ (if hr_Pattern req \<noteq> [] then [(''http.route'', hr_Pattern req)] else [])
        @ [(''http.response.status_code'', append_int 1 status)]
        @ (if hr_CorrelationID req \<noteq> [] then [(''correlation_id'', hr_CorrelationID req)] else []),
      sp_Error = (if 500 \<le> status then Some (status_text_5xx status) else None)\<rparr>"

definition TracingMiddleware :: "'s surroundings \<Rightarrow> 's telemetry_lens \<Rightarrow> 's handler \<Rightarrow> 's handler" where
  "TracingMiddleware su l h req s =
     (let (ops, t) = h req s;
          sp = request_span req (sw_status (observe_ops (su_size su) ops))
      in (ops, tl_modify l (\<lambda>m. m\<lparr>spans := spans m @ [sp]\<rparr>) t))"

section \<open>The status that is logged is the status that is sent\<close>

lemma observed_status:
  assumes "sw_written w \<longleftrightarrow> rsp_Sent r \<noteq> None" "sw_status w = (case rsp_Sent r of None \<Rightarrow> 200 | Some x \<Rightarrow> snd x)"
  shows "sw_status (fold (sw_perform len) ops w) =
    snd (the (rsp_Sent (send_status 200 (fold perform ops r))))"
  using assms
proof (induction ops arbitrary: w r)
  case Nil
  then show ?case by (cases "rsp_Sent r") (simp_all add: send_status_def)
next
  case (Cons op' ops)
  have "sw_written (sw_perform len op' w) \<longleftrightarrow> rsp_Sent (perform op' r) \<noteq> None"
    "sw_status (sw_perform len op' w) = (case rsp_Sent (perform op' r) of None \<Rightarrow> 200 | Some x \<Rightarrow> snd x)"
    using Cons.prems by (cases op'; cases "rsp_Sent r"; auto simp: send_status_def)+
  then show ?case using Cons.IH by simp
qed

lemma observed_status_sent: "sw_status (observe_ops len ops) = status_of ops"
  unfolding observe_ops_def status_of_def respond_def
  by (rule observed_status) (simp_all add: new_statusWriter_def empty_response_def)

section \<open>Correlation ids are well formed\<close>

lemma correlation_hex: "k < 16 \<Longrightarrow> correlation_char (hex_digit k)"
  by (auto simp: correlation_char_def hex_digit_def Let_def of_char_of take_bit_eq_mod)

lemma hex_text_correlation:
  "length (hex_text bs) = 2 * length bs \<and> list_all correlation_char (hex_text bs)"
proof (induction bs)
  case (Cons b bs)
  have "unat b < 256" by (rule order.strict_trans2 [OF unsigned_less]) simp
  then have "unat b div 16 < 16" by (simp add: div_less_iff_less_mult)
  then have "correlation_char (hex_digit (unat b div 16))" "correlation_char (hex_digit (unat b mod 16))"
    by (simp_all add: correlation_hex)
  then show ?case using Cons by (simp add: hex_text_def)
qed (simp add: hex_text_def)

lemma correlation_digits: "list_all correlation_char (decimal n)"
proof (induction n rule: decimal.induct)
  case (1 n)
  have d: "correlation_char (digit_char k)" if "0 \<le> k" "k \<le> 9" for k
    using that by (auto simp: correlation_char_def digit_char_def Let_def of_char_of take_bit_eq_mod)
  show ?case using 1 d [of "int (n mod 10)"] d [of "int n"] by (subst decimal.simps) auto
qed

lemma correlation_int:
  assumes "0 \<le> n" "n < 10 ^ w" "0 < w"
  shows "length (append_int w n) = w \<and> list_all correlation_char (append_int w n)"
proof -
  have "append_int w n = sprintf_0d w n" using assms(1) by (simp add: append_int_def sprintf_0d_def)
  moreover have "correlation_char (CHR ''0'')" by code_simp
  then have "list_all correlation_char (sprintf_0d w n)"
    using correlation_digits [of "nat n"] assms(1)
    by (auto simp: sprintf_0d_def zero_pad_def list_all_iff)
  ultimately show ?thesis using sprintf_0d_digits [OF assms] by simp
qed

lemma compact_time_correlation:
  assumes "civil_of_time t = (y, m, d)" "0 \<le> y" "y \<le> 9999"
  shows "correlationIDRe (compact_time t)"
proof -
  let ?u = "local_sec t"
  define h mi x n where "h = ?u mod day_seconds div 3600" and "mi = ?u mod day_seconds div 60 mod 60"
    and "x = ?u mod day_seconds mod 60" and "n = nsec_of t"
  have m60: "?u mod day_seconds mod 60 = ?u mod 60" by (rule mod_mod_cancel) (simp add: day_seconds_def)
  note k = clock_of_second [of ?u, folded m60, folded h_def mi_def x_def]
  have c: "0 \<le> h" "h < 10 ^ 2" "0 \<le> mi" "mi < 10 ^ 2" "0 \<le> x" "x < 10 ^ 2"
    unfolding power2_eq_square using k(1-6) by linarith+
  have n: "0 \<le> n" "n < 10 ^ 9" unfolding n_def nsec_of_def second_def by (rule pos_mod_sign, simp, rule order.strict_trans2 [OF pos_mod_bound], simp, simp)
  have "valid_civil y m d" using civil_of_days_inverse assms(1) by (simp add: civil_of_time_def)
  then have md: "0 \<le> m" "m < 10 ^ 2" "0 \<le> d" "d < 10 ^ 2" "0 \<le> y" "y < 10 ^ 4"
    using days_in_month_bound [of y m] assms(2,3) by (auto simp: valid_civil_def)
  have s: "compact_time t = append_int 4 y @ append_int 2 m @ append_int 2 d @ ''T'' @ append_int 2 h
      @ append_int 2 mi @ append_int 2 x @ ''.'' @ append_int 9 n"
    unfolding compact_time_def assms(1) Let_def prod.case h_def mi_def x_def n_def ..
  have T: "correlation_char (CHR ''T'')" "correlation_char (CHR ''.'')" by code_simp+
  show ?thesis
    using correlation_int [OF md(5,6)] correlation_int [OF md(1,2)] correlation_int [OF md(3,4)]
      correlation_int [OF c(1,2)] correlation_int [OF c(3,4)] correlation_int [OF c(5,6)] correlation_int [OF n] T
    by (simp add: correlationIDRe_def s)
qed

lemma correlation_id_formed:
  assumes "\<And>bs. su_random su s = Some bs \<Longrightarrow> length bs = 16"
    and "civil_of_time (in_loc (su_Now su s) UTC) = (y, m, d)" "0 \<le> y" "y \<le> 9999"
  shows "correlationIDRe (correlation_id su req s) \<and>
    (correlationIDRe (get_first (hr_Header req) CorrelationHeader) \<longrightarrow>
       correlation_id su req s = get_first (hr_Header req) CorrelationHeader)"
proof -
  have "correlationIDRe (newID (su_random su s) (su_Now su s))"
  proof (cases "su_random su s")
    case None
    then show ?thesis by (simp add: newID_def compact_time_correlation [OF assms(2-4)])
  next
    case (Some bs)
    then show ?thesis using hex_text_correlation [of bs] assms(1) by (simp add: newID_def correlationIDRe_def)
  qed
  then show ?thesis by (simp add: correlation_id_def Let_def)
qed

section \<open>What a booking adds to the metrics\<close>

definition rejections :: "telemetry \<Rightarrow> nat" where
  "rejections m = sum_list (map snd (rejected m))"

definition balanced :: "telemetry \<Rightarrow> bool" where
  "balanced m \<longleftrightarrow> distinct (map fst (rejected m)) \<and> attempted m = confirmed m + rejections m \<and>
     length (bookingDuration m) = attempted m"

lemma inc_label_sum:
  "distinct (map fst m) \<Longrightarrow> sum_list (map snd (inc_label l m)) = Suc (sum_list (map snd m))"
proof (induction m)
  case (Cons x m)
  obtain k n where x: "x = (k, n)" by fastforce
  show ?case
  proof (cases "k = l")
    case False
    then show ?thesis using Cons by (simp add: inc_label_def x map_get_def)
  qed (simp add: inc_label_def x)
qed (simp add: inc_label_def)

lemma inc_label_distinct: "distinct (map fst m) \<Longrightarrow> distinct (map fst (inc_label l m))"
  by (simp add: inc_label_def distinct_update)

lemma booking_counted_balanced:
  assumes "balanced m"
  shows "balanced (booking_finished err d (booking_started m))"
  using assms
  by (auto simp: balanced_def rejections_def booking_finished_def booking_started_def Let_def inc_label_sum
      inc_label_distinct split: option.splits)

interpretation more: session_relation "\<lambda>s t. pg.more t = pg.more s" env for env
  by unfold_locales (auto simp: admit_row_def admit_key_def split: prod.splits)

lemma InTx_more:
  assumes "\<And>u. tx_steps env u (snd (body (bookingTx env) u))" "InTx env body s = (x, t)"
  shows "pg.more t = pg.more s"
proof -
  obtain r appt out where x: "x = (r, appt, out)" by (metis prod.exhaust)
  have a: "pg.more (arrive env u) = pg.more u" for u by (rule more.arrive_R)
  have b: "pg.more s2 = pg.more s" if "body (bookingTx env) (open_tx (arrive env s)) = (y, s2)" for y s2
    using more.tx_steps_R [OF assms(1) [of "open_tx (arrive env s)"]] that a [of s] by (simp add: open_tx_def)
  from assms(2) [unfolded x] show ?thesis
    by (cases rule: InTx_cases) (auto dest: b more.tx_steps_R simp: a close_tx_def apply_tx_def)
qed

lemma book_in_tx_more:
  assumes sch: "sch_repo sch = Repository env" and b: "book_in_tx rt sch req s = (res, t)"
  shows "pg.more t = pg.more s"
proof -
  have l: "pg.more t1 = pg.more s1" if "dealership env i s1 = (x1, t1)" for i s1 x1 t1
    using more.tx_steps_R [OF lookup_steps(1) [OF that]] .
  have m: "pg.more t1 = pg.more s1" if "serviceType env i s1 = (x1, t1)" for i s1 x1 t1
    using more.tx_steps_R [OF lookup_steps(2) [OF that]] .
  have n: "pg.more t1 = pg.more s1" if "vehicleWithOwner env i j s1 = (x1, t1)" for i j s1 x1 t1
    using more.tx_steps_R [OF lookup_steps(3) [OF that]] .
  from b show ?thesis
  proof (cases rule: book_in_tx_cases)
    case (in_tx d s1 st s2 v c s3 iv r appt out)
    have "pg.more t = pg.more s3"
      by (rule InTx_more [where body = "book_body rt sch req (sch_now sch s3)
            (DateOf (iv_start iv) (dl_Location d)) (booking_query req d v iv) st (booking_appointment req st v c iv)"])
        (use in_tx(5) session.book_body_R in \<open>simp_all add: sch\<close>)
    then show ?thesis using in_tx(1-3) l m n unfolding sch Repository_sel by metis
  qed (auto simp: sch dest!: l m n)
qed

lemma Book_metrics:
  assumes "sch_repo sch = Repository env" "sch_metrics sch = Metrics" "Book rt sch req s = (res, t)"
  obtains d where "pg.more t = booking_finished (result_error res) d (booking_started (pg.more s))"
proof -
  let ?s = "s\<lparr>pg.more := booking_started (pg.more s)\<rparr>"
  obtain u where u: "book_in_tx rt sch req ?s = (res, u)"
    and t: "t = BookingFinished Metrics (result_error res) (sub_time (rt_Now rt u) (rt_Now rt s)) u"
    using assms(3) by (auto simp: Book_def Let_def assms(2) Metrics_def split: prod.splits)
  have "pg.more u = booking_started (pg.more s)" using book_in_tx_more [OF assms(1) u] by simp
  then show ?thesis using that t by (simp add: Metrics_def)
qed

end
