(* ===== verification/Calendar.thy ===== *)
theory Calendar
  imports Session
begin

text \<open>
  What the store of appointments promises, without tables: a calendar maps the identifiers given out
  so far to a reservation, held or released. A held reservation keeps its technician, its bay and its
  vehicle for itself over its time. The theorem of this theory is a simulation: every step of a database
  session, its own commit and whatever other sessions do, is a sequence of steps of the calendar.
\<close>

section \<open>The specification\<close>

record reservation =
  rs_technician :: string
  rs_bay :: string
  rs_vehicle :: string
  rs_start :: int
  rs_end :: int

datatype entry = Held reservation | Released reservation

type_synonym calendar = "string \<rightharpoonup> entry"

definition clash :: "reservation \<Rightarrow> reservation \<Rightarrow> bool" where
  "clash a b \<longleftrightarrow>
     (rs_technician a = rs_technician b \<or> rs_bay a = rs_bay b \<or> rs_vehicle a = rs_vehicle b) \<and>
     rs_start a < rs_end b \<and> rs_start b < rs_end a"

inductive calendar_step :: "calendar \<Rightarrow> calendar \<Rightarrow> bool" where
  reserve: "i \<notin> dom c \<Longrightarrow> rs_start a < rs_end a \<Longrightarrow> (\<And>j b. c j = Some (Held b) \<Longrightarrow> \<not> clash a b) \<Longrightarrow>
    calendar_step c (c(i \<mapsto> Held a))"
| enter_released: "i \<notin> dom c \<Longrightarrow> calendar_step c (c(i \<mapsto> Released a))"
| release: "c i = Some (Held a) \<Longrightarrow> calendar_step c (c(i \<mapsto> Released a))"

abbreviation calendar_steps :: "calendar \<Rightarrow> calendar \<Rightarrow> bool" where
  "calendar_steps \<equiv> calendar_step\<^sup>*\<^sup>*"

inductive_cases calendar_stepE: "calendar_step c d"

text \<open>No two held reservations clash: an invariant of the specification.\<close>

definition free_of_clashes :: "calendar \<Rightarrow> bool" where
  "free_of_clashes c \<longleftrightarrow> (\<forall>i j a b. c i = Some (Held a) \<longrightarrow> c j = Some (Held b) \<longrightarrow> i \<noteq> j \<longrightarrow> \<not> clash a b)"

lemma clash_sym: "clash a b \<longleftrightarrow> clash b a"
  by (auto simp: clash_def)

lemma calendar_step_free: "calendar_step c d \<Longrightarrow> free_of_clashes c \<Longrightarrow> free_of_clashes d"
proof (induction rule: calendar_step.induct)
  case (reserve i c a)
  then show ?case unfolding free_of_clashes_def by (metis clash_sym entry.inject(1) fun_upd_apply option.inject)
next
  case (enter_released i c a)
  then show ?case unfolding free_of_clashes_def by (metis entry.distinct(1) fun_upd_apply option.inject)
next
  case (release c i a)
  then show ?case unfolding free_of_clashes_def by (metis entry.distinct(1) fun_upd_apply option.inject)
qed

lemma calendar_steps_free: "calendar_steps c d \<Longrightarrow> free_of_clashes c \<Longrightarrow> free_of_clashes d"
  by (induction rule: rtranclp_induct) (auto intro: calendar_step_free)

text \<open>What was reserved stays in the calendar, held or released; a release is final.\<close>

lemma calendar_steps_keep:
  assumes "calendar_steps c d"
  shows "c i = Some (Released a) \<Longrightarrow> d i = Some (Released a)"
    and "c i = Some (Held a) \<Longrightarrow> d i = Some (Held a) \<or> d i = Some (Released a)"
  using assms
  by (induction rule: rtranclp_induct) (auto elim!: calendar_stepE split: if_splits)

section \<open>The calendar of a database\<close>

definition reservation_of :: "appointment_row \<Rightarrow> reservation" where
  "reservation_of r = \<lparr>rs_technician = row_technician r, rs_bay = row_bay r, rs_vehicle = row_vehicle r,
     rs_start = row_start r, rs_end = row_end r\<rparr>"

definition entry_of :: "appointment_row \<Rightarrow> entry" where
  "entry_of r = (if row_status r = StatusConfirmed then Held else Released) (reservation_of r)"

definition entries :: "appointment_row list \<Rightarrow> calendar" where
  "entries rows = map_of (map (\<lambda>r. (row_id r, entry_of r)) rows)"

definition calendar_of :: "db \<Rightarrow> calendar" where
  "calendar_of d = entries (db_appointments d)"

lemma entries_append [simp]: "row_id r \<notin> row_id ` set rows \<Longrightarrow> entries (rows @ [r]) = (entries rows)(row_id r \<mapsto> entry_of r)"
  by (induction rows) (auto simp: entries_def fun_eq_iff)

lemma dom_entries: "dom (entries rows) = row_id ` set rows"
  by (simp add: entries_def dom_map_of_conv_image_fst image_image)

lemma entry_of_Held [simp]:
  "entry_of r = Held a \<longleftrightarrow> row_status r = StatusConfirmed \<and> a = reservation_of r"
  "entry_of (r\<lparr>row_status := StatusCancelled\<rparr>) = Released (reservation_of r)"
  by (auto simp: entry_of_def reservation_of_def)

lemma calendar_of_Held:
  assumes "calendar_of d i = Some (Held a)"
  obtains r where "r \<in> set (db_appointments d)" "row_id r = i" "row_status r = StatusConfirmed" "a = reservation_of r"
  using map_of_SomeD [OF assms [unfolded calendar_of_def entries_def]] by (auto dest: sym)

text \<open>A clash of two confirmed rows is what the exclusion constraints exclude.\<close>

lemma clash_double_booked:
  assumes "row_status r = StatusConfirmed" "row_status x = StatusConfirmed"
    and "row_start r < row_end r" "row_start x < row_end x"
  shows "clash (reservation_of r) (reservation_of x) \<longleftrightarrow> double_booked r x"
  using assms by (auto simp: clash_def reservation_of_def double_booked_def excluded_def ranges_overlap_def)

lemma insert_steps:
  assumes "\<forall>x \<in> set (db_appointments d). row_start x < row_end x" "insert_violation d r = None"
  shows "calendar_step (calendar_of d) ((calendar_of d)(row_id r \<mapsto> entry_of r))"
proof (cases "row_status r = StatusConfirmed")
  case True
  then have e: "entry_of r = Held (reservation_of r)" by (simp add: entry_of_def)
  have "\<not> clash (reservation_of r) b" if held: "calendar_of d j = Some (Held b)" for j b
  proof -
    obtain x where x: "x \<in> set (db_appointments d)" "row_status x = StatusConfirmed" "b = reservation_of x"
      using held by (rule calendar_of_Held)
    have "row_start x < row_end x" using assms(1) x(1) by simp
    then show ?thesis
      using assms(2) x True by (auto simp: insert_violation_None clash_double_booked)
  qed
  then show ?thesis
    unfolding e using assms(2)
    by (intro calendar_step.reserve) (auto simp: calendar_of_def dom_entries insert_violation_None reservation_of_def)
next
  case False
  then have "entry_of r = Released (reservation_of r)" by (simp add: entry_of_def)
  moreover have "row_id r \<notin> dom (calendar_of d)"
    using assms(2) by (auto simp: calendar_of_def dom_entries insert_violation_None)
  ultimately show ?thesis by (simp add: calendar_step.enter_released)
qed

lemma calendar_of_add_row:
  "insert_violation d r = None \<Longrightarrow> calendar_of (add_row r d) = (calendar_of d)(row_id r \<mapsto> entry_of r)"
  unfolding add_row_def calendar_of_def by (simp, subst entries_append) (auto simp: insert_violation_None)

definition cancel_entry :: "string \<Rightarrow> calendar \<Rightarrow> calendar" where
  "cancel_entry i c = (case c i of Some (Held a) \<Rightarrow> c(i \<mapsto> Released a) | _ \<Rightarrow> c)"

lemma cancel_entry_steps: "calendar_steps c (cancel_entry i c)"
  by (auto simp: cancel_entry_def split: option.split entry.split intro: calendar_step.release)

lemma calendar_of_cancel_one: "calendar_of (cancel_rows [i] d) = cancel_entry i (calendar_of d)"
proof -
  have "entries (map (\<lambda>r. if row_id r = i then r\<lparr>row_status := StatusCancelled\<rparr> else r) rows) = cancel_entry i (entries rows)"
    for rows
    by (induction rows) (auto simp: entries_def cancel_entry_def entry_of_def reservation_of_def fun_eq_iff
      split: option.splits entry.splits if_splits)
  then show ?thesis by (simp add: calendar_of_def cancel_rows_def)
qed

lemma cancel_rows_Cons: "cancel_rows (i # ids) d = cancel_rows ids (cancel_rows [i] d)"
  by (auto simp: cancel_rows_def)

lemma cancel_rows_steps: "calendar_steps (calendar_of d) (calendar_of (cancel_rows ids d))"
proof (induction ids arbitrary: d)
  case (Cons i ids)
  then show ?case
    using cancel_entry_steps [of "calendar_of d" i] rtranclp_trans
    by (metis cancel_rows_Cons calendar_of_cancel_one)
qed (simp add: cancel_rows_def)

text \<open>Committing a transaction reserves its rows one by one.\<close>

lemma commit_steps:
  assumes "db_ok e" "db_appointments e = db_appointments d @ rows" "same_catalogue d e"
  shows "calendar_steps (calendar_of d) (calendar_of e)"
  using assms
proof (induction rows arbitrary: d)
  case Nil
  then show ?case by (simp add: calendar_of_def)
next
  case (Cons r rows)
  have "row_id r \<notin> row_id ` set (db_appointments d)" using Cons.prems(1,2) by (simp add: db_ok_def)
  then have ids: "\<forall>x \<in> set (db_appointments d). row_id x \<noteq> row_id r" by (metis image_eqI)
  have "no_double_booking (db_appointments d @ r # rows)" "row_ok d r"
    and rows: "\<forall>x \<in> set (db_appointments d). row_start x < row_end x"
    using Cons.prems row_ok_catalogue [OF Cons.prems(3)] by (auto simp: db_ok_def row_ok_def)
  then have v: "insert_violation d r = None"
    using ids by (simp add: insert_violation_None no_double_booking_append row_ok_def double_booked_sym [of r])
  have "calendar_step (calendar_of d) (calendar_of (add_row r d))"
    using insert_steps [OF rows v] by (simp add: calendar_of_add_row [OF v])
  moreover have "calendar_steps (calendar_of (add_row r d)) (calendar_of e)"
    using Cons.prems by (intro Cons.IH) (simp_all add: add_row_def same_catalogue_iff)
  ultimately show ?case by (rule converse_rtranclp_into_rtranclp)
qed

section \<open>The simulation\<close>

definition simulated :: "'m pg_scheme \<Rightarrow> 'm pg_scheme \<Rightarrow> bool" where
  "simulated s t \<longleftrightarrow> (session_ok s \<longrightarrow> session_ok t \<and> calendar_steps (calendar_of (pg_db s)) (calendar_of (pg_db t)))"

lemma simulated_same:
  "ok_kept s t \<Longrightarrow> db_appointments (pg_db t) = db_appointments (pg_db s) \<Longrightarrow> simulated s t"
  by (simp add: simulated_def ok_kept_def calendar_of_def)

lemma simulated_row: "simulated s (admit_row w s)"
proof -
  obtain r l where w: "w = (r, l)" by fastforce
  have "calendar_steps (calendar_of (pg_db s)) (calendar_of (add_row r (pg_db s)))"
    if ok: "session_ok s" and v: "insert_violation (view s) r = None"
  proof -
    have v: "insert_violation (pg_db s) r = None"
      using v by (rule insert_violation_mono) (simp_all add: same_catalogue_iff)
    have "\<forall>x \<in> set (db_appointments (pg_db s)). row_start x < row_end x"
      using ok by (simp add: session_ok_def db_ok_def row_ok_def)
    from insert_steps [OF this v] show ?thesis by (simp add: calendar_of_add_row [OF v] r_into_rtranclp)
  qed
  then show ?thesis using session_ok_admit_row [of s w] by (auto simp: simulated_def admit_row_def w)
qed

lemma simulated_apply: "simulated s (apply_tx s)"
proof -
  have "calendar_steps (calendar_of (pg_db s)) (calendar_of (view s))" if "session_ok s"
    using that by (intro commit_steps [of _ _ "pg_own_rows s"]) (simp_all add: session_ok_def same_catalogue_iff)
  then show ?thesis using session_ok_apply [of s] by (simp add: simulated_def view_apply)
qed

interpretation calendar: whole_session simulated env for env
proof unfold_locales
  show "simulated s s" for s :: "'a pg_scheme" by (simp add: simulated_def)
  show "simulated s (s\<lparr>pg_db := cancel_rows ids (pg_db s)\<rparr>)" for s :: "'a pg_scheme" and ids
    using session_ok_cancel [of s ids] by (simp add: simulated_def cancel_rows_steps)
  show "simulated s t \<Longrightarrow> simulated t u \<Longrightarrow> simulated s u" for s t u :: "'a pg_scheme"
    by (auto simp: simulated_def)
  show "simulated s (admit_row w s)" for s :: "'a pg_scheme" and w by (rule simulated_row)
  show "simulated s (apply_tx s)" for s :: "'a pg_scheme" by (rule simulated_apply)
  show "simulated s (admit_key env kw s)" if "kw \<in> set (ev_keys (pe_script env n))" for s :: "'a pg_scheme" and kw n
    by (rule simulated_same [OF ok.R_key [OF that]]) (simp add: admit_key_def set_key_def split: prod.split)
  show "simulated s (open_tx s)" for s :: "'a pg_scheme" using ok.R_open by (rule simulated_same) (simp add: open_tx_def)
  show "simulated s (close_tx s)" for s :: "'a pg_scheme" using ok.R_close by (rule simulated_same) (simp add: close_tx_def)
qed (auto intro!: simulated_same ok.R_tick ok.R_insert ok.R_save ok.R_lock ok.R_abort ok.R_observe)

text \<open>A calendar of a store that keeps its constraints has no clash.\<close>

lemma calendar_of_free:
  assumes "db_ok d"
  shows "free_of_clashes (calendar_of d)"
  unfolding free_of_clashes_def
proof (intro allI impI)
  fix i j a b assume h: "calendar_of d i = Some (Held a)" "calendar_of d j = Some (Held b)" "i \<noteq> j"
  obtain r where r: "r \<in> set (db_appointments d)" "row_id r = i" "row_status r = StatusConfirmed" "a = reservation_of r"
    using h(1) by (rule calendar_of_Held)
  obtain x where x: "x \<in> set (db_appointments d)" "row_id x = j" "row_status x = StatusConfirmed" "b = reservation_of x"
    using h(2) by (rule calendar_of_Held)
  obtain m n where mn: "m < length (db_appointments d)" "db_appointments d ! m = r"
    "n < length (db_appointments d)" "db_appointments d ! n = x" using r(1) x(1) by (metis in_set_conv_nth)
  then have "m \<noteq> n" using r(2) x(2) h(3) by auto
  then have "\<not> double_booked r x"
    using assms mn unfolding db_ok_def no_double_booking_nth by metis
  then show "\<not> clash a b" using assms r x by (simp add: clash_double_booked db_ok_def row_ok_def)
qed

end
