(* ===== verification/Server.thy ===== *)
theory Server
  imports Observability Calendar
begin

text \<open>
  The server as \<^verbatim>\<open>cmd/server/main.go\<close> assembles it: the scheduler over the PostgreSQL repository with
  the metrics as its instrumentation, mounted behind the router with the correlation, tracing, metrics
  and logging middlewares, the metrics page and the readiness check. The properties are about sequences
  of requests: the constraints of the database and its calendar, the balance of the metrics, what is
  recorded of a request, and the way from a slot in an availability answer to a booking.
\<close>

section \<open>Assembly\<close>

definition server_scheduler :: "pg_env \<Rightarrow> telemetry pg_scheme runtime \<Rightarrow> telemetry pg_scheme scheduler" where
  "server_scheduler env rt = New rt (Repository env) [WithInstrumentation Metrics]"

definition pg_telemetry :: "telemetry pg_scheme telemetry_lens" where
  "pg_telemetry = \<lparr>tl_get = pg.more, tl_put = (\<lambda>m s. s\<lparr>pg.more := m\<rparr>)\<rparr>"

text \<open>\<^verbatim>\<open>pool.Ping\<close> runs an empty statement.\<close>

definition pool_Ping :: "pg_env \<Rightarrow> 'm pg_scheme \<Rightarrow> go_error option \<times> 'm pg_scheme" where
  "pool_Ping env s = (case statement env [] (\<lambda>s. (Inr (), s)) s of
     (Inl err, t) \<Rightarrow> (Some err, t) | (Inr _, t) \<Rightarrow> (None, t))"

text \<open>
  What the server takes from outside: the runtime of the service, the standard library below the
  handlers, the surroundings of the middlewares, the level of the log and the metrics page.
\<close>

record server_env =
  se_pg :: pg_env
  se_runtime :: "telemetry pg_scheme runtime"
  se_http :: http_runtime
  se_surroundings :: "telemetry pg_scheme surroundings"
  se_level :: int
  se_metrics_page :: "telemetry \<Rightarrow> write_op list"

definition server_options :: "server_env \<Rightarrow> telemetry pg_scheme router_option list" where
  "server_options e =
     [WithMiddleware [CorrelationMiddleware (se_surroundings e), TracingMiddleware (se_surroundings e) pg_telemetry,
        HTTPMiddleware (se_surroundings e) pg_telemetry, RequestLogger (se_level e) (se_surroundings e) pg_telemetry],
      WithRoutes (\<lambda>name. if name = ''/metrics'' then Some (\<lambda>req s. (se_metrics_page e (pg.more s), s)) else None),
      WithReadiness (pool_Ping (se_pg e))]"

abbreviation server_service :: "server_env \<Rightarrow> telemetry pg_scheme service" where
  "server_service e \<equiv> scheduler_service (se_runtime e) (server_scheduler (se_pg e) (se_runtime e))"

definition server_router :: "server_env \<Rightarrow> route \<Rightarrow> telemetry pg_scheme handler" where
  "server_router e = NewRouter (se_http e) (server_service e) (server_options e)"

lemma server_scheduler_sel [simp]:
  "sch_repo (server_scheduler env rt) = Repository env" "sch_metrics (server_scheduler env rt) = Metrics"
  "sch_policy (server_scheduler env rt) = LeastLoaded" "sch_maxAttempts (server_scheduler env rt) = 3"
  "sch_now (server_scheduler env rt) = rt_Now rt" "sch_granularity (server_scheduler env rt) = DefaultSlotGranularity"
  by (simp_all add: server_scheduler_def New_def WithInstrumentation_def)

lemma scheduler_service_sel [simp]:
  "svc_Availability (scheduler_service rt sch) = Availability sch" "svc_Book (scheduler_service rt sch) = Book rt sch"
  "svc_GetAppointment (scheduler_service rt sch) = GetAppointment sch"
  by (simp_all add: scheduler_service_def)

text \<open>A relation that the three use cases and the middlewares keep is kept by the router.\<close>

lemma server_router_keeps:
  assumes "service_steps R (scheduler_service (se_runtime e) (server_scheduler (se_pg e) (se_runtime e)))"
    and "\<And>s. R s (snd (pool_Ping (se_pg e) s))"
    and "\<And>h req s. (\<And>req s. R s (snd (h req s))) \<Longrightarrow> R s (snd (HTTPMiddleware (se_surroundings e) pg_telemetry h req s))"
    and "\<And>h req s. (\<And>req s. R s (snd (h req s))) \<Longrightarrow> R s (snd (TracingMiddleware (se_surroundings e) pg_telemetry h req s))"
    and "\<And>h req s. (\<And>req s. R s (snd (h req s))) \<Longrightarrow>
      R s (snd (RequestLogger (se_level e) (se_surroundings e) pg_telemetry h req s))"
  shows "R s (snd (server_router e r req s))"
proof -
  let ?svc = "scheduler_service (se_runtime e) (server_scheduler (se_pg e) (se_runtime e))"
  let ?cfg = "fold (\<lambda>o' c. o' c) (server_options e) \<lparr>rc_middlewares = [], rc_extraRoutes = (\<lambda>name. None), rc_ready = None\<rparr>"
  note refl = service_steps.axioms(1) [OF assms(1), THEN state_preorder.R_refl]
  have mw: "rc_middlewares ?cfg = [CorrelationMiddleware (se_surroundings e),
      TracingMiddleware (se_surroundings e) pg_telemetry,
      HTTPMiddleware (se_surroundings e) pg_telemetry, RequestLogger (se_level e) (se_surroundings e) pg_telemetry]"
    by (simp add: server_options_def WithMiddleware_def WithRoutes_def WithReadiness_def)
  have base: "R s (snd (endpoint (se_http e) ?svc ?cfg r req s))" for req s
    by (rule service_steps.endpoint_R [OF assms(1)])
      (auto simp: server_options_def WithMiddleware_def WithRoutes_def WithReadiness_def assms(2) refl split: if_splits)
  have corr: "R s (snd (CorrelationMiddleware (se_surroundings e) h req s))" if "\<And>req s. R s (snd (h req s))" for h req s
    using that by (simp add: CorrelationMiddleware_def Let_def split: prod.split) (metis snd_conv)
  show ?thesis
    unfolding server_router_def NewRouter_def Let_def mw
    by (simp add: corr assms(3,4,5) base)
qed

section \<open>The constraints hold after any requests\<close>

lemma Availability_steps:
  assumes "sch_repo sch = Repository env"
  shows "tx_steps env s (snd (Availability sch q s))"
proof -
  obtain x1 s1 where 1: "dealership env (aq_DealershipID q) s = (x1, s1)" by fastforce
  obtain x2 s2 where 2: "serviceType env (aq_ServiceTypeID q) s1 = (x2, s2)" by fastforce
  obtain x3 s3 where 3: "vehicleWithOwner env (aq_DealershipID q) (aq_VehicleID q) s2 = (x3, s3)" by fastforce
  have steps: "tx_steps env s s1" "tx_steps env s s2" "tx_steps env s s3"
    using lookup_steps(1) [OF 1] lookup_steps(2) [OF 2] lookup_steps(3) [OF 3] by (auto intro: rtranclp_trans)
  have day: "tx_steps env s t" if "daySchedule env q' s3 = (x, t)" for q' t x
    using rtranclp_trans [OF steps(3) daySchedule_steps [of env s3 q']] that by simp
  show ?thesis
    using steps by (auto simp: Availability_def assms 1 2 3 split: sum.splits prod.splits option.splits intro: day)
qed

lemma GetAppointment_steps:
  "sch_repo sch = Repository env \<Longrightarrow> tx_steps env s (snd (GetAppointment sch i s))"
  by (simp add: GetAppointment_def appointment_steps)

interpretation served: service_steps "session_steps env" "scheduler_service rt (server_scheduler env rt)" for env rt
proof unfold_locales
  show "session_steps env s t \<Longrightarrow> session_steps env t u \<Longrightarrow> session_steps env s u" for s t u :: "telemetry pg_scheme"
    by (rule rtranclp_trans)
  show "session_steps env s (snd (svc_Book (scheduler_service rt (server_scheduler env rt)) r s))" for r s
    using Book_steps [of "server_scheduler env rt" env rt r s] beside_Metrics by (simp add: prod_eq_iff)
qed (simp_all add: session_of_tx Availability_steps GetAppointment_steps)

lemma pool_Ping_steps: "tx_steps env s (snd (pool_Ping env s))"
  using skip_steps [of env s "[]"] by (simp add: pool_Ping_def split: prod.split sum.split) (metis snd_conv)

lemma observe_steps: "session_steps env s (tl_modify pg_telemetry f s)"
  by (simp add: tl_modify_def pg_telemetry_def session_step.observe r_into_rtranclp)

lemma router_steps: "session_steps (se_pg e) s (snd (server_router e r req s))"
proof (rule server_router_keeps [OF served.service_steps_axioms])
  show "session_steps (se_pg e) s (snd (pool_Ping (se_pg e) s))" for s :: "telemetry pg_scheme"
    by (rule session_of_tx [OF pool_Ping_steps])
next
  fix h :: "telemetry pg_scheme handler" and req s
  assume h: "\<And>req s. session_steps (se_pg e) s (snd (h req s))"
  let ?in = "tl_modify pg_telemetry (\<lambda>m. m\<lparr>httpInFlight := httpInFlight m + 1\<rparr>) s"
  obtain ops s2 where r: "h req ?in = (ops, s2)" by fastforce
  have "session_steps (se_pg e) ?in s2" using h [of ?in req] r by simp
  then have "session_steps (se_pg e) s s2" using observe_steps rtranclp_trans by metis
  then show "session_steps (se_pg e) s (snd (HTTPMiddleware (se_surroundings e) pg_telemetry h req s))"
    by (simp add: HTTPMiddleware_def Let_def r) (meson observe_steps rtranclp_trans)
  obtain ops s1 where r: "h req s = (ops, s1)" by fastforce
  have s1: "session_steps (se_pg e) s s1" using h [of s req] r by simp
  show "session_steps (se_pg e) s (snd (TracingMiddleware (se_surroundings e) pg_telemetry h req s))"
    by (simp add: TracingMiddleware_def Let_def r) (rule rtranclp_trans [OF s1 observe_steps])
  from s1 show "session_steps (se_pg e) s (snd (RequestLogger (se_level e) (se_surroundings e) pg_telemetry h req s))"
    using observe_steps by (auto simp: RequestLogger_def Let_def r intro: rtranclp_trans)
qed

lemma requests_steps: "session_steps (se_pg e) s (snd (serve_all (server_router e) rs s))"
  by (rule serve_all_R) (auto intro: rtranclp_trans router_steps)

section \<open>The metrics balance after any requests\<close>

definition metrics_kept :: "telemetry pg_scheme \<Rightarrow> telemetry pg_scheme \<Rightarrow> bool" where
  "metrics_kept s t \<longleftrightarrow> (balanced (pg.more s) \<longrightarrow> balanced (pg.more t)) \<and>
     httpInFlight (pg.more t) = httpInFlight (pg.more s)"

interpretation counted: service_steps metrics_kept "scheduler_service rt (server_scheduler env rt)" for env rt
proof unfold_locales
  have eq: "pg.more t = pg.more s" if "tx_steps env s t" for s t :: "telemetry pg_scheme" using more.tx_steps_R [OF that] .
  show "metrics_kept s (snd (svc_Availability (scheduler_service rt (server_scheduler env rt)) q s))" for q s
    using eq [OF Availability_steps [of "server_scheduler env rt" env s q]] by (simp add: metrics_kept_def)
  show "metrics_kept s (snd (svc_GetAppointment (scheduler_service rt (server_scheduler env rt)) i s))" for i s
    using eq [OF GetAppointment_steps [of "server_scheduler env rt" env s i]] by (simp add: metrics_kept_def)
  fix r and s :: "telemetry pg_scheme"
  obtain res t where b: "Book rt (server_scheduler env rt) r s = (res, t)" by fastforce
  obtain d where "pg.more t = booking_finished (result_error res) d (booking_started (pg.more s))"
    by (rule Book_metrics [OF server_scheduler_sel(1,2) b])
  then have "metrics_kept s t"
    using booking_counted_balanced [of "pg.more s"]
    by (auto simp: metrics_kept_def booking_finished_def booking_started_def Let_def split: option.splits)
  then show "metrics_kept s (snd (svc_Book (scheduler_service rt (server_scheduler env rt)) r s))" by (simp add: b)
qed (auto simp: metrics_kept_def)

lemma metrics_observe:
  "metrics_kept s (tl_modify pg_telemetry (\<lambda>m. m\<lparr>httpDuration := f m\<rparr>) s)"
  "metrics_kept s (tl_modify pg_telemetry (\<lambda>m. m\<lparr>log_lines := g m\<rparr>) s)"
  "metrics_kept s (tl_modify pg_telemetry (\<lambda>m. m\<lparr>spans := k m\<rparr>) s)"
  by (simp_all add: metrics_kept_def tl_modify_def pg_telemetry_def balanced_def rejections_def)

lemma router_metrics: "metrics_kept s (snd (server_router e r req s))"
proof (rule server_router_keeps [OF counted.service_steps_axioms])
  show "metrics_kept s (snd (pool_Ping (se_pg e) s))" for s
    using more.tx_steps_R [OF pool_Ping_steps [of "se_pg e" s]] by (simp add: metrics_kept_def)
next
  fix h :: "telemetry pg_scheme handler" and req s
  assume h: "\<And>req s. metrics_kept s (snd (h req s))"
  let ?in = "tl_modify pg_telemetry (\<lambda>m. m\<lparr>httpInFlight := httpInFlight m + 1\<rparr>) s"
  obtain ops s2 where r: "h req ?in = (ops, s2)" by fastforce
  have "metrics_kept ?in s2" using h [of ?in req] r by simp
  then show "metrics_kept s (snd (HTTPMiddleware (se_surroundings e) pg_telemetry h req s))"
    by (simp add: HTTPMiddleware_def Let_def r) (simp add: metrics_kept_def tl_modify_def pg_telemetry_def balanced_def rejections_def)
  obtain ops s1 where r: "h req s = (ops, s1)" by fastforce
  have s1: "metrics_kept s s1" using h [of s req] r by simp
  then show "metrics_kept s (snd (TracingMiddleware (se_surroundings e) pg_telemetry h req s))"
    using metrics_observe(3) counted.R_trans by (auto simp: TracingMiddleware_def Let_def r)
  from s1 show "metrics_kept s (snd (RequestLogger (se_level e) (se_surroundings e) pg_telemetry h req s))"
    using metrics_observe(2) counted.R_trans by (auto simp: RequestLogger_def Let_def r)
qed

lemma requests_metrics: "metrics_kept s (snd (serve_all (server_router e) rs s))"
  by (rule serve_all_R) (auto intro: counted.R_trans counted.R_refl router_metrics)

section \<open>What a request leaves in the telemetry\<close>

lemma status_of_correlation [simp]: "status_of (SetHeader k v # ops) = status_of ops"
  by (simp add: observed_status_sent [symmetric, of _ "\<lambda>v. 0"] observe_ops_def)

lemma server_router_layers:
  obtains h where "server_router e r = CorrelationMiddleware (se_surroundings e) (TracingMiddleware (se_surroundings e) pg_telemetry
    (HTTPMiddleware (se_surroundings e) pg_telemetry (RequestLogger (se_level e) (se_surroundings e) pg_telemetry h)))"
  by (rule that) (rule ext, rule ext, simp add: server_router_def NewRouter_def Let_def server_options_def WithMiddleware_def WithRoutes_def
      WithReadiness_def)

lemma stamped_status:
  "map_of (lr_Attrs (stamp_record c sp (request_record req sw))) ''status'' = Some (append_int 1 (sw_status sw))"
  "lr_Level (stamp_record c sp (request_record req sw)) = levelFor (sw_status sw)"
  by (auto simp: stamp_record_def request_record_def Let_def split: option.split)

lemma span_status:
  "map_of (sp_Attrs (request_span req st)) ''http.response.status_code'' = Some (append_int 1 st)"
  "sp_Error (request_span req st) \<noteq> None \<longleftrightarrow> 500 \<le> st"
  by (simp_all add: request_span_def)

lemma logger_records:
  assumes "RequestLogger lvl su pg_telemetry h req s = (ops, t)" "lvl \<le> levelFor (status_of ops)"
  shows "lr_Level (last (log_lines (pg.more t))) = levelFor (status_of ops) \<and>
    map_of (lr_Attrs (last (log_lines (pg.more t)))) ''status'' = Some (append_int 1 (status_of ops))"
proof -
  obtain ops1 s1 where "h req s = (ops1, s1)" by fastforce
  then show ?thesis
    using assms by (auto simp: RequestLogger_def Let_def tl_modify_def pg_telemetry_def stamped_status observed_status_sent)
qed

lemma http_records:
  assumes "HTTPMiddleware su pg_telemetry h req s = (ops, t)"
  obtains s0 s1 d where "h req s0 = (ops, s1)" "log_lines (pg.more t) = log_lines (pg.more s1)"
    "last (httpDuration (pg.more t)) =
      ((hr_Method req, if hr_Pattern req \<noteq> [] then hr_Pattern req else ''unmatched'', append_int 1 (status_of ops)), d)"
proof -
  let ?s = "tl_modify pg_telemetry (\<lambda>m. m\<lparr>httpInFlight := httpInFlight m + 1\<rparr>) s"
  obtain ops1 s1 where 1: "h req ?s = (ops1, s1)" by fastforce
  then show ?thesis
    using assms that [of ?s s1] unfolding HTTPMiddleware_def Let_def 1
    by (auto simp: tl_modify_def pg_telemetry_def observed_status_sent)
qed

lemma tracing_records:
  assumes "TracingMiddleware su pg_telemetry h req s = (ops, t)"
  obtains s1 where "h req s = (ops, s1)" "log_lines (pg.more t) = log_lines (pg.more s1)"
    "httpDuration (pg.more t) = httpDuration (pg.more s1)" "last (spans (pg.more t)) = request_span req (status_of ops)"
proof -
  obtain ops1 s1 where 1: "h req s = (ops1, s1)" by fastforce
  then show ?thesis
    using assms that [of s1] by (auto simp: TracingMiddleware_def Let_def tl_modify_def pg_telemetry_def observed_status_sent)
qed

lemma router_records:
  assumes "server_router e r req s = (ops, t)"
  shows "(\<exists>d. last (httpDuration (pg.more t)) =
      ((hr_Method req, if hr_Pattern req \<noteq> [] then hr_Pattern req else ''unmatched'', append_int 1 (status_of ops)), d)) \<and>
    map_of (sp_Attrs (last (spans (pg.more t)))) ''http.response.status_code'' = Some (append_int 1 (status_of ops)) \<and>
    (sp_Error (last (spans (pg.more t))) \<noteq> None \<longleftrightarrow> 500 \<le> status_of ops) \<and>
    (se_level e \<le> levelFor (status_of ops) \<longrightarrow> lr_Level (last (log_lines (pg.more t))) = levelFor (status_of ops) \<and>
      map_of (lr_Attrs (last (log_lines (pg.more t)))) ''status'' = Some (append_int 1 (status_of ops)))"
proof -
  let ?su = "se_surroundings e"
  obtain h where h: "server_router e r = CorrelationMiddleware ?su (TracingMiddleware ?su pg_telemetry
      (HTTPMiddleware ?su pg_telemetry (RequestLogger (se_level e) ?su pg_telemetry h)))"
    by (rule server_router_layers)
  define q where "q = req\<lparr>hr_CorrelationID := correlation_id ?su req s\<rparr>"
  obtain ops1 where 1: "TracingMiddleware ?su pg_telemetry (HTTPMiddleware ?su pg_telemetry
      (RequestLogger (se_level e) ?su pg_telemetry h)) q s = (ops1, t)" "status_of ops = status_of ops1"
    using assms by (auto simp: h CorrelationMiddleware_def Let_def q_def split: prod.splits)
  obtain s1 where 2: "HTTPMiddleware ?su pg_telemetry (RequestLogger (se_level e) ?su pg_telemetry h) q s = (ops1, s1)"
    "log_lines (pg.more t) = log_lines (pg.more s1)" "httpDuration (pg.more t) = httpDuration (pg.more s1)"
    "last (spans (pg.more t)) = request_span q (status_of ops1)"
    using 1(1) by (rule tracing_records)
  obtain s2 s3 d where 3: "RequestLogger (se_level e) ?su pg_telemetry h q s2 = (ops1, s3)"
    "log_lines (pg.more s1) = log_lines (pg.more s3)" "last (httpDuration (pg.more s1)) =
      ((hr_Method q, if hr_Pattern q \<noteq> [] then hr_Pattern q else ''unmatched'', append_int 1 (status_of ops1)), d)"
    using 2(1) by (rule http_records)
  show ?thesis
    using logger_records [OF 3(1)] 2(2-4) 3(2,3) span_status [of q "status_of ops1"] unfolding 1(2)
    by (simp add: q_def)
qed

section \<open>The correlation id of a request\<close>

text \<open>Writes that leave the header \<open>h\<close> alone.\<close>

definition sets_header :: "string \<Rightarrow> write_op list \<Rightarrow> bool" where
  "sets_header h ops \<longleftrightarrow> list_ex (\<lambda>op. case op of SetHeader k v \<Rightarrow> k = h | _ \<Rightarrow> False) ops"

lemma sets_header_simps [simp]:
  "\<not> sets_header h []" "sets_header h (SetHeader k v # ops) \<longleftrightarrow> k = h \<or> sets_header h ops"
  "sets_header h (WriteHeader c # ops) = sets_header h ops" "sets_header h (WriteBody b # ops) = sets_header h ops"
  by (simp_all add: sets_header_def)

lemma kept_header:
  assumes "map_of (rsp_Header r) h = Some v" "\<not> sets_header h ops"
    and "case rsp_Sent r of None \<Rightarrow> True | Some (hs, c) \<Rightarrow> map_of hs h = Some v"
  shows "map_of (fst (the (rsp_Sent (send_status 200 (fold perform ops r))))) h = Some v"
  using assms
proof (induction ops arbitrary: r)
  case Nil
  then show ?case by (cases "rsp_Sent r") (auto simp: send_status_def)
next
  case (Cons op' ops)
  have "map_of (rsp_Header (perform op' r)) h = Some v" "\<not> sets_header h ops"
    "case rsp_Sent (perform op' r) of None \<Rightarrow> True | Some (hs, c) \<Rightarrow> map_of hs h = Some v"
    using Cons.prems
    by (cases op'; cases "rsp_Sent r"; auto simp: send_status_def update_conv' sets_header_def)+
  then show ?case using Cons.IH by simp
qed

lemma header_of_first: "\<not> sets_header h ops \<Longrightarrow> header_of (SetHeader h v # ops) h = Some v"
  unfolding header_of_def respond_def
  by (simp del: perform.simps) (rule kept_header, simp_all add: empty_response_def)

lemma json_sets_header: "sets_header h (writeJSON c v) \<longleftrightarrow> h = ''Content-Type''"
  by (auto simp: writeJSON_def)

lemma answers_set_header:
  assumes "h \<noteq> ''Content-Type''"
  shows "\<not> sets_header h (writeError c code msg cs ds)" "\<not> sets_header h (writeValidationError msg ds)"
    "h \<noteq> ''Retry-After'' \<Longrightarrow> \<not> sets_header h (writeDomainError err)"
  using assms by (auto simp: writeDomainError_def writeValidationError_def writeError_def json_sets_header split: option.split)

lemma endpoint_sets_header:
  assumes "h \<noteq> ''Content-Type''" "h \<noteq> ''Retry-After''" "h \<noteq> ''Location''"
    and "\<And>name x req s. rc_extraRoutes cfg name = Some x \<Longrightarrow> \<not> sets_header h (fst (x req s))"
  shows "\<not> sets_header h (fst (endpoint rt svc cfg r req s))"
  using assms(4) answers_set_header [OF assms(1)] assms(1-3)
  by (auto simp: endpoint_def healthz_def readyz_def notFound_def methodNotAllowed_def availability_def createAppointment_def
      getAppointment_def json_sets_header Let_def split: route.split option.split sum.split prod.split)

lemma server_router_endpoint:
  obtains h where "server_router e r = CorrelationMiddleware (se_surroundings e) (TracingMiddleware (se_surroundings e) pg_telemetry
      (HTTPMiddleware (se_surroundings e) pg_telemetry (RequestLogger (se_level e) (se_surroundings e) pg_telemetry h)))"
    "\<And>req s. (\<And>m. \<not> sets_header CorrelationHeader (se_metrics_page e m)) \<Longrightarrow> \<not> sets_header CorrelationHeader (fst (h req s))"
proof -
  let ?cfg = "\<lparr>rc_middlewares = [CorrelationMiddleware (se_surroundings e), TracingMiddleware (se_surroundings e) pg_telemetry,
        HTTPMiddleware (se_surroundings e) pg_telemetry, RequestLogger (se_level e) (se_surroundings e) pg_telemetry],
      rc_extraRoutes = (\<lambda>name. if name = ''/metrics'' then Some (\<lambda>req s. (se_metrics_page e (pg.more s), s)) else None),
      rc_ready = Some (pool_Ping (se_pg e))\<rparr>"
  let ?h = "endpoint (se_http e) (server_service e) ?cfg r"
  show ?thesis
  proof (rule that [of ?h])
    show "server_router e r = CorrelationMiddleware (se_surroundings e) (TracingMiddleware (se_surroundings e) pg_telemetry
      (HTTPMiddleware (se_surroundings e) pg_telemetry (RequestLogger (se_level e) (se_surroundings e) pg_telemetry ?h)))"
      by (rule ext, rule ext) (simp add: server_router_def NewRouter_def Let_def server_options_def WithMiddleware_def
        WithRoutes_def WithReadiness_def)
    show "\<not> sets_header CorrelationHeader (fst (?h req s))"
      if "\<And>m. \<not> sets_header CorrelationHeader (se_metrics_page e m)" for req s
      by (rule endpoint_sets_header) (use that in \<open>auto simp: CorrelationHeader_def split: if_splits\<close>)
  qed
qed

text \<open>The id in the context of a request reaches its span and its log line.\<close>

lemma span_correlation:
  "hr_CorrelationID req \<noteq> [] \<Longrightarrow> map_of (sp_Attrs (request_span req st)) ''correlation_id'' = Some (hr_CorrelationID req)"
  by (simp add: request_span_def)

lemma logger_correlation:
  assumes "RequestLogger lvl su pg_telemetry h req s = (ops, t)" "hr_CorrelationID req \<noteq> []"
  shows "ops = fst (h req s) \<and> (lvl \<le> levelFor (status_of ops) \<longrightarrow>
    map_of (lr_Attrs (last (log_lines (pg.more t)))) ''correlation_id'' = Some (hr_CorrelationID req))"
proof -
  obtain ops1 s1 where 1: "h req s = (ops1, s1)" by fastforce
  have "map_of (lr_Attrs (stamp_record (hr_CorrelationID req) sp (request_record req sw))) ''correlation_id'' =
      Some (hr_CorrelationID req)" for sp sw
    using assms(2) by (auto simp: stamp_record_def request_record_def Let_def split: option.split)
  moreover have "lr_Level (stamp_record c sp (request_record req sw)) = levelFor (sw_status sw)" for c sp sw
    by (rule stamped_status)
  ultimately show ?thesis
    using assms(1) 1 by (auto simp: RequestLogger_def Let_def tl_modify_def pg_telemetry_def observed_status_sent)
qed

lemma router_correlation:
  assumes "server_router e r req s = (ops, t)" "\<And>m. \<not> sets_header CorrelationHeader (se_metrics_page e m)"
    and id: "ident = correlation_id (se_surroundings e) req s" "ident \<noteq> []"
  shows "header_of ops CorrelationHeader = Some ident \<and>
    map_of (sp_Attrs (last (spans (pg.more t)))) ''correlation_id'' = Some ident \<and>
    (se_level e \<le> levelFor (status_of ops) \<longrightarrow>
      map_of (lr_Attrs (last (log_lines (pg.more t)))) ''correlation_id'' = Some ident)"
proof -
  let ?su = "se_surroundings e"
  obtain h where h: "server_router e r = CorrelationMiddleware ?su (TracingMiddleware ?su pg_telemetry
      (HTTPMiddleware ?su pg_telemetry (RequestLogger (se_level e) ?su pg_telemetry h)))"
    and quiet: "\<And>req s. \<not> sets_header CorrelationHeader (fst (h req s))"
    by (rule server_router_endpoint) (use assms(2) in blast)
  define q where "q = req\<lparr>hr_CorrelationID := ident\<rparr>"
  obtain ops1 where 1: "TracingMiddleware ?su pg_telemetry (HTTPMiddleware ?su pg_telemetry
      (RequestLogger (se_level e) ?su pg_telemetry h)) q s = (ops1, t)" "ops = SetHeader CorrelationHeader ident # ops1"
    using assms(1) by (auto simp: h CorrelationMiddleware_def Let_def q_def id split: prod.splits)
  obtain s1 where 2: "HTTPMiddleware ?su pg_telemetry (RequestLogger (se_level e) ?su pg_telemetry h) q s = (ops1, s1)"
    "log_lines (pg.more t) = log_lines (pg.more s1)" "last (spans (pg.more t)) = request_span q (status_of ops1)"
    using 1(1) by (rule tracing_records)
  obtain s2 s3 where 3: "RequestLogger (se_level e) ?su pg_telemetry h q s2 = (ops1, s3)"
    "log_lines (pg.more s1) = log_lines (pg.more s3)"
    using 2(1) by (rule http_records)
  have q: "hr_CorrelationID q = ident" "hr_CorrelationID q \<noteq> []" using id(2) by (simp_all add: q_def)
  note l = logger_correlation [OF 3(1) q(2)]
  have "\<not> sets_header CorrelationHeader ops1" using l quiet by metis
  then show ?thesis
    using l header_of_first [of CorrelationHeader ops1 ident] span_correlation [OF q(2)] 2(2,3) 3(2)
    by (simp add: 1(2) q(1))
qed

section \<open>From an offered slot to a booking\<close>

lemma availability_answer:
  assumes "availability svc req s = (ops, t)" "body_of ops = [availability_json a]"
  obtains ar where "availability_accepted req" "svc_Availability svc (availability_query_of req) s = (Inr ar, t)"
    "avr_AvailableSlots a = map formatTime (ar_Slots ar)"
proof -
  have no_error: "body_of (writeError c code msg cs ds) \<noteq> [availability_json a]" for c code msg cs ds
    by (simp add: wire_simps error_json_def availability_json_def)
  then have "body_of (writeDomainError err) \<noteq> [availability_json a]" for err
    unfolding writeDomainError_def writeError_def
    by (auto simp: wire_simps error_json_def availability_json_def split: option.split)
  moreover have "availability_json (toAvailabilityResponse ar) = availability_json a \<Longrightarrow>
      avr_AvailableSlots a = map formatTime (ar_Slots ar)" for ar
    using inj_map_eq_map [of JStr "avr_AvailableSlots a" "map formatTime (ar_Slots ar)"]
    by (auto simp: availability_json_def toAvailabilityResponse_def inj_def)
  ultimately show ?thesis
    using assms no_error that
    by (auto simp: availability_def Let_def writeValidationError_def availability_details_Nil wire_simps
        split: if_splits prod.splits sum.splits)
qed

lemma granularity_seconds: "DefaultSlotGranularity mod second = 0"
  by (simp add: DefaultSlotGranularity_def minute_def second_def)

text \<open>The text of an offered slot parses to its instant.\<close>

lemma slot_text_parses:
  assumes "steady_day loc off (epoch_day date)" "wire_date date" "whole_offset off"
    and w: "Window hours date loc = Some w" and "\<forall>wd oh. hours wd = Some oh \<longrightarrow> within_day_hours oh"
    and slot: "slot \<in> set (AvailableSlots w st sched now g pol)" and g: "g mod second = 0"
  obtains u where "parse_rfc3339 local_loc (formatTime slot) = Some u" "t_ns u = t_ns slot"
proof -
  obtain oh where oh: "hours (date_weekday date) = Some oh" "within_day_hours oh"
    using w assms(5) by (auto simp: Window_def split: option.splits)
  have valid: "valid_date date" using assms(2) by (simp add: wire_date_def)
  note b = AvailableSlots_bookable [OF slot]
  have in_day: "t_ns (iv_start (Bounds date loc)) \<le> t_ns slot" "t_ns slot < t_ns (iv_end (Bounds date loc))"
    using b oh(2) Window_steady [OF assms(1) w oh] Bounds_steady [OF assms(1)]
    by (auto simp: bookable_def within_day_hours_def minute_def)
  obtain k where k: "slot = add_duration (w_Open w) (int k * g)"
    using slot by (auto simp: AvailableSlots_set split: if_splits)
  have op: "w_Open w = go_date (d_Year date) (d_Month date) (d_Day date) 0 (OpensAt oh) 0 0 loc"
    using w oh(1) by (auto simp: Window_def)
  have loc: "t_loc slot = loc" by (simp add: k op)
  then have same: "in_loc slot loc = slot" by (simp add: in_loc_def)
  have "t_ns slot mod second = 0"
  proof -
    have "t_ns (w_Open w) mod second = 0" by (simp add: op go_date_def)
    moreover have "int k * g mod second = 0" using g by (metis mod_mult_right_eq mult_zero_right mod_0)
    ultimately show ?thesis by (simp add: k mod_add_eq [symmetric] del: mod_add_eq)
  qed
  then have whole: "unix_sec slot * second = t_ns slot"
    using mult_div_mod_eq [of second "t_ns slot"] by (simp add: unix_sec_def mult.commute)
  obtain y m d where c: "civil_of_time slot = (y, m, d)" by (metis prod.exhaust)
  have "date_of_civil (civil_of_time slot) = date"
    using DateOf_in_Bounds [OF assms(1) valid in_day] by (simp add: DateOf_def same)
  then have y: "0 \<le> y" "y \<le> 9999" using assms(2) by (auto simp: c date_of_civil_def wire_date_def)
  have "offset_at (t_loc slot) (unix_sec slot) = off"
    using in_Bounds_second(3) [OF assms(1) in_day] by (simp add: loc)
  then show ?thesis
    using parse_format_instant [OF c y, of local_loc] assms(3) whole that by (auto simp: formatTime_def)
qed

text \<open>A request for a booking with the identifiers of a query, in any case, and one of the answered times.\<close>

definition books_answer :: "createAppointmentRequest \<Rightarrow> http_request \<Rightarrow> availability_response \<Rightarrow> bool" where
  "books_answer b req a \<longleftrightarrow>
     same_letters (cr_DealershipID b) (get_first (hr_Query req) ''dealershipId'') \<and>
     same_letters (cr_VehicleID b) (get_first (hr_Query req) ''vehicleId'') \<and>
     same_letters (cr_ServiceTypeID b) (get_first (hr_Query req) ''serviceTypeId'') \<and>
     cr_StartTime b \<in> set (avr_AvailableSlots a)"

lemma answered_slot_is_created:
  assumes env: "quiet (se_pg e)" "env_ok (se_pg e)" "microsecond_times (se_pg e)" and s: "store_ready (se_pg e) s"
    and get: "availability (server_service e) req s = (ops, t)" "body_of ops = [availability_json a]"
    and post: "decodeJSON (hrt_scan (se_http e)) (hr_Body post) = Inr b" "request_key post = []" "books_answer b req a"
    and zone: "zone_of (se_pg e) (book_request_of (se_http e) b []) loc (pg_db s)"
      "writers_lock_day (se_pg e) (book_request_of (se_http e) b []) loc (pg_db s)"
    and date: "ParseDate (get_first (hr_Query req) ''date'') = Inr date" "steady_day loc off (epoch_day date)"
      "whole_offset off"
    and clock: "\<And>u. t_ns (rt_Now (se_runtime e) u) \<le> t_ns (start_time (se_http e) b)"
  shows "\<exists>ops' u. createAppointment (se_http e) (server_service e) post t = (ops', u) \<and> status_of ops' = 201"
proof -
  let ?sch = "server_scheduler (se_pg e) (se_runtime e)" and ?aq = "availability_query_of req"
    and ?rq = "book_request_of (se_http e) b []"
  obtain ar where ar: "availability_accepted req" "Availability ?sch ?aq s = (Inr ar, t)"
    "avr_AvailableSlots a = map formatTime (ar_Slots ar)"
    using availability_answer [OF get] by auto
  have l: "same_letters (cr_DealershipID b) (get_first (hr_Query req) ''dealershipId'')"
    "same_letters (cr_VehicleID b) (get_first (hr_Query req) ''vehicleId'')"
    "same_letters (cr_ServiceTypeID b) (get_first (hr_Query req) ''serviceTypeId'')"
    and st: "cr_StartTime b \<in> set (avr_AvailableSlots a)" using post(3) by (simp_all add: books_answer_def)
  have ids: "rq_DealershipID ?rq = aq_DealershipID ?aq" "rq_VehicleID ?rq = aq_VehicleID ?aq"
    "rq_ServiceTypeID ?rq = aq_ServiceTypeID ?aq" "rq_IdempotencyKey ?rq = []" "aq_Date ?aq = get_first (hr_Query req) ''date''"
    using l by (simp_all add: book_request_of_def availability_query_of_def Let_def same_letters_def to_lower_def)
  have uuids: "uuidRe (cr_DealershipID b)" "uuidRe (cr_VehicleID b)" "uuidRe (cr_ServiceTypeID b)"
    using ar(1) same_letters_uuid [OF l(1)] same_letters_uuid [OF l(2)] same_letters_uuid [OF l(3)]
    by (simp_all add: availability_accepted_def)
  obtain slot where slot: "slot \<in> set (ar_Slots ar)" "cr_StartTime b = formatTime slot" using st ar(3) by auto
  have pd: "ParseDate (aq_Date ?aq) = Inr date" using date(1) ids(5) by simp
  obtain d s1 sty s2 v c s3 w sched where av: "dealership (se_pg e) (rq_DealershipID ?rq) s = (Inr d, s1)"
    "serviceType (se_pg e) (rq_ServiceTypeID ?rq) s1 = (Inr sty, s2)"
    "vehicleWithOwner (se_pg e) (rq_DealershipID ?rq) (rq_VehicleID ?rq) s2 = (Inr (v, c), s3)"
    "Window (dl_Hours d) date (dl_Location d) = Some w"
    "slot \<in> set (AvailableSlots w sty sched (sch_now ?sch t) DefaultSlotGranularity LeastLoaded)"
    by (rule Availability_slot [OF ar(2) slot(1)]) (use pd ids(1-3) in auto)
  note found = lookups_found [OF s zone(1) av(1-3)]
  have wire: "wire_date date" using date(1) by (simp add: ParseDate_iff)
  obtain start where start: "parse_rfc3339 (hrt_Local (se_http e)) (cr_StartTime b) = Some start" "t_ns start = t_ns slot"
    unfolding slot(2)
    by (rule slot_text_parses [OF date(2) wire date(3) av(4) [unfolded found(4)] found(5) av(5) granularity_seconds])
  have t: "t_ns (rq_StartTime ?rq) = t_ns slot"
    using start start_time_parsed [OF start(1)] by (simp add: book_request_of_def)
  have canon: "canonical (aq_VehicleID ?aq)"
    using uuids(2) unfolding ids(2) [symmetric] by (simp add: canonical_def book_request_of_def uuidRe_def)
  have now: "t_ns (sch_now ?sch u) \<le> t_ns (rq_StartTime ?rq)" for u using clock by (simp add: book_request_of_def)
  obtain appt u where book: "Book (se_runtime e) ?sch ?rq t = (Inr appt, u)"
    using offered_slot_books [OF env s zone, where aq = ?aq and date = date and off = off and sch = ?sch and ar = ar
        and t = t and slot = slot and rt = "se_runtime e"] date(1,2) canon ids t slot(1) ar(2) now
      beside_Metrics least_loaded.policy_contract_axioms by auto
  have "accepted_booking (se_http e) post = Some ?rq"
    using post(1,2) uuids start by (simp add: accepted_booking_def book_request_of_def start_time_parsed)
  then show ?thesis
    using createAppointment_accepted [of "se_http e" post ?rq "server_service e" t] book by (simp add: wire_simps)
qed

section \<open>Properties\<close>

text \<open>C1: whatever requests the server answers, in whatever order, and whatever other sessions and failures do
  meanwhile, no two CONFIRMED appointments share a bay, a technician or a vehicle at one time, and
  every appointment satisfies the checks and foreign keys.\<close>

theorem server_keeps_constraints:
  assumes "session_ok s" "serve_all (server_router e) rs s = (opss, t)"
  shows "(\<forall>i j. i < j \<longrightarrow> j < length (db_appointments (pg_db t)) \<longrightarrow>
      \<not> double_booked (db_appointments (pg_db t) ! i) (db_appointments (pg_db t) ! j)) \<and>
    (\<forall>r \<in> set (db_appointments (pg_db t)). row_start r < row_end r \<and> foreign_key_violation (pg_db t) r = None)"
proof -
  have "session_steps (se_pg e) s t" using requests_steps [of e s rs] assms(2) by simp
  then have "ok_kept s t" by (rule ok.session_steps_R)
  then have "db_ok (pg_db t)" using assms(1) by (simp add: ok_kept_def session_ok_def)
  then show ?thesis by (auto simp: db_ok_def no_double_booking_def sorted_wrt_iff_nth_less row_ok_def)
qed

text \<open>C7: whatever requests the server answers and whatever other sessions and failures do, what happens to
  the appointments is a run of the calendar: reservations are entered under fresh identifiers and only
  when they clash with no held one, released for good, never moved; and no two held reservations clash.\<close>

theorem server_refines_calendar:
  assumes "session_ok s" "serve_all (server_router e) rs s = (opss, t)"
  shows "calendar_steps (calendar_of (pg_db s)) (calendar_of (pg_db t)) \<and> free_of_clashes (calendar_of (pg_db t))"
proof -
  have "session_steps (se_pg e) s t" using requests_steps [of e s rs] assms(2) by simp
  then have "simulated s t" by (rule calendar.session_steps_R)
  then show ?thesis using assms(1) by (simp add: simulated_def session_ok_def calendar_of_free)
qed

text \<open>C31: after any requests the bookings attempted are those confirmed and those rejected under some reason,
  each with one observation of its latency, and no request is counted as still being served.\<close>

theorem server_metrics_balance:
  assumes "pg.more s = NewMetrics" "serve_all (server_router e) rs s = (opss, t)"
  shows "attempted (pg.more t) = confirmed (pg.more t) + rejections (pg.more t) \<and>
    length (bookingDuration (pg.more t)) = attempted (pg.more t) \<and> httpInFlight (pg.more t) = 0"
  using requests_metrics [of s e rs] assms
  by (simp add: metrics_kept_def NewMetrics_def balanced_def rejections_def)

text \<open>C32: every booking is counted once: one attempt, one observation of its latency and either one
  confirmation or one rejection under the code of its error, INTERNAL\<^verbatim>\<open>_\<close>ERROR when it has none.\<close>

theorem booking_counted_once:
  assumes "sch_repo sch = Repository env" "sch_metrics sch = Metrics" "balanced (pg.more s)"
    and "Book rt sch req s = (res, t)"
  shows "balanced (pg.more t) \<and> attempted (pg.more t) = Suc (attempted (pg.more s)) \<and>
    (case res of
       Inr a \<Rightarrow> confirmed (pg.more t) = Suc (confirmed (pg.more s)) \<and> rejected (pg.more t) = rejected (pg.more s)
     | Inl e \<Rightarrow> confirmed (pg.more t) = confirmed (pg.more s) \<and>
         rejected (pg.more t) = inc_label (if CodeOf e = no_code then ''INTERNAL_ERROR'' else code_text (CodeOf e))
           (rejected (pg.more s)))"
proof -
  obtain d where m: "pg.more t = booking_finished (result_error res) d (booking_started (pg.more s))"
    by (rule Book_metrics [OF assms(1,2,4)])
  show ?thesis
    using booking_counted_balanced [OF assms(3)]
    by (auto simp: m result_error_def booking_finished_def booking_started_def Let_def split: sum.splits)
qed

text \<open>A query and the reading of an appointment add no appointment and no idempotency record.\<close>

lemma reads_add_nothing:
  assumes "foreign_script (se_pg e)" "keyless_script (se_pg e)" "session_ok s"
  shows "(case availability (server_service e) req s of (ops, t) \<Rightarrow>
      adds_nothing (se_pg e) s t \<and> db_keys (pg_db t) = db_keys (pg_db s)) \<and>
    (case getAppointment (server_service e) i req s of (ops, t) \<Rightarrow>
      adds_nothing (se_pg e) s t \<and> db_keys (pg_db t) = db_keys (pg_db s))"
proof -
  have k: "adds_nothing (se_pg e) s t \<and> db_keys (pg_db t) = db_keys (pg_db s)" if "tx_steps (se_pg e) s t" for t
    using generated_steps [OF assms(1) that] keys_steps [OF assms(2) that] by (simp add: adds_nothing_def)
  have s: "tx_steps (se_pg e) s s" by simp
  show ?thesis
    using k [OF s] k [OF Availability_steps] k [OF GetAppointment_steps]
    by (auto simp: availability_def getAppointment_def Let_def split: prod.splits sum.splits; metis server_scheduler_sel(1) snd_conv)
qed

text \<open>C38: whatever a request is answered, the HTTP metrics, the span and, when its level is logged, the request
  log record the status that is sent; the span is an error exactly for a server error.\<close>

theorem recorded_status_is_sent:
  assumes "server_router e r req s = (ops, t)"
  shows "(\<exists>d. last (httpDuration (pg.more t)) =
      ((hr_Method req, if hr_Pattern req \<noteq> [] then hr_Pattern req else ''unmatched'', append_int 1 (status_of ops)), d)) \<and>
    map_of (sp_Attrs (last (spans (pg.more t)))) ''http.response.status_code'' = Some (append_int 1 (status_of ops)) \<and>
    (sp_Error (last (spans (pg.more t))) \<noteq> None \<longleftrightarrow> 500 \<le> status_of ops) \<and>
    (se_level e \<le> levelFor (status_of ops) \<longrightarrow> lr_Level (last (log_lines (pg.more t))) = levelFor (status_of ops) \<and>
      map_of (lr_Attrs (last (log_lines (pg.more t)))) ''status'' = Some (append_int 1 (status_of ops)))"
  by (rule router_records [OF assms])

text \<open>C39: every request, matched or not, is answered with a correlation id of 1 to 128 letters, digits, dots,
  underscores, colons or dashes: the client's \<^verbatim>\<open>X-Correlation-ID\<close> when it is one, a fresh one otherwise. The
  response header, the span and, when its level is logged, the request log carry this same id.\<close>

theorem correlation_id_well_formed:
  assumes "\<And>bs. su_random (se_surroundings e) s = Some bs \<Longrightarrow> length bs = 16"
    and "civil_of_time (in_loc (su_Now (se_surroundings e) s) UTC) = (y, m, d)" "0 \<le> y" "y \<le> 9999"
    and "\<And>p. \<not> sets_header CorrelationHeader (se_metrics_page e p)"
    and "server_router e r req s = (ops, t)"
  shows "\<exists>ident. correlationIDRe ident \<and>
    (correlationIDRe (get_first (hr_Header req) CorrelationHeader) \<longrightarrow>
       ident = get_first (hr_Header req) CorrelationHeader) \<and>
    header_of ops CorrelationHeader = Some ident \<and>
    map_of (sp_Attrs (last (spans (pg.more t)))) ''correlation_id'' = Some ident \<and>
    (se_level e \<le> levelFor (status_of ops) \<longrightarrow>
      map_of (lr_Attrs (last (log_lines (pg.more t)))) ''correlation_id'' = Some ident)"
proof -
  note f = correlation_id_formed [OF assms(1-4), of req]
  have "correlation_id (se_surroundings e) req s \<noteq> []" using f by (auto simp: correlationIDRe_def)
  then show ?thesis using f router_correlation [OF assms(6,5) refl] by blast
qed

text \<open>C6: with no other activity and no failure in between, a time listed in the answer to an availability
  query can be booked: a POST with the identifiers of the query, in any case, and that time as its
  start, without an idempotency key and sent before that time, is answered 201 (AC-22). The zone keeps one
  offset of whole minutes around the day, and no stored appointment of the dealership reaches into the
  day from before it (INV-6).\<close>

theorem answered_slot_is_created_over_http:
  assumes "quiet (se_pg e)" "env_ok (se_pg e)" "microsecond_times (se_pg e)" "store_ready (se_pg e) s"
    and "availability (server_service e) req s = (ops, t)" "body_of ops = [availability_json a]"
    and "decodeJSON (hrt_scan (se_http e)) (hr_Body post) = Inr b" "request_key post = []" "books_answer b req a"
    and "zone_of (se_pg e) (book_request_of (se_http e) b []) loc (pg_db s)"
    and "writers_lock_day (se_pg e) (book_request_of (se_http e) b []) loc (pg_db s)"
    and "ParseDate (get_first (hr_Query req) ''date'') = Inr date" "steady_day loc off (epoch_day date)"
    and "whole_offset off" "\<And>u. t_ns (rt_Now (se_runtime e) u) \<le> t_ns (start_time (se_http e) b)"
  shows "\<exists>ops' u. createAppointment (se_http e) (server_service e) post t = (ops', u) \<and> status_of ops' = 201"
  by (rule answered_slot_is_created [OF assms])

section \<open>A sample server\<close>

definition sample_body :: json where
  "sample_body = JObj [(''dealershipId'', JStr (sample_id (CHR ''d''))), (''vehicleId'', JStr (sample_id (CHR ''8''))),
     (''serviceTypeId'', JStr (sample_id (CHR ''5''))), (''startTime'', JStr (formatTime sample_start))]"

definition sample_server :: server_env where
  "sample_server = \<lparr>se_pg = sample_env, se_runtime = \<lparr>rt_Now = (\<lambda>s. sample_now), rt_sha256_hex = (\<lambda>s. s)\<rparr>,
     se_http = \<lparr>hrt_scan = (\<lambda>b. ScanValue sample_body []), hrt_Local = UTC\<rparr>,
     se_surroundings = \<lparr>su_random = (\<lambda>s. Some (replicate 16 171)), su_Now = (\<lambda>s. sample_now), su_size = (\<lambda>v. 2),
       su_span = (\<lambda>s. None)\<rparr>,
     se_level = 0, se_metrics_page = (\<lambda>m. [])\<rparr>"

definition sample_store :: "telemetry pg_scheme" where
  "sample_store = \<lparr>pg_db = sample_db, pg_own_rows = [], pg_own_keys = Map.empty, pg_locks = {}, pg_open = False,
     pg_aborted = False, pg_tick = 0, \<dots> = NewMetrics\<rparr>"

definition sample_get :: http_request where
  "sample_get = plain_request\<lparr>hr_Query := [(''dealershipId'', sample_id (CHR ''d'')),
     (''serviceTypeId'', sample_id (CHR ''5'')), (''date'', ''2030-03-04''), (''vehicleId'', sample_id (CHR ''8''))]\<rparr>"

lemma sample_store_sel [simp]:
  "pg_db sample_store = sample_db" "pg_aborted sample_store = False" "pg.more sample_store = NewMetrics"
  "pg_own_rows sample_store = []"
  by (simp_all add: sample_store_def)

lemma sample_server_sel [simp]:
  "se_pg sample_server = sample_env" "rt_Now (se_runtime sample_server) s = sample_now"
  "hrt_scan (se_http sample_server) b = ScanValue sample_body []"
  by (simp_all add: sample_server_def)

lemma sample_store_ok: "session_ok sample_store" "idle sample_store" "store_ready sample_env sample_store"
proof -
  show s: "session_ok sample_store" using sample_session(1)
    by (simp add: session_ok_def view_def sample_store_def sample_pg_def)
  show i: "idle sample_store" by (simp add: idle_def sample_store_def)
  show "store_ready sample_env sample_store" by (rule sample_ready [OF _ s i]) (simp_all add: same_catalogue_iff sample_db_def)
qed

theorem server_keeps_constraints_witness:
  "\<exists>opss t. serve_all (server_router sample_server) [(RouteCreateAppointment, plain_request), (RouteAvailability, sample_get)]
      sample_store = (opss, t) \<and> (\<forall>r \<in> set (db_appointments (pg_db t)). row_start r < row_end r)"
proof -
  obtain opss t where t: "serve_all (server_router sample_server)
      [(RouteCreateAppointment, plain_request), (RouteAvailability, sample_get)] sample_store = (opss, t)" by fastforce
  then show ?thesis using server_keeps_constraints [OF sample_store_ok(1) t] by blast
qed

theorem recorded_status_is_sent_witness:
  "\<exists>ops t. server_router sample_server RouteNotFound plain_request sample_store = (ops, t) \<and>
    map_of (sp_Attrs (last (spans (pg.more t)))) ''http.response.status_code'' = Some (append_int 1 (status_of ops))"
proof -
  obtain ops t where t: "server_router sample_server RouteNotFound plain_request sample_store = (ops, t)" by fastforce
  show ?thesis using recorded_status_is_sent [OF t] t by blast
qed

theorem correlation_id_well_formed_witness:
  "\<exists>ops t. server_router sample_server RouteNotFound
      (plain_request\<lparr>hr_Header := [(CorrelationHeader, ''trace-42'')]\<rparr>) sample_store = (ops, t) \<and>
    header_of ops CorrelationHeader = Some ''trace-42'' \<and>
    map_of (sp_Attrs (last (spans (pg.more t)))) ''correlation_id'' = Some ''trace-42''"
proof -
  let ?req = "plain_request\<lparr>hr_Header := [(CorrelationHeader, ''trace-42'')]\<rparr>"
  obtain ops t where t: "server_router sample_server RouteNotFound ?req sample_store = (ops, t)" by fastforce
  have u: "civil_of_time (in_loc (su_Now (se_surroundings sample_server) sample_store) UTC) = (2030, 3, 4)"
    by code_simp
  have c: "get_first (hr_Header ?req) CorrelationHeader = ''trace-42''" by (simp add: get_first_def)
  have w: "correlationIDRe ''trace-42''" by code_simp
  have m: "\<not> sets_header CorrelationHeader (se_metrics_page sample_server p)" for p by (simp add: sample_server_def)
  show ?thesis
    using correlation_id_well_formed [OF _ u _ _ m t] t w unfolding c by (auto simp: sample_server_def)
qed

theorem server_refines_calendar_witness:
  "\<exists>opss t. serve_all (server_router sample_server) [(RouteCreateAppointment, plain_request)] sample_store = (opss, t) \<and>
    calendar_steps (calendar_of sample_db) (calendar_of (pg_db t))"
proof -
  obtain opss t where t: "serve_all (server_router sample_server) [(RouteCreateAppointment, plain_request)] sample_store
    = (opss, t)" by fastforce
  then show ?thesis using server_refines_calendar [OF sample_store_ok(1) t] by auto
qed

theorem server_metrics_balance_witness:
  "\<exists>opss t. serve_all (server_router sample_server) [(RouteCreateAppointment, plain_request)] sample_store = (opss, t) \<and>
    attempted (pg.more t) = confirmed (pg.more t) + rejections (pg.more t)"
proof -
  obtain opss t where t: "serve_all (server_router sample_server) [(RouteCreateAppointment, plain_request)] sample_store
    = (opss, t)" by fastforce
  then show ?thesis using server_metrics_balance [OF sample_store_sel(3) t] by blast
qed

theorem booking_counted_once_witness:
  "\<exists>res t. Book (se_runtime sample_server) (server_scheduler sample_env (se_runtime sample_server)) (sample_request [])
      sample_store = (res, t) \<and> attempted (pg.more t) = 1"
proof -
  obtain res t where b: "Book (se_runtime sample_server) (server_scheduler sample_env (se_runtime sample_server))
    (sample_request []) sample_store = (res, t)" by fastforce
  have "balanced (pg.more sample_store)" by (simp add: balanced_def NewMetrics_def rejections_def)
  then show ?thesis
    using booking_counted_once [OF server_scheduler_sel(1,2) _ b] b by (simp add: NewMetrics_def)
qed

lemma reads_add_nothing_witness:
  "case availability (server_service sample_server) sample_get sample_store of (ops, t) \<Rightarrow> adds_nothing sample_env sample_store t"
  using reads_add_nothing [of sample_server sample_store sample_get] sample_scripts(1,2) sample_store_ok(1)
  by (auto split: prod.splits)

lemma sample_get_params:
  "get_first (hr_Query sample_get) ''dealershipId'' = sample_id (CHR ''d'')"
  "get_first (hr_Query sample_get) ''serviceTypeId'' = sample_id (CHR ''5'')"
  "get_first (hr_Query sample_get) ''vehicleId'' = sample_id (CHR ''8'')"
  "get_first (hr_Query sample_get) ''date'' = ''2030-03-04''"
  by (simp_all add: sample_get_def get_first_def)

lemma sample_get_accepted: "availability_accepted sample_get"
proof -
  have "dateRe ''2030-03-04''" by code_simp
  then show ?thesis by (simp add: availability_accepted_def sample_get_params uuidRe_def)
qed

lemma sample_get_answer:
  "\<exists>ar n. availability (server_service sample_server) sample_get sample_store =
      (writeJSON 200 (availability_json (toAvailabilityResponse ar)), tick n sample_store) \<and> sample_start \<in> set (ar_Slots ar)"
proof -
  have c: "same_catalogue (pg_db sample_store) sample_db" "db_appointments (pg_db sample_store) = []"
    by (simp_all add: same_catalogue_iff) (simp add: sample_db_def)
  have q: "availability_query_of sample_get = sample_question"
    by (simp add: availability_query_of_def sample_get_params sample_question_def)
  obtain ar n where ar: "Availability (server_scheduler sample_env (se_runtime sample_server)) sample_question sample_store =
      (Inr ar, tick n sample_store)" "sample_start \<in> set (ar_Slots ar)"
    using sample_slot c
    by (simp add: Availability_def sample_question_def sample_date_parses sample_dealership_found
        sample_service_found sample_vehicle_found sample_opening sample_day)
  show ?thesis
    by (intro exI [of _ ar] exI [of _ n])
      (use sample_get_accepted ar in \<open>simp add: availability_def availability_details_Nil q\<close>)
qed

lemma sample_body_start:
  assumes "cr_StartTime b = formatTime sample_start"
  shows "t_ns (start_time (se_http sample_server) b) = t_ns sample_start"
proof -
  have u: "unix_sec sample_start = 1898820000" by (simp add: unix_sec_def sample_times second_def)
  have l: "t_loc sample_start = ict" by (simp add: go_date_def)
  have o: "offset_at (t_loc sample_start) (unix_sec sample_start) = 25200"
    unfolding u l by (simp add: offset_at_def ict_def fixed_zone_def)
  then have "local_sec sample_start div day_seconds = 21977" by (simp add: local_sec_def u day_seconds_def)
  moreover have "civil_of_days 21977 = (2030, 3, 4)" by code_simp
  ultimately have c: "civil_of_time sample_start = (2030, 3, 4)" by (simp add: civil_of_time_def)
  have w: "whole_offset (offset_at (t_loc sample_start) (unix_sec sample_start))"
    unfolding o by (simp add: whole_offset_def day_seconds_def)
  obtain t where t: "parse_rfc3339 (hrt_Local (se_http sample_server)) (format_rfc3339 sample_start) = Some t"
      "t_ns t = unix_sec sample_start * second"
    by (rule parse_format_instant [OF c _ _ w, of "hrt_Local (se_http sample_server)"]) auto
  have "start_time (se_http sample_server) b = t"
    by (rule start_time_parsed) (use t(1) assms in \<open>simp add: formatTime_def\<close>)
  then show ?thesis using t(2) by (simp add: u sample_times second_def)
qed

theorem answered_slot_is_created_over_http_witness:
  "\<exists>ops t ops' u. availability (server_service sample_server) sample_get sample_store = (ops, t) \<and> status_of ops = 200 \<and>
    createAppointment (se_http sample_server) (server_service sample_server) plain_request t = (ops', u) \<and> status_of ops' = 201"
proof -
  obtain ar n where ar: "availability (server_service sample_server) sample_get sample_store =
      (writeJSON 200 (availability_json (toAvailabilityResponse ar)), tick n sample_store)" "sample_start \<in> set (ar_Slots ar)"
    using sample_get_answer by blast
  let ?b = "\<lparr>cr_DealershipID = sample_id (CHR ''d''), cr_VehicleID = sample_id (CHR ''8''),
     cr_ServiceTypeID = sample_id (CHR ''5''), cr_StartTime = formatTime sample_start\<rparr>"
  have f: "field_of_key ''dealershipId'' = Some FieldDealership" "field_of_key ''vehicleId'' = Some FieldVehicle"
    "field_of_key ''serviceTypeId'' = Some FieldServiceType" "field_of_key ''startTime'' = Some FieldStartTime"
    by code_simp+
  have b: "decodeJSON (hrt_scan (se_http sample_server)) (hr_Body plain_request) = Inr ?b"
    by (simp add: decodeJSON_def scan_body_def plain_request_def sample_body_def f empty_request_def more_follows_def)
  have books: "books_answer ?b sample_get (toAvailabilityResponse ar)"
    using ar(2) by (simp add: books_answer_def same_letters_def sample_get_params toAvailabilityResponse_def)
  have key: "request_key plain_request = []" by (simp add: request_key_def plain_request_def get_first_def)
  have start: "t_ns (start_time (se_http sample_server) ?b) = t_ns sample_start"
    by (rule sample_body_start) simp
  have lock: "writers_lock_day (se_pg sample_server) (book_request_of (se_http sample_server) ?b []) ict (pg_db sample_store)"
    by (simp add: writers_lock_day_def Let_def day_protocol_def sample_no_events orderly_db_def) (simp add: sample_db_def)
  have now: "t_ns (rt_Now (se_runtime sample_server) u) \<le> t_ns (start_time (se_http sample_server) ?b)" for u
    using start by simp
  have "\<exists>ops' u. createAppointment (se_http sample_server) (server_service sample_server) plain_request (tick n sample_store)
      = (ops', u) \<and> status_of ops' = 201"
    by (rule answered_slot_is_created_over_http [OF _ _ _ _ ar(1) _ b key books _ lock _ sample_steady _ now])
      (simp_all add: wire_simps sample_env_ok sample_microseconds sample_store_ok zone_of_def sample_get_params
        sample_date_parses whole_offset_def day_seconds_def)
  then show ?thesis using ar(1) by (auto simp: wire_simps)
qed

end
