(* ===== verification/Effort.thy ===== *)
theory Effort
  imports Schedule
begin

text \<open>
  How much work a booking can cause: the statements of a session are counted by its clock, and the retry
  budget of ADR-0001 bounds them by the resources of the catalogue, whatever other sessions do.
\<close>

section \<open>Statements of the repository operations\<close>

definition spent :: "nat \<Rightarrow> 'm pg_scheme \<Rightarrow> 'm pg_scheme \<Rightarrow> bool" where
  "spent n s t \<longleftrightarrow> pg_tick t \<le> pg_tick s + n"

lemma spent_trans: "spent m s t \<Longrightarrow> spent n t u \<Longrightarrow> m + n \<le> k \<Longrightarrow> spent k s u"
  by (simp add: spent_def)

lemma spent_same [simp]: "spent n s s"
  by (simp add: spent_def)

lemma spent_statement:
  assumes "statement env us run s = (x, t)" "\<And>u. pg_tick (snd (run u)) = pg_tick u"
  shows "spent 1 s t"
  using assms(1) assms(2) [of "arrive env s"] by (auto simp: spent_def statement_def Let_def split: if_splits option.splits)

lemma spent_query: "query env us f s = (x, t) \<Longrightarrow> spent 1 s t"
  unfolding query_def by (rule spent_statement) auto

lemma spent_query_snd [simp]: "pg_tick (snd (query env us f s)) \<le> Suc (pg_tick s)"
  using spent_query [of env us f s] by (cases "query env us f s") (simp add: spent_def)

lemma spent_lookups:
  "dealership env i s = (x, t) \<Longrightarrow> spent 2 s t" "serviceType env j s = (y, t) \<Longrightarrow> spent 1 s t"
  "vehicleWithOwner env i j s = (z, t) \<Longrightarrow> spent 1 s t" "appointment env i s = (w, t) \<Longrightarrow> spent 1 s t"
  by (auto simp: dealership_def serviceType_def vehicleWithOwner_def appointment_def split: if_splits prod.splits sum.splits option.splits
    dest!: spent_query) (auto simp: spent_def)

lemma spent_daySchedule: "daySchedule env q s = (x, t) \<Longrightarrow> spent 3 s t"
  by (auto simp: daySchedule_def Let_def split: if_splits prod.splits sum.splits dest!: spent_query) (auto simp: spent_def)

lemma spent_InsertAppointment:
  assumes "InsertAppointment env na s = (x, t)"
  shows "spent 4 s t"
proof -
  define us where "us = [na_DealershipID na, na_VehicleID na, na_CustomerID na, na_ServiceTypeID na,
                          na_RequiredSkillID na, na_TechnicianID na, na_BayID na]"
  obtain r1 s1 where 1: "statement env [] (\<lambda>s. (Inr (), s)) s = (r1, s1)" by fastforce
  obtain r2 s2 where 2: "statement env us (\<lambda>s. insert_row (new_row env na (pg_tick s1)) s) s1 = (r2, s2)" by fastforce
  obtain r3 s3 where 3: "statement env [] (\<lambda>s. (Inr (), s)) s2 = (r3, s3)" by fastforce
  have a: "spent 1 s s1" "spent 1 s2 s3" using spent_statement [OF 1] spent_statement [OF 3] by simp_all
  have b: "spent 1 s1 s2" by (rule spent_statement [OF 2]) (simp add: insert_row_def split: option.split)
  have "pg_tick (rollback_savepoint env s2) = Suc (pg_tick s2)" by (simp add: rollback_savepoint_def Let_def)
  then show ?thesis
    using assms a b by (auto simp: InsertAppointment_def 1 2 [unfolded us_def] 3 spent_def split: sum.splits dest!: spent_lookups(4))
qed

lemma spent_locks:
  "LockIdempotencyKey env i k s = (x, t) \<Longrightarrow> spent 1 s t" "LockSchedulingDay env i d s = (x, t) \<Longrightarrow> spent 1 s t"
  "FindIdempotencyRecord env i k now s = (y, t) \<Longrightarrow> spent 1 s t" "SaveIdempotencyRecord env rec s = (x, t) \<Longrightarrow> spent 1 s t"
  by (auto simp: LockIdempotencyKey_def LockSchedulingDay_def FindIdempotencyRecord_def SaveIdempotencyRecord_def advisory_lock_def
    upsert_key_def split: prod.splits sum.splits option.splits dest!: spent_query spent_statement)

section \<open>The retry budget\<close>

text \<open>A schedule lists no more resources than the catalogue has.\<close>

definition resources :: "db \<Rightarrow> nat" where
  "resources d = min (length (db_technicians d)) (length (db_bays d))"

lemma length_scan_technicians: "scan_technicians ts idx acc = (idx', acc') \<Longrightarrow> length acc' = length acc + length ts"
  by (induction ts arbitrary: idx acc) auto

lemma length_scan_bays: "scan_bays bs idx acc = (idx', acc') \<Longrightarrow> length acc' = length acc + length bs"
  by (induction bs arbitrary: idx acc) auto

lemma length_scan_appointments:
  "length (Technicians (scan_appointments env v ti bi rs s)) = length (Technicians s)"
  "length (Bays (scan_appointments env v ti bi rs s)) = length (Bays s)"
  by (induction rs arbitrary: s) (auto simp: Let_def book_at_def split: option.split)

lemma qualified_bound:
  "qualified_resources sched st \<le> min (int (length (Technicians sched))) (int (length (Bays sched)))"
  by (auto simp: qualified_resources_def QualifiedTechnicians_filter QualifiedBays_filter intro: min.coboundedI1 min.coboundedI2)

lemma daySchedule_resources:
  assumes "daySchedule env q s = (Inr sched, t)"
  shows "qualified_resources sched st \<le> int (resources (pg_db s))"
proof -
  let ?D = "sq_DealershipID q"
  obtain r1 s1 where 1: "query env [?D] (select_technicians env ?D) s = (r1, s1)" by fastforce
  obtain r2 s2 where 2: "query env [?D] (select_bays env ?D) s1 = (r2, s2)" by fastforce
  obtain r3 s3 where 3: "query env [?D] (select_day env q) s2 = (r3, s3)" by fastforce
  from assms obtain techs bays rows ti ts bi bs where r: "r1 = Inr techs" "r2 = Inr bays"
    and scan: "scan_technicians techs Map.empty [] = (ti, ts)" "scan_bays bays Map.empty [] = (bi, bs)"
    and sched: "sched = scan_appointments env (sq_VehicleID q) ti bi rows \<lparr>Technicians = ts, Bays = bs, VehicleBooked = []\<rparr>"
    by (auto simp: daySchedule_def 1 2 3 Let_def split: if_splits sum.splits prod.splits)
  have cat: "same_catalogue (view s1) (pg_db s)" "same_catalogue (view s2) (pg_db s1)" "same_catalogue (view s1) (pg_db s1)"
    using query_Inr [OF 1 [unfolded r(1)]] query_Inr [OF 2 [unfolded r(2)]] view_arrive_catalogue
    by (simp_all add: same_catalogue_iff)
  have "length ts \<le> length (db_technicians (pg_db s))" "length bs \<le> length (db_bays (pg_db s))"
    using query_Inr [OF 1 [unfolded r(1)]] query_Inr [OF 2 [unfolded r(2)]] cat
      length_scan_technicians [OF scan(1)] length_scan_bays [OF scan(2)]
    by (simp_all add: select_technicians_def select_bays_def same_catalogue_iff le_trans [OF length_filter_le])
  then show ?thesis
    using qualified_bound [of sched st] by (auto simp: sched length_scan_appointments resources_def)
qed

lemma resources_catalogue: "same_catalogue d e \<Longrightarrow> resources d = resources e"
  by (simp add: resources_def same_catalogue_iff)

lemma spent_exhausted: "exhausted sch (bookingTx env) q st na s = (x, t) \<Longrightarrow> spent 3 s t"
  by (auto simp: exhausted_def split: prod.splits sum.splits dest: spent_daySchedule)

lemma attempts_spent:
  assumes "sch_maxAttempts sch \<le> B" "int (resources d) + 1 \<le> B"
  shows "\<lbrakk>attempts sch (bookingTx env) q st attempt budget na s = (x, t); 0 \<le> attempt; attempt \<le> B; budget \<le> B;
      resources (pg_db s) = resources d\<rbrakk> \<Longrightarrow> int (pg_tick t) \<le> int (pg_tick s) + 7 * (B - attempt) + 3"
proof (induction attempt budget na s arbitrary: x t
    rule: attempts_induct [where tx = "bookingTx env" and q = q and st = st and sch = sch])
  case (attempt attempt budget na s)
  from attempt.prems(1) show ?case
  proof (cases rule: attempts_cases)
    case over
    then show ?thesis using attempt.prems spent_exhausted [of sch env q st na s x t] by (simp add: spent_def)
  next
    case (lost_race schedule s1 a err s2)
    have steps: "tx_steps env s s2"
      using daySchedule_steps [of env s q] InsertAppointment_steps [of env s1 "with_assignment na a"] lost_race(2,4)
        rtranclp_trans by fastforce
    have res: "resources (pg_db s2) = resources d"
      using resources_catalogue frame.tx_steps_R [OF steps] attempt.prems(5) unfolding frame_kept_def by metis
    have "next_budget attempt budget schedule st \<le> B"
      using daySchedule_resources [of env q s schedule s1 st] lost_race(2) assms attempt.prems by (simp add: next_budget_def)
    then have "int (pg_tick t) \<le> int (pg_tick s2) + 7 * (B - (attempt + 1)) + 3"
      using attempt.prems(2,4) lost_race(1) res
      by (intro attempt.IH [OF lost_race(1-5) lost_race(6) [symmetric]]) simp_all
    moreover have "spent 3 s s1" "spent 4 s1 s2"
      using lost_race(2,4) spent_daySchedule spent_InsertAppointment by auto
    ultimately show ?thesis by (simp add: spent_def algebra_simps)
  qed (use attempt.prems in \<open>auto simp: spent_def dest!: spent_daySchedule spent_InsertAppointment\<close>)
qed

section \<open>A whole booking\<close>

definition budget_bound :: "'m pg_scheme scheduler \<Rightarrow> db \<Rightarrow> nat" where
  "budget_bound sch d = nat (max (sch_maxAttempts sch) (int (resources d) + 1))"

lemma assignAndInsert_spent:
  assumes "assignAndInsert sch (bookingTx env) q st na s = (x, t)"
  shows "spent (7 * budget_bound sch (pg_db s) + 3) s t"
proof -
  let ?B = "max (sch_maxAttempts sch) (int (resources (pg_db s)) + 1)"
  have "int (pg_tick t) \<le> int (pg_tick s) + 7 * (?B - 0) + 3"
    by (rule attempts_spent [OF _ _ assms [unfolded assignAndInsert_def]]) simp_all
  moreover have "int (budget_bound sch (pg_db s)) = ?B" by (simp add: budget_bound_def le_max_iff_disj)
  ultimately have "int (pg_tick t) \<le> int (pg_tick s) + 7 * int (budget_bound sch (pg_db s)) + 3" by simp
  then show ?thesis by (simp add: spent_def)
qed

lemma budget_bound_steps: "tx_steps env s t \<Longrightarrow> budget_bound sch (pg_db t) = budget_bound sch (pg_db s)"
  using frame.tx_steps_R resources_catalogue unfolding budget_bound_def frame_kept_def by metis

lemma book_fresh_spent:
  assumes "book_fresh rt sch req now day q st na (bookingTx env) s = (x, t)"
  shows "spent (7 * budget_bound sch (pg_db s) + 5) s t"
proof -
  obtain r1 s1 where 1: "LockSchedulingDay env (rq_DealershipID req) day s = (r1, s1)" by fastforce
  obtain appt out tr s2 where 2: "assignAndInsert sch (bookingTx env) q st na s1 = ((appt, out, tr), s2)"
    by (metis prod.exhaust)
  obtain r3 s3 where 3: "SaveIdempotencyRecord env (outcome_record rt req now appt out) s2 = (r3, s3)" by fastforce
  have "tx_steps env s s1"
    using 1 by (auto simp: LockSchedulingDay_def split: prod.splits sum.splits intro: statement_then_steps advisory_lock_steps)
  then have "spent (7 * budget_bound sch (pg_db s) + 3) s1 s2"
    using assignAndInsert_spent [OF 2] budget_bound_steps by metis
  moreover have "t \<in> {s1, s2, s3}"
    using assms by (auto simp: book_fresh_def 1 2 3 split: option.splits if_splits)
  ultimately show ?thesis using spent_locks(2) [OF 1] spent_locks(4) [OF 3] by (auto simp: spent_def)
qed

lemma replay_spent: "replay (bookingTx env) rec fp s = (x, t) \<Longrightarrow> spent 1 s t"
  by (auto simp: replay_def split: if_splits prod.splits sum.splits dest: spent_lookups(4))

lemma book_body_spent:
  assumes "book_body rt sch req now day q st na (bookingTx env) s = (x, t)"
  shows "spent (7 * budget_bound sch (pg_db s) + 7) s t"
proof -
  let ?D = "rq_DealershipID req" and ?k = "rq_IdempotencyKey req"
  obtain r1 s1 where 1: "LockIdempotencyKey env ?D ?k s = (r1, s1)" by fastforce
  obtain r2 s2 where 2: "FindIdempotencyRecord env ?D ?k now s1 = (r2, s2)" by fastforce
  have "tx_steps env s s1"
    using 1 by (auto simp: LockIdempotencyKey_def split: prod.splits sum.splits intro: statement_then_steps advisory_lock_steps)
  moreover have "tx_steps env s1 s2"
    using 2 by (auto simp: FindIdempotencyRecord_def split: prod.splits sum.splits option.splits intro: query_chain)
  ultimately have b: "budget_bound sch (pg_db s2) = budget_bound sch (pg_db s)"
    using budget_bound_steps rtranclp_trans by metis
  note l = spent_locks(1) [OF 1] spent_locks(3) [OF 2]
  show ?thesis
    using assms l
    by (auto simp: book_body_def 1 2 b spent_def split: if_splits option.splits sum.splits prod.splits
      dest!: book_fresh_spent replay_spent [where env = env])
qed

lemma InTx_spent:
  assumes "InTx env (book_body rt sch req now day q st na) s = (x, t)"
  shows "spent (7 * budget_bound sch (pg_db s) + 9) s t"
proof -
  obtain b s1 where b: "statement env [] (\<lambda>s. (Inr (), open_tx s)) s = (b, s1)" by fastforce
  obtain r vars s2 where 2: "book_body rt sch req now day q st na (bookingTx env) s1 = ((r, vars), s2)" by (metis prod.exhaust)
  have s1: "spent 1 s s1" by (rule spent_statement [OF b]) (simp add: open_tx_def)
  have "same_catalogue (pg_db s) (pg_db s1)"
    using b frame.arrive_R [of s env] by (auto simp: statement_def Let_def open_tx_def frame_kept_def split: if_splits option.splits)
  then have "budget_bound sch (pg_db s1) = budget_bound sch (pg_db s)" by (simp add: budget_bound_def resources_catalogue)
  then have s2: "spent (7 * budget_bound sch (pg_db s) + 7) s1 s2" using book_body_spent [OF 2] by simp
  have c: "spent 1 s2 (snd (commit_tx env s2))"
    by (simp add: spent_def commit_tx_def Let_def close_tx_def apply_tx_def split: option.split)
  have "t \<in> {s1, close_tx s2, snd (commit_tx env s2)}"
    using assms by (auto simp: InTx_def b 2 split: sum.splits option.splits prod.splits)
  then show ?thesis using s1 s2 c by (auto simp: spent_def close_tx_def)
qed

lemma book_in_tx_spent:
  assumes sch: "sch_repo sch = Repository env" and b: "book_in_tx rt sch req s = (res, t)"
  shows "spent (7 * budget_bound sch (pg_db s) + 13) s t"
  using b
proof (cases rule: book_in_tx_cases)
  case (in_tx d s1 st s2 v c s3 iv r appt out)
  note l = in_tx(1-3) [unfolded sch Repository_sel]
  have "tx_steps env s s3" using lookup_steps l by (meson rtranclp_trans)
  then have "spent (7 * budget_bound sch (pg_db s) + 9) s3 t"
    using InTx_spent in_tx(5) budget_bound_steps unfolding sch Repository_sel by metis
  then show ?thesis using spent_lookups(1) [OF l(1)] spent_lookups(2) [OF l(2)] spent_lookups(3) [OF l(3)] by (simp add: spent_def)
qed (auto simp: sch spent_def dest!: spent_lookups)

section \<open>Properties\<close>

text \<open>C12: a booking ends after at most 7 statements for each attempt of its budget and 13 besides, where the budget
  is the larger of the configured attempts and one more than the technicians or bays there are: no
  activity of other sessions and no failure extends it (ADR-0001).\<close>

theorem booking_statements_bounded:
  assumes "sch_repo sch = Repository env" "beside (sch_metrics sch)" "Book rt sch req s = (res, t)"
  shows "int (pg_tick t) \<le> int (pg_tick s) + 13 + 7 * max (sch_maxAttempts sch)
    (int (min (length (db_technicians (pg_db s))) (length (db_bays (pg_db s)))) + 1)"
proof -
  obtain x y u where b: "book_in_tx rt sch req (s\<lparr>pg.more := x\<rparr>) = (res, u)" "t = u\<lparr>pg.more := y\<rparr>"
    using assms(3,2) by (rule Book_cases)
  have "int (budget_bound sch (pg_db s)) = max (sch_maxAttempts sch) (int (resources (pg_db s)) + 1)"
    by (simp add: budget_bound_def le_max_iff_disj)
  moreover have "int (pg_tick t) \<le> int (pg_tick s) + 7 * int (budget_bound sch (pg_db s)) + 13"
    using book_in_tx_spent [OF assms(1) b(1)] b(2) by (simp add: spent_def)
  ultimately show ?thesis by (simp add: resources_def)
qed

theorem booking_statements_bounded_witness:
  "\<exists>res t. Book sample_runtime sample_scheduler (sample_request []) sample_pg = (res, t) \<and> int (pg_tick t) \<le> 34"
proof -
  obtain res t where b: "Book sample_runtime sample_scheduler (sample_request []) sample_pg = (res, t)" by fastforce
  have "int (pg_tick t) \<le> 34"
    using booking_statements_bounded [OF sample_sel(1) sample_beside b] by (simp add: sample_pg_def sample_db_def)
  then show ?thesis using b by blast
qed

end
