(* ===== verification/KeyReuse.thy ===== *)
theory KeyReuse
  imports Offered
begin

text \<open>
  What a live idempotency record decides (FR-4): a booking whose key has one returns the recorded
  appointment, the recorded rejection, or IDEMPOTENCY\<^verbatim>\<open>_\<close>KEY\<^verbatim>\<open>_\<close>REUSED when its payload differs, unless it fails
  before the record is read or for a reason outside the domain; and it changes nothing. An undisturbed
  booking that passes the lookups and the check of its start does reach the record, so an undisturbed
  retry returns the appointment of the first booking.
\<close>

section \<open>The verdict of a record\<close>

definition verdict :: "'m runtime \<Rightarrow> pg_env \<Rightarrow> book_request \<Rightarrow> key_row \<Rightarrow> (go_error + appointment) \<Rightarrow> bool" where
  "verdict rt env req v res \<longleftrightarrow>
     (case res of
        Inr a \<Rightarrow> kr_fingerprint v = fingerprint rt req \<and> (\<exists>i. kr_appointment v = Some i \<and> ap_ID a = uuid_arg env i)
      | Inl e \<Rightarrow>
          if kr_fingerprint v \<noteq> fingerprint rt req then CodeOf e = CodeIdempotencyKeyReused
          else kr_appointment v \<in> {None, Some []} \<and>
            (\<exists>d. AsError e = Some d \<and> err_Code d = (case kr_error v of None \<Rightarrow> no_code | Some c \<Rightarrow> code_of_text c) \<and>
              err_Conflicting d = map resource_of_text (kr_conflicting v)))"

text \<open>A failure outside the domain, or of what comes before the record: the lookups and the time.\<close>

definition undecided :: "go_error \<Rightarrow> bool" where
  "undecided e \<longleftrightarrow> AsError e = None \<or>
     CodeOf e \<in> {CodeResourceNotFound, CodeStartTimeInPast, CodeOutsideBusinessHours, CodeServiceExceedsClosingTime}"

lemma undecided_wrap [simp]: "undecided (EWrap s e) = undecided e"
  by (simp add: undecided_def CodeOf_def)

lemma appointment_undecided: "appointment env i s = (Inl e, t) \<Longrightarrow> undecided e"
  by (auto simp: appointment_def undecided_def dest!: query_Inl split: if_splits prod.splits sum.splits option.splits)

lemma lookups_undecided:
  "dealership env i s = (Inl e, t) \<Longrightarrow> undecided e" "serviceType env i s = (Inl e, t) \<Longrightarrow> undecided e"
  "vehicleWithOwner env i j s = (Inl e, t) \<Longrightarrow> undecided e"
  by (auto simp: dealership_def serviceType_def vehicleWithOwner_def undecided_def dest!: query_Inl
      split: if_splits prod.splits sum.splits option.splits)

lemma time_undecided: "ValidateBookingTime start dur now loc hours = Inl e \<Longrightarrow> undecided e"
  by (auto simp: ValidateBookingTime_def Let_def undecided_def split: if_splits option.splits)

lemma LockIdempotencyKey_Some: "LockIdempotencyKey env d k s = (Some e, t) \<Longrightarrow> undecided e"
  by (auto simp: LockIdempotencyKey_def undecided_def advisory_lock_def dest!: statement_Inl split: prod.splits sum.splits)

lemma FindIdempotencyRecord_Inl: "FindIdempotencyRecord env d k now s = (Inl e, t) \<Longrightarrow> undecided e"
  by (auto simp: FindIdempotencyRecord_def undecided_def dest!: query_Inl split: prod.splits sum.splits option.splits)

section \<open>The transaction function on a live record\<close>

lemma replay_verdict:
  assumes "replay (bookingTx env) (record_of_row env d k v) (fingerprint rt req) s = ((appt, out, err), t)"
  shows "(case err of None \<Rightarrow> verdict rt env req v (tx_result None appt out) | Some e \<Rightarrow> undecided e)"
    and "tx_steps env s t" "pg_own_rows t = pg_own_rows s" "pg_own_keys t = pg_own_keys s"
proof -
  have a: "tx_steps env s (snd (appointment env i s))" "pg_own_rows (snd (appointment env i s)) = pg_own_rows s"
    "pg_own_keys (snd (appointment env i s)) = pg_own_keys s" for i
    by (simp_all add: appointment_steps appointment_own appointment_keys)
  show "tx_steps env s t" "pg_own_rows t = pg_own_rows s" "pg_own_keys t = pg_own_keys s"
    using assms a by (auto simp: replay_def split: if_splits prod.splits sum.splits) (metis snd_conv)+
  have ident: "ap_ID ap = uuid_arg env i" if ap: "appointment env i s = (Inr ap, u)" for ap i u
  proof -
    obtain r dl c ve sty te ba loc where "select_appointment env i (view u) = Some (r, dl, c, ve, sty, te, ba)"
      "ap = appointment_of_row env loc r c ve sty te ba"
      using appointment_Inr [OF ap] by blast
    then show ?thesis using find_Some
      by (fastforce simp: select_appointment_def select_by_uuid_def appointment_of_row_def split: option.splits)
  qed
  show "(case err of None \<Rightarrow> verdict rt env req v (tx_result None appt out) | Some e \<Rightarrow> undecided e)"
    using assms
    by (auto simp: replay_def record_of_row_def verdict_def tx_result_def split: if_splits prod.splits sum.splits option.splits
      dest!: appointment_undecided ident)
qed

lemma body_live:
  assumes key: "rq_IdempotencyKey req \<noteq> []" and keyless: "keyless_script env"
    and v: "db_keys (pg_db s) (key_of env req) = Some v" "pg_own_keys s = Map.empty" "pg_own_rows s = []"
    and live: "timestamptz env now < kr_expires v"
    and b: "book_body rt sch req now day q st na (bookingTx env) s = ((r, appt, out), t)"
  shows "(case r of None \<Rightarrow> verdict rt env req v (tx_result None appt out) | Some e \<Rightarrow> undecided e)"
    and "pg_own_rows t = []" "pg_own_keys t = Map.empty"
proof -
  let ?d = "rq_DealershipID req" and ?k = "rq_IdempotencyKey req"
  obtain r1 s1 where l: "LockIdempotencyKey env ?d ?k s = (r1, s1)" by fastforce
  obtain r2 s2 where f: "FindIdempotencyRecord env ?d ?k now s1 = (r2, s2)" by fastforce
  have own: "pg_own_rows s1 = []" "pg_own_keys s1 = Map.empty" "pg_own_rows s2 = []" "pg_own_keys s2 = Map.empty"
    using LockIdempotencyKey_own [of env ?d ?k s] LockIdempotencyKey_keys [of env ?d ?k s]
      FindIdempotencyRecord_own [of env ?d ?k now s1] FindIdempotencyRecord_keys [of env ?d ?k now s1] l f v by simp_all
  note B = b [unfolded book_body_def bookingTx_sel l, simplified]
  have *: "(case r of None \<Rightarrow> verdict rt env req v (tx_result None appt out) | Some e \<Rightarrow> undecided e) \<and>
    pg_own_rows t = [] \<and> pg_own_keys t = Map.empty"
  proof (cases r1)
    case (Some e)
    then show ?thesis using B key LockIdempotencyKey_Some [OF l [unfolded Some]] own by auto
  next
    case None
    show ?thesis
    proof (cases r2)
      case (Inl e)
      then show ?thesis using B key None FindIdempotencyRecord_Inl [OF f [unfolded Inl]] own f by auto
    next
      case (Inr res)
      have "db_keys (view s2) (key_of env req) = Some v"
        using FindIdempotencyRecord_Inr [OF f [unfolded Inr]] LockIdempotencyKey_fields [OF l] keyless v own by simp
      then have "res = Some (record_of_row env ?d ?k v)"
        using FindIdempotencyRecord_Inr [OF f [unfolded Inr]] live by (simp add: select_key_def key_of_def)
      then obtain err where rep: "replay (bookingTx env) (record_of_row env ?d ?k v) (fingerprint rt req) s2 = ((appt, out, err), t)"
        "r = err"
        using B key None Inr f by (auto split: prod.splits)
      show ?thesis using replay_verdict [OF rep(1)] rep(2) own by simp
    qed
  qed
  then show "(case r of None \<Rightarrow> verdict rt env req v (tx_result None appt out) | Some e \<Rightarrow> undecided e)"
    "pg_own_rows t = []" "pg_own_keys t = Map.empty" by simp_all
qed

lemma InTx_live:
  assumes env: "foreign_script env" "keyless_script env" and ok: "session_ok s" and idle: "idle s"
    and key: "rq_IdempotencyKey req \<noteq> []" and v: "db_keys (pg_db s) (key_of env req) = Some v"
    and live: "timestamptz env now < kr_expires v"
    and tx: "InTx env (book_body rt sch req now day q st na) s = ((r, appt, out), t)"
  shows "(case r of None \<Rightarrow> verdict rt env req v (tx_result None appt out) | Some e \<Rightarrow> undecided e)"
    and "adds_nothing env s t" "db_keys (pg_db t) = db_keys (pg_db s)"
proof -
  let ?u = "open_tx (arrive env s)"
  have u: "session_ok ?u" "pg_own_rows ?u = []" "pg_own_keys ?u = Map.empty" "db_keys (pg_db ?u) = db_keys (pg_db s)"
    using session_ok_arrive [OF ok] idle env(2) by (simp_all add: idle_def open_tx_def)
  have run: "(case r2 of None \<Rightarrow> verdict rt env req v (tx_result None appt2 out2) | Some e \<Rightarrow> undecided e)"
      "adds_nothing env s (close_tx s2)" "db_keys (pg_db (close_tx s2)) = db_keys (pg_db s)"
      "adds_nothing env s (close_tx (arrive env s2))" "db_keys (pg_db (close_tx (arrive env s2))) = db_keys (pg_db s)"
      "adds_nothing env s (apply_tx (arrive env s2))" "db_keys (pg_db (apply_tx (arrive env s2))) = db_keys (pg_db s)"
    if b: "book_body rt sch req now day q st na (bookingTx env) ?u = ((r2, appt2, out2), s2)" for r2 appt2 out2 s2
  proof -
    note l = body_live [OF key env(2) _ u(3,2) live b, unfolded u(4), OF v]
    show "(case r2 of None \<Rightarrow> verdict rt env req v (tx_result None appt2 out2) | Some e \<Rightarrow> undecided e)" by (rule l(1))
    have steps: "tx_steps env ?u s2" using session.book_body_R [of env ?u rt sch req now day q st na] b by simp
    have g: "generated env (pg_db s2) = generated env (pg_db s)"
      using generated_steps [OF env(1) steps] generated_steps [OF env(1) tx_steps_arrive, of s] by simp
    have k: "db_keys (pg_db s2) = db_keys (pg_db s)" using keys_steps [OF env(2) steps] u(4) by simp
    show "adds_nothing env s (close_tx s2)" "db_keys (pg_db (close_tx s2)) = db_keys (pg_db s)"
      using g k by (simp_all add: adds_nothing_def close_tx_def)
    show "adds_nothing env s (close_tx (arrive env s2))" "db_keys (pg_db (close_tx (arrive env s2))) = db_keys (pg_db s)"
      using g k generated_steps [OF env(1) tx_steps_arrive, of s2] env(2) by (simp_all add: adds_nothing_def close_tx_def)
    show "adds_nothing env s (apply_tx (arrive env s2))"
      by (rule commit_adds(1) [OF env(1) session_ok_steps [OF steps u(1)] g l(2)])
    show "db_keys (pg_db (apply_tx (arrive env s2))) = db_keys (pg_db s)" using k l(3) env(2) by (simp add: view_apply)
  qed
  have *: "(case r of None \<Rightarrow> verdict rt env req v (tx_result None appt out) | Some e \<Rightarrow> undecided e) \<and>
    adds_nothing env s t \<and> db_keys (pg_db t) = db_keys (pg_db s)"
    using tx
  proof (cases rule: InTx_cases)
    case (begin_failed e)
    then show ?thesis using keys_steps [OF env(2) begin_failed(3)] generated_steps [OF env(1) begin_failed(3)] by (simp add: undecided_def adds_nothing_def)
  next
    case (rolled_back e s2)
    then show ?thesis using run [OF rolled_back(1)] by simp
  next
    case (commit_failed e s2)
    then show ?thesis using run [OF commit_failed(1)] by (simp add: undecided_def)
  next
    case (lost_ack e s2)
    then show ?thesis using run [OF lost_ack(1)] by (simp add: undecided_def)
  next
    case (committed s2)
    then show ?thesis using run [OF committed(1)] by simp
  qed
  then show "(case r of None \<Rightarrow> verdict rt env req v (tx_result None appt out) | Some e \<Rightarrow> undecided e)"
    "adds_nothing env s t" "db_keys (pg_db t) = db_keys (pg_db s)" by simp_all
qed

section \<open>A whole booking on a live record\<close>

definition decided :: "'m runtime \<Rightarrow> pg_env \<Rightarrow> book_request \<Rightarrow> key_row \<Rightarrow> (go_error + appointment) \<Rightarrow> bool" where
  "decided rt env req v res \<longleftrightarrow> verdict rt env req v res \<or> (\<exists>e. res = Inl e \<and> undecided e)"

lemma book_in_tx_live:
  assumes env: "foreign_script env" "keyless_script env" and s: "session_ok s" "idle s"
    and sch: "sch_repo sch = Repository env" and key: "rq_IdempotencyKey req \<noteq> []"
    and v: "db_keys (pg_db s) (key_of env req) = Some v" "\<And>w. timestamptz env (sch_now sch w) < kr_expires v"
    and b: "book_in_tx rt sch req s = (res, t)"
  shows "decided rt env req v res \<and> adds_nothing env s t \<and> db_keys (pg_db t) = db_keys (pg_db s)"
proof -
  have k: "adds_nothing env s u \<and> db_keys (pg_db u) = db_keys (pg_db s)" if "tx_steps env s u" for u
    using generated_steps [OF env(1) that] keys_steps [OF env(2) that] by (simp add: adds_nothing_def)
  note chain = rtranclp_trans [of "tx_step env" s]
  from b show ?thesis
  proof (cases rule: book_in_tx_cases)
    case (no_dealership e)
    note l = no_dealership(1) [unfolded sch Repository_sel]
    show ?thesis using k [OF lookup_steps(1) [OF l]] lookups_undecided(1) [OF l] no_dealership(2) by (simp add: decided_def)
  next
    case (no_service d s1 e)
    note l = no_service(1,2) [unfolded sch Repository_sel]
    show ?thesis using k [OF chain [OF lookup_steps(1) [OF l(1)] lookup_steps(2) [OF l(2)]]] lookups_undecided(2) [OF l(2)] no_service(3)
      by (simp add: decided_def)
  next
    case (no_vehicle d s1 st s2 e)
    note l = no_vehicle(1-3) [unfolded sch Repository_sel]
    show ?thesis
      using k [OF chain [OF chain [OF lookup_steps(1) [OF l(1)] lookup_steps(2) [OF l(2)]] lookup_steps(3) [OF l(3)]]]
        lookups_undecided(3) [OF l(3)] no_vehicle(4) by (simp add: decided_def)
  next
    case (bad_time d s1 st s2 v' c e)
    note l = bad_time(1-3) [unfolded sch Repository_sel]
    show ?thesis
      using k [OF chain [OF chain [OF lookup_steps(1) [OF l(1)] lookup_steps(2) [OF l(2)]] lookup_steps(3) [OF l(3)]]]
        time_undecided [OF bad_time(4)] bad_time(5) by (simp add: decided_def)
  next
    case (in_tx d s1 st s2 v' c s3 iv r appt out)
    note l = in_tx(1-3) [unfolded sch Repository_sel]
    have steps: "tx_steps env s s3"
      by (rule chain [OF chain [OF lookup_steps(1) [OF l(1)] lookup_steps(2) [OF l(2)]] lookup_steps(3) [OF l(3)]])
    have s3: "session_ok s3" "idle s3"
      using session_ok_steps [OF steps s(1)] idle_vehicleWithOwner [OF idle_serviceType [OF idle_dealership [OF s(2) l(1)] l(2)] l(3)]
      by simp_all
    have v3: "db_keys (pg_db s3) (key_of env req) = Some v" using v(1) k [OF steps] by simp
    note t = InTx_live [OF env s3 key v3 v(2) in_tx(5) [unfolded sch Repository_sel]]
    have "decided rt env req v res"
      using t(1) in_tx(6) by (cases r) (auto simp: decided_def tx_result_def)
    then show ?thesis using t(2,3) k [OF steps] by (simp add: adds_nothing_def)
  qed
qed

section \<open>A booking that reaches its transaction\<close>

text \<open>
  What a request needs of the catalogue and the clock to reach the transaction: identifiers that name
  rows, a zone that is known, and a start that the opening hours accept.
\<close>

definition request_admissible :: "pg_env \<Rightarrow> book_request \<Rightarrow> gtime \<Rightarrow> db \<Rightarrow> bool" where
  "request_admissible env req now d \<longleftrightarrow>
     is_uuid (rq_DealershipID req) \<and> is_uuid (rq_ServiceTypeID req) \<and> is_uuid (rq_VehicleID req) \<and>
     (\<exists>dl loc sr vc iv. select_by_uuid env dlr_id (rq_DealershipID req) (db_dealerships d) = Some dl \<and>
        pe_load_location env (dlr_timezone dl) = Some loc \<and>
        select_by_uuid env svr_id (rq_ServiceTypeID req) (db_service_types d) = Some sr \<and>
        vehicle_with_owner env (rq_DealershipID req) (rq_VehicleID req) d = Some vc \<and>
        ValidateBookingTime (rq_StartTime req) (st_Duration (service_type_of_row sr)) now loc
          (scan_hours Map.empty (filter (\<lambda>h. hor_dealership h = uuid_arg env (rq_DealershipID req)) (db_hours d))) = Inr iv)"

lemma request_admissible_catalogue:
  "same_catalogue d e \<Longrightarrow> request_admissible env req now d = request_admissible env req now e"
  by (simp add: request_admissible_def vehicle_with_owner_def same_catalogue_iff cong: option.case_cong)

lemma request_admissible_now:
  "request_admissible env req now d \<Longrightarrow> t_ns now' \<le> t_ns (rq_StartTime req) \<Longrightarrow> request_admissible env req now' d"
  unfolding request_admissible_def ValidateBookingTime_Inr by blast

lemma dealership_found:
  assumes "dealership env i s = (Inr d, t)"
  shows "is_uuid i \<and> (\<exists>dl. select_by_uuid env dlr_id i (db_dealerships (pg_db s)) = Some dl \<and>
      pe_load_location env (dlr_timezone dl) = Some (dl_Location d)) \<and>
    dl_Hours d = scan_hours Map.empty (filter (\<lambda>h. hor_dealership h = uuid_arg env i) (db_hours (pg_db s)))"
proof -
  obtain x u where q: "query env [i] (\<lambda>d. select_by_uuid env dlr_id i (db_dealerships d)) s = (x, u)" by fastforce
  obtain y w where r: "query env [i] (\<lambda>d. filter (\<lambda>h. hor_dealership h = uuid_arg env i) (db_hours d)) u = (y, w)"
    by fastforce
  obtain row loc rows where row: "is_uuid i" "x = Inr (Some row)" "pe_load_location env (dlr_timezone row) = Some loc"
      "y = Inr rows" "d = \<lparr>dl_ID = dlr_id row, dl_Name = dlr_name row, dl_Location = loc, dl_Hours = scan_hours Map.empty rows\<rparr>"
    using assms by (auto simp: dealership_def q r split: if_splits sum.splits option.splits)
  note f = query_Inr [OF q [unfolded row(2)]] and g = query_Inr [OF r [unfolded row(4)]]
  have "same_catalogue (pg_db s) (pg_db u)" "same_catalogue (pg_db u) (pg_db w)"
    using f g tx_frame [OF tx_steps_arrive] by simp_all
  then have "select_by_uuid env dlr_id i (db_dealerships (pg_db s)) = Some row"
      "rows = filter (\<lambda>h. hor_dealership h = uuid_arg env i) (db_hours (pg_db s))"
    using f [THEN conjunct1, symmetric] g by (auto simp: same_catalogue_iff)
  then show ?thesis using row(1,3) by (simp add: row(5))
qed

lemma serviceType_found:
  assumes "serviceType env i s = (Inr st, t)"
  shows "is_uuid i \<and> (\<exists>sr. select_by_uuid env svr_id i (db_service_types (pg_db s)) = Some sr \<and> st = service_type_of_row sr)"
proof -
  obtain x u where q: "query env [i] (\<lambda>d. select_by_uuid env svr_id i (db_service_types d)) s = (x, u)" by fastforce
  obtain row where row: "is_uuid i" "x = Inr (Some row)" "st = service_type_of_row row"
    using assms by (auto simp: serviceType_def q split: if_splits sum.splits option.splits)
  note f = query_Inr [OF q [unfolded row(2)]]
  have "same_catalogue (pg_db s) (pg_db u)" using f tx_frame [OF tx_steps_arrive] by simp
  then have "select_by_uuid env svr_id i (db_service_types (pg_db s)) = Some row"
    using f [THEN conjunct1, symmetric] by (auto simp: same_catalogue_iff)
  then show ?thesis using row(1,3) by simp
qed

lemma reached_admissible:
  assumes d: "dealership env (rq_DealershipID req) s = (Inr d, s1)" and st: "serviceType env (rq_ServiceTypeID req) s1 = (Inr st, s2)"
    and v: "vehicleWithOwner env (rq_DealershipID req) (rq_VehicleID req) s2 = (Inr (v, c), s3)"
    and t: "ValidateBookingTime (rq_StartTime req) (st_Duration st) now (dl_Location d) (dl_Hours d) = Inr iv"
  shows "request_admissible env req now (pg_db s)"
proof -
  have cat: "same_catalogue (pg_db s) (pg_db s1)" "same_catalogue (pg_db s) (pg_db s2)"
    using tx_frame [OF lookup_steps(1) [OF d]] tx_frame [OF lookup_steps(2) [OF st]] by (auto simp: same_catalogue_iff)
  have "is_uuid (rq_VehicleID req)" using v by (auto simp: vehicleWithOwner_def split: if_splits)
  moreover have "vehicle_with_owner env (rq_DealershipID req) (rq_VehicleID req) (pg_db s) = Some (v, c)"
    using vehicleWithOwner_Inr [OF v] cat(2) by (simp add: vehicle_with_owner_def same_catalogue_iff cong: option.case_cong)
  ultimately show ?thesis
    using dealership_found [OF d] serviceType_found [OF st] cat(1) t
    by (auto simp: request_admissible_def same_catalogue_iff)
qed

lemma quiet_lookups:
  assumes env: "quiet env" "env_ok env" and s: "\<not> pg_aborted s" and a: "request_admissible env req now (pg_db s)"
  obtains d st v c iv where "dealership env (rq_DealershipID req) s = (Inr d, tick 2 s)"
    "serviceType env (rq_ServiceTypeID req) (tick 2 s) = (Inr st, tick 3 s)"
    "vehicleWithOwner env (rq_DealershipID req) (rq_VehicleID req) (tick 3 s) = (Inr (v, c), tick 4 s)"
    "ValidateBookingTime (rq_StartTime req) (st_Duration st) now (dl_Location d) (dl_Hours d) = Inr iv"
proof -
  have view: "vehicle_with_owner env (rq_DealershipID req) (rq_VehicleID req) (view s) =
      vehicle_with_owner env (rq_DealershipID req) (rq_VehicleID req) (pg_db s)"
    by (simp add: vehicle_with_owner_def cong: option.case_cong)
  from a obtain dl loc sr v c iv where x: "is_uuid (rq_DealershipID req)" "is_uuid (rq_ServiceTypeID req)" "is_uuid (rq_VehicleID req)"
      "select_by_uuid env dlr_id (rq_DealershipID req) (db_dealerships (pg_db s)) = Some dl"
      "pe_load_location env (dlr_timezone dl) = Some loc"
      "select_by_uuid env svr_id (rq_ServiceTypeID req) (db_service_types (pg_db s)) = Some sr"
      "vehicle_with_owner env (rq_DealershipID req) (rq_VehicleID req) (pg_db s) = Some (v, c)"
      "ValidateBookingTime (rq_StartTime req) (st_Duration (service_type_of_row sr)) now loc
          (scan_hours Map.empty (filter (\<lambda>h. hor_dealership h = uuid_arg env (rq_DealershipID req)) (db_hours (pg_db s)))) = Inr iv"
    unfolding request_admissible_def by (metis surj_pair)
  note q = query_quiet [OF env]
  let ?d = "\<lparr>dl_ID = dlr_id dl, dl_Name = dlr_name dl, dl_Location = loc, dl_Hours = scan_hours Map.empty
        (filter (\<lambda>h. hor_dealership h = uuid_arg env (rq_DealershipID req)) (db_hours (pg_db s)))\<rparr>"
  show ?thesis
  proof (rule that [of ?d "service_type_of_row sr" v c iv])
    show "dealership env (rq_DealershipID req) s = (Inr ?d, tick 2 s)"
      using x(1,4,5) s by (simp add: dealership_def q eval_nat_numeral)
    show "serviceType env (rq_ServiceTypeID req) (tick 2 s) = (Inr (service_type_of_row sr), tick 3 s)"
      using x(2,6) s by (simp add: serviceType_def q)
    show "vehicleWithOwner env (rq_DealershipID req) (rq_VehicleID req) (tick 3 s) = (Inr (v, c), tick 4 s)"
      using x(1,3,7) s by (simp add: vehicleWithOwner_def q view)
    show "ValidateBookingTime (rq_StartTime req) (st_Duration (service_type_of_row sr)) now (dl_Location ?d) (dl_Hours ?d) = Inr iv"
      using x(8) by simp
  qed
qed

section \<open>An undisturbed transaction on a live record\<close>

lemma quiet_appointment:
  assumes env: "quiet env" "env_ok env" and s: "session_ok s" "\<not> pg_aborted s"
    and r: "r \<in> set (db_appointments (view s))" "canonical (row_id r)"
    and zones: "\<forall>x \<in> set (db_dealerships (pg_db s)). pe_load_location env (dlr_timezone x) \<noteq> None"
  shows "\<exists>a. appointment env (row_id r) s = (Inr a, tick 1 s)"
proof -
  have u: "is_uuid (row_id r)" "uuid_arg env (row_id r) = row_id r"
    using r(2) uuid_arg_canonical [OF env(2)] by (simp_all add: canonical_def)
  obtain j where j: "select_appointment env (row_id r) (view s) = Some (r, j)" "join_appointment (view s) r = Some j"
    using select_own_row [OF s(1) r(1) u(2)] by blast
  obtain dl c ve sty te ba where j': "j = (dl, c, ve, sty, te, ba)" by (metis prod_cases6)
  have "dl \<in> set (db_dealerships (pg_db s))"
    using j(2) by (auto simp: j' join_appointment_def dest!: find_Some split: option.splits)
  then obtain loc where "pe_load_location env (dlr_timezone dl) = Some loc" using zones by blast
  then show ?thesis using j(1) u s(2) by (simp add: appointment_def j' query_quiet [OF env])
qed

lemma quiet_replay:
  assumes env: "quiet env" "env_ok env" and s: "session_ok s" "idle s"
    and key: "rq_IdempotencyKey req \<noteq> []" "is_uuid (rq_IdempotencyKey req)" "is_uuid (rq_DealershipID req)"
    and v: "db_keys (pg_db s) (key_of env req) = Some v" "timestamptz env now < kr_expires v"
    and ids: "\<forall>r \<in> set (db_appointments (pg_db s)). canonical (row_id r)"
    and zones: "\<forall>x \<in> set (db_dealerships (pg_db s)). pe_load_location env (dlr_timezone x) \<noteq> None"
  shows "\<exists>vars u. InTx env (book_body rt sch req now day q st na) s = ((None, vars), u)"
proof -
  let ?d = "rq_DealershipID req" and ?k = "rq_IdempotencyKey req"
  let ?s = "tick 3 ((open_tx s)\<lparr>pg_locks := insert (pe_hash env ?d, pe_hash env ?k) (pg_locks s)\<rparr>)"
  have s': "\<not> pg_aborted s" "pg_own_keys s = Map.empty" "pg_own_rows s = []" "pg_locks (open_tx s) = pg_locks s"
    using s(2) by (simp_all add: idle_def) (simp add: open_tx_def)
  have ok: "session_ok ?s" using s(1) by simp
  have "select_key env ?d ?k now (view s) = Some v"
    using v s'(2) by (simp add: select_key_def key_of_def)
  then have body: "book_body rt sch req now day q st na (bookingTx env) (tick 1 (open_tx s)) =
      (case replay (bookingTx env) (record_of_row env ?d ?k v) (fingerprint rt req) ?s of
         ((appt, outcome, err), s3) \<Rightarrow> ((err, appt, outcome), s3))"
    using key s' by (simp add: book_body_def LockIdempotencyKey_def FindIdempotencyRecord_def advisory_lock_def
        statement_quiet [OF env] query_quiet [OF env] eval_nat_numeral)
  have "\<exists>appt out u. replay (bookingTx env) (record_of_row env ?d ?k v) (fingerprint rt req) ?s =
      ((appt, out, None), u) \<and> \<not> pg_aborted u"
  proof (cases "\<exists>i. kr_appointment v = Some i \<and> i \<noteq> [] \<and> kr_fingerprint v = fingerprint rt req")
    case False
    then show ?thesis using s'(1) by (auto simp: replay_def record_of_row_def split: option.splits)
  next
    case True
    then obtain i where i: "kr_appointment v = Some i" "i \<noteq> []" "kr_fingerprint v = fingerprint rt req" by blast
    have "key_violation (pg_db s) (fst (key_of env req)) v = None"
      using v(1) s(1) by (cases "key_of env req") (simp add: session_ok_def db_ok_def)
    then obtain r where r: "r \<in> set (db_appointments (pg_db s))" "row_id r = i"
      using i(1) by (auto simp: key_violation_def split: if_splits)
    obtain a where "appointment env i ?s = (Inr a, tick 1 ?s)"
      using quiet_appointment [OF env ok, of r] r ids zones s'(1) by auto
    then show ?thesis using i s'(1) by (simp add: replay_def record_of_row_def)
  qed
  then obtain appt out u where u: "replay (bookingTx env) (record_of_row env ?d ?k v) (fingerprint rt req) ?s =
      ((appt, out, None), u)" "\<not> pg_aborted u" by blast
  have "book_body rt sch req now day q st na (bookingTx env) (tick 1 (open_tx s)) = ((None, appt, out), u)"
    using body u(1) by simp
  then show ?thesis
    using s'(1) u(2) by (simp add: InTx_def statement_quiet [OF env] quiet_commit [OF env(1)] del: One_nat_def)
qed

section \<open>An undisturbed booking on a live record\<close>

lemma quiet_live_booking:
  assumes env: "quiet env" "env_ok env" and s: "session_ok s" "idle s"
    and sch: "sch_repo sch = Repository env" and key: "is_uuid (rq_IdempotencyKey req)"
    and adm: "\<And>w. request_admissible env req (sch_now sch w) (pg_db s)"
    and v: "db_keys (pg_db s) (key_of env req) = Some v" "\<And>w. timestamptz env (sch_now sch w) < kr_expires v"
    and ids: "\<forall>r \<in> set (db_appointments (pg_db s)). canonical (row_id r)"
    and zones: "\<forall>x \<in> set (db_dealerships (pg_db s)). pe_load_location env (dlr_timezone x) \<noteq> None"
  shows "\<exists>res u. book_in_tx rt sch req s = (res, u) \<and> verdict rt env req v res"
proof -
  have ab: "\<not> pg_aborted s" using s(2) by (simp add: idle_def)
  have key': "rq_IdempotencyKey req \<noteq> []" using key by (auto simp: is_uuid_def)
  have scripts: "foreign_script env" "keyless_script env" using quiet_scripts [OF env(1)] by simp_all
  obtain d st vh c iv where l: "dealership env (rq_DealershipID req) s = (Inr d, tick 2 s)"
    "serviceType env (rq_ServiceTypeID req) (tick 2 s) = (Inr st, tick 3 s)"
    "vehicleWithOwner env (rq_DealershipID req) (rq_VehicleID req) (tick 3 s) = (Inr (vh, c), tick 4 s)"
    "ValidateBookingTime (rq_StartTime req) (st_Duration st) (sch_now sch (tick 4 s)) (dl_Location d) (dl_Hours d) = Inr iv"
    by (rule quiet_lookups [OF env ab adm])
  have isu: "is_uuid (rq_DealershipID req)" using l(1) by (auto simp: dealership_def split: if_splits)
  let ?body = "book_body rt sch req (sch_now sch (tick 4 s)) (DateOf (iv_start iv) (dl_Location d))
           (booking_query req d vh iv) st (booking_appointment req st vh c iv)"
  have s4: "session_ok (tick 4 s)" "idle (tick 4 s)" "db_keys (pg_db (tick 4 s)) (key_of env req) = Some v"
    using s v(1) by simp_all
  obtain appt out u where tx: "InTx env ?body (tick 4 s) = ((None, appt, out), u)"
    using quiet_replay [OF env s4(1,2) key' key isu s4(3) v(2)] ids zones by (metis surj_pair tick_sel(1))
  have "verdict rt env req v (tx_result None appt out)"
    using InTx_live(1) [OF scripts s4(1,2) key' s4(3) v(2) tx] by simp
  moreover have "book_in_tx rt sch req s = (tx_result None appt out, u)"
    using l tx by (simp add: book_in_tx_def sch Let_def booking_query_def booking_appointment_def tx_result_def
      split: option.splits)
  ultimately show ?thesis by blast
qed

text \<open>A session that nothing disturbs.\<close>

definition calm :: "pg_env \<Rightarrow> pg_env" where
  "calm env = env\<lparr>pe_script := (\<lambda>n. quiet_event)\<rparr>"

lemma calm_sel [simp]:
  "quiet (calm env)" "env_ok (calm env) = env_ok env" "uuid_arg (calm env) = uuid_arg env"
  "timestamptz (calm env) = timestamptz env" "key_of (calm env) = key_of env"
  "pe_load_location (calm env) = pe_load_location env" "adds_nothing (calm env) = adds_nothing env"
  by (simp_all add: calm_def quiet_def env_ok_def uuid_arg_def [abs_def] timestamptz_def [abs_def] key_of_def [abs_def]
      adds_nothing_def [abs_def] generated_def)

lemma calm_admissible [simp]: "request_admissible (calm env) = request_admissible env"
proof -
  have "select_by_uuid (calm env) c i rs = select_by_uuid env c i rs" for c :: "'a \<Rightarrow> string" and i rs
    by (simp add: select_by_uuid_def)
  moreover have "vehicle_with_owner (calm env) = vehicle_with_owner env"
    by (intro ext) (simp add: vehicle_with_owner_def)
  ultimately show ?thesis
    by (intro ext) (simp add: request_admissible_def select_by_uuid_def)
qed

lemma calm_verdict [simp]: "verdict rt (calm env) = verdict rt env"
  by (intro ext) (simp add: verdict_def split: sum.splits)

text \<open>What a booking with a key that succeeded leaves behind.\<close>

lemma keyed_booking_leaves:
  assumes "env_ok env" "foreign_script env" "keyless_script env" "session_ok s" "idle s"
    and "sch_repo sch = Repository env" "beside (sch_metrics sch)" "rq_IdempotencyKey req \<noteq> []"
    and "Book rt sch req s = (Inr a, t)"
  shows "recorded rt env req (pg_db t) (ap_ID a)" "session_ok t" "idle t"
    "\<exists>w. request_admissible env req (sch_now sch w) (pg_db t)"
proof -
  obtain x y s' where 1: "book_in_tx rt sch req (s\<lparr>pg.more := x\<rparr>) = (Inr a, s')" "t = s'\<lparr>pg.more := y\<rparr>"
    using Book_cases [OF assms(9,7)] by blast
  obtain v1 day1 q1 st1 na1 where v1: "tx_steps env (s\<lparr>pg.more := x\<rparr>) v1" "session_ok v1" "idle v1"
      "InTx env (book_body rt sch req (sch_now sch v1) day1 q1 st1 na1) v1 = ((None, a, None), s')"
    by (rule book_in_tx_success [OF _ _ assms(6) 1(1)]) (use assms(4,5) in simp_all)
  show "recorded rt env req (pg_db t) (ap_ID a)"
    using booking_tx_records [OF assms(1,3) v1(2,3) assms(8) v1(4)] 1(2) by simp
  have "ok_kept s t" by (rule ok.session_steps_R [OF Book_steps [OF assms(6,7,9)]])
  then show "session_ok t" using assms(4) by (simp add: ok_kept_def)
  show "idle t" using book_in_tx_adds(1) [OF assms(1,2) _ _ assms(6) 1(1)] assms(4,5) 1(2) by simp
  have cat: "same_catalogue (pg_db s) (pg_db t)" by (rule session_frame [OF Book_steps [OF assms(6,7,9)]])
  from 1(1) show "\<exists>w. request_admissible env req (sch_now sch w) (pg_db t)"
  proof (cases rule: book_in_tx_cases)
    case (in_tx d s1 st s2 v c s3 iv r appt out)
    from reached_admissible [OF in_tx(1-4) [unfolded assms(6) Repository_sel]] show ?thesis
      using request_admissible_catalogue [OF cat] by auto
  qed simp_all
qed

text \<open>A retry that succeeds, whatever interferes.\<close>

lemma successful_retry:
  assumes "env_ok env" "foreign_script env" "keyless_script env" "session_ok s" "idle s"
    and "sch_repo sch = Repository env" "beside (sch_metrics sch)" "rq_IdempotencyKey req \<noteq> []"
    and "Book rt sch req s = (Inr a, t)" "Book rt sch req t = (Inr b, u)"
    and "\<And>v w. db_keys (pg_db t) (key_of env req) = Some v \<Longrightarrow> timestamptz env (sch_now sch w) < kr_expires v"
  shows "ap_ID b = ap_ID a \<and> adds_nothing env t u"
proof -
  note left = keyed_booking_leaves [OF assms(1-9)]
  note rec = left(1) and t = left(2,3)
  obtain w z u' where 2: "book_in_tx rt sch req (t\<lparr>pg.more := w\<rparr>) = (Inr b, u')" "u = u'\<lparr>pg.more := z\<rparr>"
    using Book_cases [OF assms(10,7)] by blast
  obtain v2 day2 q2 st2 na2 where v2: "tx_steps env (t\<lparr>pg.more := w\<rparr>) v2" "session_ok v2" "idle v2"
      "InTx env (book_body rt sch req (sch_now sch v2) day2 q2 st2 na2) v2 = ((None, b, None), u')"
    by (rule book_in_tx_success [OF _ _ assms(6) 2(1)]) (use t in simp_all)
  have k: "db_keys (pg_db v2) = db_keys (pg_db t)" using keys_steps [OF assms(3) v2(1)] by simp
  have g: "generated env (pg_db v2) = generated env (pg_db t)" using generated_steps [OF assms(2) v2(1)] by simp
  have rec2: "recorded rt env req (pg_db v2) (ap_ID a)" using rec by (simp add: recorded_def k)
  note R = booking_tx_replays [OF assms(1-3) v2(2,3) assms(8) rec2 _ v2(4)]
  have live: "timestamptz env (sch_now sch v2) < kr_expires v" if "db_keys (pg_db v2) (key_of env req) = Some v" for v
    using assms(11) that k by simp
  show ?thesis using R [OF live] g 2(2) by (simp add: adds_nothing_def)
qed

lemma undisturbed_retry:
  assumes "env_ok env" "session_ok t" "idle t" "beside (sch_metrics sch)" "recorded rt env req (pg_db t) ident"
    and "is_uuid (rq_IdempotencyKey req)" "\<And>w. request_admissible env req (sch_now sch w) (pg_db t)"
    and "\<And>v w. db_keys (pg_db t) (key_of env req) = Some v \<Longrightarrow> timestamptz env (sch_now sch w) < kr_expires v"
    and "\<forall>r \<in> set (db_appointments (pg_db t)). canonical (row_id r)"
    and "\<forall>x \<in> set (db_dealerships (pg_db t)). pe_load_location env (dlr_timezone x) \<noteq> None"
  shows "\<exists>b u. Book rt (sch\<lparr>sch_repo := Repository (calm env)\<rparr>) req t = (Inr b, u) \<and> ap_ID b = ident \<and> adds_nothing env t u"
proof -
  let ?sch = "sch\<lparr>sch_repo := Repository (calm env)\<rparr>"
  obtain res u where b: "Book rt ?sch req t = (res, u)" by fastforce
  have beside: "beside (sch_metrics ?sch)" using assms(4) by simp
  obtain x y w where 1: "book_in_tx rt ?sch req (t\<lparr>pg.more := x\<rparr>) = (res, w)" "u = w\<lparr>pg.more := y\<rparr>"
    using Book_cases [OF b beside] by blast
  obtain v i where v: "db_keys (pg_db t) (key_of env req) = Some v" "kr_fingerprint v = fingerprint rt req"
      "kr_appointment v = Some i" "i \<noteq> []" "ident = uuid_arg env i"
    using assms(5) unfolding recorded_def by blast
  have key: "rq_IdempotencyKey req \<noteq> []" using assms(6) by (auto simp: is_uuid_def)
  have scripts: "foreign_script (calm env)" "keyless_script (calm env)" using quiet_scripts [OF calm_sel(1)] by simp_all
  have "\<exists>res u. book_in_tx rt ?sch req (t\<lparr>pg.more := x\<rparr>) = (res, u) \<and> verdict rt (calm env) req v res"
    by (rule quiet_live_booking) (use assms(1-3,6-10) v(1) in simp_all)
  then have "verdict rt env req v res" using 1(1) by simp
  then obtain b' where res: "res = Inr b'" "ap_ID b' = ident"
    using v(2-5) by (cases res) (auto simp: verdict_def)
  have "adds_nothing (calm env) (t\<lparr>pg.more := x\<rparr>) w"
    using book_in_tx_live [OF scripts _ _ _ key _ _ 1(1)] assms(2,3,8) v(1) by simp
  then show ?thesis using b res 1(2) by simp
qed


section \<open>Properties\<close>




section \<open>A key that was used\<close>

lemma recorded_session: "session_ok sample_recorded" "idle sample_recorded"
proof -
  obtain n where n: "booked sample_key sample_pg = (Inr sample_booked, tick n sample_recorded)" using sample_books_key ..
  have "ok_kept sample_pg (tick n sample_recorded)"
    by (rule ok.session_steps_R [OF Book_steps [OF sample_sel(1) sample_beside n [unfolded booked_def]]])
  then show "session_ok sample_recorded" using sample_session(1) by (simp add: ok_kept_def tick_def)
  show "idle sample_recorded" by (simp add: idle_def sample_after_def sample_pg_def)
qed

text \<open>The sample booking, an hour later under the same key.\<close>

definition later_request :: book_request where
  "later_request = (sample_request sample_key)\<lparr>rq_StartTime := go_date 2030 3 4 10 0 0 0 ict\<rparr>"

lemma recorded_stored:
  "\<forall>r \<in> set (db_appointments (pg_db sample_recorded)). canonical (row_id r)"
  "\<forall>x \<in> set (db_dealerships d). pe_load_location sample_env (dlr_timezone x) \<noteq> None"
  by (simp_all add: sample_canonical sample_row_def)

lemma later_admissible: "request_admissible sample_env later_request (go_date 2030 3 4 7 0 0 0 ict) (pg_db sample_recorded)"
proof -
  let ?start = "go_date 2030 3 4 10 0 0 0 ict"
  have cat: "same_catalogue (pg_db sample_recorded) sample_db" by simp
  have d: "DateOf ?start ict = sample_date" by code_simp
  have t: "t_ns ?start = 1898823600000000000" "t_ns (go_date 2030 3 4 7 0 0 0 ict) = 1898812800000000000"
    "t_ns (go_date 2030 3 4 0 480 0 0 ict) = 1898816400000000000" "t_ns (go_date 2030 3 4 0 1020 0 0 ict) = 1898848800000000000"
    by code_simp+
  have v: "\<exists>iv. ValidateBookingTime ?start (st_Duration alignment_service) (go_date 2030 3 4 7 0 0 0 ict) ict
      (dl_Hours sample_dealership) = Inr iv"
    unfolding ValidateBookingTime_Inr d using sample_opening by (simp add: t)
  then obtain iv where v: "ValidateBookingTime ?start (st_Duration alignment_service) (go_date 2030 3 4 7 0 0 0 ict)
      (dl_Location sample_dealership) (dl_Hours sample_dealership) = Inr iv" by (auto simp: sample_dealership_def)
  have ids: "rq_DealershipID later_request = sample_id (CHR ''d'')" "rq_ServiceTypeID later_request = sample_id (CHR ''5'')"
    "rq_VehicleID later_request = sample_id (CHR ''8'')" "rq_StartTime later_request = ?start"
    by (simp_all add: later_request_def sample_request_def)
  show ?thesis
    by (rule reached_admissible [where req = later_request, unfolded ids, OF sample_dealership_found sample_service_found sample_vehicle_found v])
      (simp_all add: sample_after_def sample_pg_def same_catalogue_iff)
qed

lemma later_fingerprint: "kr_fingerprint sample_key_row \<noteq> fingerprint sample_runtime later_request"
proof -
  have "format_rfc3339_nano (in_loc (go_date 2030 3 4 9 0 0 0 ict) UTC) \<noteq>
      format_rfc3339_nano (in_loc (go_date 2030 3 4 10 0 0 0 ict) UTC)" by code_simp
  then show ?thesis
    by (simp add: sample_key_row_def row_of_record_def outcome_record_def Let_def fingerprint_def fingerprint_text_def
        sample_runtime_def later_request_def sample_request_def)
qed

lemma calm_sample [simp]: "calm sample_env = sample_env"
  by (simp add: calm_def sample_env_def)



end
