(* ===== verification/Migrate.thy ===== *)
theory Migrate
  imports Session "HOL-Library.Sublist"
begin

text \<open>
  \<^verbatim>\<open>internal/repository/postgres/migrate.go\<close>: the embedded migrations and the seed. The directory of
  embedded files, what a script does to the schema and which statements fail come from outside; the
  schema itself is an arbitrary type. The state is the database at the moment the session-level lock is
  granted: while it is held no other migrator acts.
\<close>

section \<open>Files\<close>

record dir_entry =
  de_Name :: string
  de_IsDir :: bool

record embed_fs =
  ef_ReadDir :: "string \<Rightarrow> go_error + dir_entry list"
  ef_ReadFile :: "string \<Rightarrow> go_error + string"

definition sortedSQLFiles :: "embed_fs \<Rightarrow> string \<Rightarrow> go_error + string list" where
  "sortedSQLFiles fsys dir =
     (case ef_ReadDir fsys dir of
        Inl err \<Rightarrow> Inl (EWrap (''read '' @ dir) err)
      | Inr entries \<Rightarrow> Inr (sort (map de_Name (filter (\<lambda>e. \<not> de_IsDir e) entries))))"

section \<open>The database of the migrations\<close>

record 's mig =
  mg_schema :: 's
  mg_versions :: "string list option"
  mg_locked :: bool
  mg_tick :: nat

record 's mig_env =
  me_exec :: "string \<Rightarrow> 's \<Rightarrow> go_error + 's"
  me_acquire :: "failure option"
  me_fail :: "nat \<Rightarrow> failure option"
  me_lost_ack :: "nat \<Rightarrow> bool"

text \<open>\<^verbatim>\<open>schema_migrations\<close> before it is created holds no version.\<close>

definition versions :: "'s mig \<Rightarrow> string list" where
  "versions s = (case mg_versions s of None \<Rightarrow> [] | Some vs \<Rightarrow> vs)"

definition mig_statement ::
  "'s mig_env \<Rightarrow> ('s mig \<Rightarrow> (go_error + 'a) \<times> 's mig) \<Rightarrow> 's mig \<Rightarrow> (go_error + 'a) \<times> 's mig" where
  "mig_statement env run s =
     (let s1 = s\<lparr>mg_tick := Suc (mg_tick s)\<rparr> in
      case me_fail env (mg_tick s) of Some f \<Rightarrow> (Inl (failure_error f), s1) | None \<Rightarrow> run s1)"

definition create_versions :: "'s mig_env \<Rightarrow> 's mig \<Rightarrow> (go_error + unit) \<times> 's mig" where
  "create_versions env = mig_statement env (\<lambda>s. (Inr (), s\<lparr>mg_versions := Some (versions s)\<rparr>))"

definition version_applied :: "'s mig_env \<Rightarrow> string \<Rightarrow> 's mig \<Rightarrow> (go_error + bool) \<times> 's mig" where
  "version_applied env name = mig_statement env (\<lambda>s. (Inr (name \<in> set (versions s)), s))"

definition exec_script :: "'s mig_env \<Rightarrow> string \<Rightarrow> 's mig \<Rightarrow> (go_error + unit) \<times> 's mig" where
  "exec_script env body = mig_statement env (\<lambda>s.
     (case me_exec env body (mg_schema s) of Inl err \<Rightarrow> (Inl err, s) | Inr x \<Rightarrow> (Inr (), s\<lparr>mg_schema := x\<rparr>)))"

definition insert_version :: "'s mig_env \<Rightarrow> string \<Rightarrow> 's mig \<Rightarrow> (go_error + unit) \<times> 's mig" where
  "insert_version env name = mig_statement env (\<lambda>s.
     (if name \<in> set (versions s) then (Inl (EPg (pg_error_of ''23505'' ''schema_migrations_pkey'')), s)
      else (Inr (), s\<lparr>mg_versions := Some (versions s @ [name])\<rparr>)))"

text \<open>
  \<^verbatim>\<open>pgx.BeginFunc\<close>: the function between BEGIN and COMMIT; its error rolls everything back, and a
  commit can be applied and its answer lost.
\<close>

definition begin_func ::
  "'s mig_env \<Rightarrow> ('s mig \<Rightarrow> go_error option \<times> 's mig) \<Rightarrow> 's mig \<Rightarrow> go_error option \<times> 's mig" where
  "begin_func env body s =
     (case mig_statement env (\<lambda>s. (Inr (), s)) s of
        (Inl err, s1) \<Rightarrow> (Some err, s1)
      | (Inr _, s1) \<Rightarrow>
          (case body s1 of
             (Some err, s2) \<Rightarrow> (Some err, s1\<lparr>mg_tick := Suc (mg_tick s2)\<rparr>)
           | (None, s2) \<Rightarrow>
               (case me_fail env (mg_tick s2) of
                  None \<Rightarrow> (None, s2\<lparr>mg_tick := Suc (mg_tick s2)\<rparr>)
                | Some f \<Rightarrow>
                    (Some (failure_error f),
                     if me_lost_ack env (mg_tick s2) then s2\<lparr>mg_tick := Suc (mg_tick s2)\<rparr>
                     else s1\<lparr>mg_tick := Suc (mg_tick s2)\<rparr>))))"

section \<open>Migrate\<close>

definition migration_tx :: "'s mig_env \<Rightarrow> string \<Rightarrow> string \<Rightarrow> 's mig \<Rightarrow> go_error option \<times> 's mig" where
  "migration_tx env name body s =
     (case exec_script env body s of
        (Inl err, s1) \<Rightarrow> (Some err, s1)
      | (Inr _, s1) \<Rightarrow>
          (case insert_version env name s1 of
             (Inl err, s2) \<Rightarrow> (Some err, s2)
           | (Inr _, s2) \<Rightarrow> (None, s2)))"

primrec migrate_loop ::
  "'s mig_env \<Rightarrow> embed_fs \<Rightarrow> string list \<Rightarrow> 's mig \<Rightarrow> go_error option \<times> 's mig" where
  "migrate_loop env fsys [] s = (None, s)"
| "migrate_loop env fsys (name # names) s =
     (case version_applied env name s of
        (Inl err, s1) \<Rightarrow> (Some (EWrap (''check migration '' @ name) err), s1)
      | (Inr True, s1) \<Rightarrow> migrate_loop env fsys names s1
      | (Inr False, s1) \<Rightarrow>
          (case ef_ReadFile fsys (''migrations/'' @ name) of
             Inl err \<Rightarrow> (Some (EWrap (''read migration '' @ name) err), s1)
           | Inr body \<Rightarrow>
               (case begin_func env (migration_tx env name body) s1 of
                  (Some err, s2) \<Rightarrow> (Some (EWrap (''apply migration '' @ name) err), s2)
                | (None, s2) \<Rightarrow> migrate_loop env fsys names s2)))"

definition migrate_locked :: "'s mig_env \<Rightarrow> embed_fs \<Rightarrow> 's mig \<Rightarrow> go_error option \<times> 's mig" where
  "migrate_locked env fsys s =
     (case create_versions env s of
        (Inl err, s1) \<Rightarrow> (Some (EWrap ''create schema_migrations'' err), s1)
      | (Inr _, s1) \<Rightarrow>
          (case sortedSQLFiles fsys ''migrations'' of
             Inl err \<Rightarrow> (Some err, s1)
           | Inr names \<Rightarrow> migrate_loop env fsys names s1))"

text \<open>The lock is released on every path by the deferred unlock.\<close>

definition pg_advisory_unlock :: "'s mig_env \<Rightarrow> 's mig \<Rightarrow> 's mig" where
  "pg_advisory_unlock env s = snd (mig_statement env (\<lambda>s. (Inr (), s\<lparr>mg_locked := False\<rparr>)) s)"

definition Migrate :: "'s mig_env \<Rightarrow> embed_fs \<Rightarrow> 's mig \<Rightarrow> go_error option \<times> 's mig" where
  "Migrate env fsys s =
     (case me_acquire env of
        Some f \<Rightarrow> (Some (EWrap ''acquire connection'' (failure_error f)), s)
      | None \<Rightarrow>
          (case mig_statement env (\<lambda>s. (Inr (), s\<lparr>mg_locked := True\<rparr>)) s of
             (Inl err, s1) \<Rightarrow> (Some (EWrap ''acquire migration lock'' err), s1)
           | (Inr _, s1) \<Rightarrow>
               (case migrate_locked env fsys s1 of (err, s2) \<Rightarrow> (err, pg_advisory_unlock env s2))))"

section \<open>Seed\<close>

primrec seed_loop ::
  "'s mig_env \<Rightarrow> embed_fs \<Rightarrow> string list \<Rightarrow> 's mig \<Rightarrow> go_error option \<times> 's mig" where
  "seed_loop env fsys [] s = (None, s)"
| "seed_loop env fsys (name # names) s =
     (case ef_ReadFile fsys (''seed/'' @ name) of
        Inl err \<Rightarrow> (Some (EWrap (''read seed '' @ name) err), s)
      | Inr body \<Rightarrow>
          (case exec_script env body s of
             (Inl err, s1) \<Rightarrow> (Some (EWrap (''apply seed '' @ name) err), s1)
           | (Inr _, s1) \<Rightarrow> seed_loop env fsys names s1))"

definition Seed :: "'s mig_env \<Rightarrow> embed_fs \<Rightarrow> 's mig \<Rightarrow> go_error option \<times> 's mig" where
  "Seed env fsys s =
     (case sortedSQLFiles fsys ''seed'' of
        Inl err \<Rightarrow> (Some err, s)
      | Inr names \<Rightarrow> begin_func env (seed_loop env fsys names) s)"

section \<open>What a run of the migrations does\<close>

text \<open>The reference: the scripts of a list of files, run in order, without a failure.\<close>

fun run_scripts :: "'s mig_env \<Rightarrow> embed_fs \<Rightarrow> string \<Rightarrow> string list \<Rightarrow> 's \<Rightarrow> 's option" where
  "run_scripts env fsys dir [] x = Some x"
| "run_scripts env fsys dir (name # names) x =
     (case ef_ReadFile fsys (dir @ name) of
        Inl _ \<Rightarrow> None
      | Inr body \<Rightarrow>
          (case me_exec env body x of Inl _ \<Rightarrow> None | Inr y \<Rightarrow> run_scripts env fsys dir names y))"

definition pending :: "string list \<Rightarrow> string list \<Rightarrow> string list" where
  "pending names vs = filter (\<lambda>n. n \<notin> set vs) names"

text \<open>The first of the pending files have been applied, all of them when there is no error.\<close>

definition applied_prefix ::
  "'s mig_env \<Rightarrow> embed_fs \<Rightarrow> string list \<Rightarrow> 's mig \<Rightarrow> go_error option \<Rightarrow> 's mig \<Rightarrow> bool" where
  "applied_prefix env fsys names s err t \<longleftrightarrow>
     (\<exists>ran. prefix ran (pending names (versions s)) \<and> versions t = versions s @ ran \<and>
        run_scripts env fsys ''migrations/'' ran (mg_schema s) = Some (mg_schema t) \<and>
        (err = None \<longrightarrow> ran = pending names (versions s)))"

lemma versions_sel [simp]:
  "versions (s\<lparr>mg_tick := n\<rparr>) = versions s" "versions (s\<lparr>mg_schema := x\<rparr>) = versions s"
  "versions (s\<lparr>mg_locked := b\<rparr>) = versions s" "versions (s\<lparr>mg_versions := Some vs\<rparr>) = vs"
  by (simp_all add: versions_def)

lemmas statement_defs = mig_statement_def create_versions_def version_applied_def exec_script_def insert_version_def Let_def

text \<open>A migration is applied whole or not at all, and recorded when it is applied.\<close>

lemma migration_tx_cases:
  assumes "begin_func env (migration_tx env name body) s = (err, t)"
  obtains "err \<noteq> None" "versions t = versions s" "mg_schema t = mg_schema s"
  | x where "name \<notin> set (versions s)" "me_exec env body (mg_schema s) = Inr x"
    "versions t = versions s @ [name]" "mg_schema t = x"
  using assms
  by (auto simp: begin_func_def migration_tx_def statement_defs split: option.splits sum.splits prod.splits if_splits)

lemma version_applied_cases:
  assumes "version_applied env name s = (r, t)"
  shows "versions t = versions s \<and> mg_schema t = mg_schema s"
    and "r = Inr b \<Longrightarrow> b \<longleftrightarrow> name \<in> set (versions s)"
  using assms by (auto simp: statement_defs split: option.splits)

lemma applied_none: "err \<noteq> None \<Longrightarrow> versions t = versions s \<Longrightarrow> mg_schema t = mg_schema s \<Longrightarrow>
    applied_prefix env fsys names s err t"
  by (auto simp: applied_prefix_def intro!: exI [of _ "[]"])

lemma applied_skip:
  "applied_prefix env fsys names s1 err t \<Longrightarrow> versions s1 = versions s \<Longrightarrow> mg_schema s1 = mg_schema s \<Longrightarrow>
    name \<in> set (versions s) \<Longrightarrow> applied_prefix env fsys (name # names) s err t"
  by (simp add: applied_prefix_def pending_def)

lemma applied_first:
  assumes "applied_prefix env fsys names s1 err t" "versions s1 = versions s @ [name]" "name \<notin> set (versions s)"
    and "ef_ReadFile fsys (''migrations/'' @ name) = Inr body" "me_exec env body (mg_schema s) = Inr (mg_schema s1)"
    and "name \<notin> set names"
  shows "applied_prefix env fsys (name # names) s err t"
proof -
  obtain ran where ran: "prefix ran (pending names (versions s1))" "versions t = versions s1 @ ran"
    "run_scripts env fsys ''migrations/'' ran (mg_schema s1) = Some (mg_schema t)"
    "err = None \<longrightarrow> ran = pending names (versions s1)"
    using assms(1) unfolding applied_prefix_def by blast
  have "pending names (versions s @ [name]) = pending names (versions s)"
    using assms(6) by (auto simp: pending_def intro!: filter_cong)
  then have "pending (name # names) (versions s) = name # pending names (versions s1)"
    using assms(2,3) by (simp add: pending_def)
  then show ?thesis
    unfolding applied_prefix_def using ran assms by (intro exI [of _ "name # ran"]) simp
qed

lemma migrate_loop_applies:
  "migrate_loop env fsys names s = (err, t) \<Longrightarrow> distinct names \<Longrightarrow> applied_prefix env fsys names s err t"
proof (induction names arbitrary: s)
  case Nil
  then show ?case by (simp add: applied_prefix_def pending_def)
next
  case (Cons name names)
  obtain r s1 where 1: "version_applied env name s = (r, s1)" by fastforce
  note same = version_applied_cases(1) [OF 1] and r = version_applied_cases(2) [OF 1]
  consider (fail) e where "r = Inl e" | (skip) "r = Inr True" | (fresh) "r = Inr False" by (metis (full_types) sumE)
  then show ?case
  proof cases
    case fail
    then show ?thesis using Cons.prems 1 same by (auto intro: applied_none)
  next
    case skip
    then show ?thesis using Cons 1 same r [OF skip] by (auto intro: applied_skip)
  next
    case fresh
    have new: "name \<notin> set (versions s)" using r [OF fresh] by simp
    show ?thesis
    proof (cases "ef_ReadFile fsys (''migrations/'' @ name)")
      case (Inl e)
      then show ?thesis using Cons.prems 1 same fresh by (auto intro: applied_none)
    next
      case (Inr body)
      obtain e s2 where 2: "begin_func env (migration_tx env name body) s1 = (e, s2)" by fastforce
      have rest: "err \<noteq> None \<and> t = s2 \<or> e = None \<and> migrate_loop env fsys names s2 = (err, t)"
        using Cons.prems(1) 1 2 fresh Inr by (auto split: option.splits)
      from 2 show ?thesis
      proof (cases rule: migration_tx_cases)
        case 1
        then show ?thesis using rest same by (auto intro: applied_none)
      next
        case (2 x)
        have "applied_prefix env fsys names s2 err t" using rest Cons by (auto intro: applied_none)
        then show ?thesis using 2 same new Inr Cons.prems(2) by (intro applied_first [of env fsys names s2]) simp_all
      qed
    qed
  qed
qed

lemma applied_unlock [simp]:
  "applied_prefix env fsys names s err (pg_advisory_unlock env u) = applied_prefix env fsys names s err u"
  by (auto simp: applied_prefix_def pg_advisory_unlock_def mig_statement_def Let_def split: option.split)

lemma migrate_locked_applies:
  assumes "sortedSQLFiles fsys ''migrations'' = Inr names" "distinct names" "migrate_locked env fsys s = (err, t)"
  shows "applied_prefix env fsys names s err t"
  using assms migrate_loop_applies [OF _ assms(2), of env fsys _ err t]
  by (auto simp: migrate_locked_def create_versions_def mig_statement_def Let_def applied_prefix_def
      split: option.splits intro: exI [of _ "[]"]) fastforce

lemma Migrate_applies:
  assumes "sortedSQLFiles fsys ''migrations'' = Inr names" "distinct names" "Migrate env fsys s = (err, t)"
  shows "applied_prefix env fsys names s err t"
proof -
  have "applied_prefix env fsys names s err u" if "migrate_locked env fsys s1 = (err, u)"
    "versions s1 = versions s" "mg_schema s1 = mg_schema s" for s1 u
    using migrate_locked_applies [OF assms(1,2) that(1)] that(2,3) by (simp add: applied_prefix_def)
  then show ?thesis
    using assms(3) by (auto simp: Migrate_def mig_statement_def Let_def intro: applied_none split: option.splits prod.splits)
qed

lemma pending_Nil: "pending names (vs @ pending names vs) = []"
  by (auto simp: pending_def filter_empty_conv)

lemma sorted_files:
  assumes "ef_ReadDir fsys dir = Inr entries" "distinct (map de_Name entries)"
  shows "sortedSQLFiles fsys dir = Inr (sort (map de_Name (filter (\<lambda>e. \<not> de_IsDir e) entries)))"
    and "distinct (sort (map de_Name (filter (\<lambda>e. \<not> de_IsDir e) entries)))"
  using assms by (simp_all add: sortedSQLFiles_def distinct_map_filter)

text \<open>The seed is loaded whole or not at all.\<close>

lemma seed_loop_runs:
  "seed_loop env fsys names s = (None, t) \<Longrightarrow>
    run_scripts env fsys ''seed/'' names (mg_schema s) = Some (mg_schema t) \<and> versions t = versions s"
proof (induction names arbitrary: s)
  case (Cons name names)
  then show ?case
    by (auto simp: exec_script_def mig_statement_def Let_def split: sum.splits option.splits) fastforce+
qed simp

lemma Seed_all_or_nothing:
  assumes "Seed env fsys s = (err, t)" "sortedSQLFiles fsys ''seed'' = Inr names"
  shows "versions t = versions s \<and> (run_scripts env fsys ''seed/'' names (mg_schema s) = Some (mg_schema t) \<or>
    err \<noteq> None \<and> mg_schema t = mg_schema s)"
  using assms seed_loop_runs [of env fsys names "s\<lparr>mg_tick := Suc (mg_tick s)\<rparr>"]
  by (auto simp: Seed_def begin_func_def mig_statement_def Let_def split: option.splits prod.splits if_splits)

section \<open>Properties\<close>

text \<open>C27: whatever statement fails and at whatever point, a run of the migrations has applied the first of
  the files not recorded before, in the order of their names, each whole and recorded; without an
  error it has applied all of them, and any further run changes nothing.\<close>

theorem migrate_applies_pending:
  assumes "ef_ReadDir fsys ''migrations'' = Inr entries" "distinct (map de_Name entries)"
    and "Migrate env fsys s = (err, t)"
  shows "\<exists>ran. prefix ran (pending (sort (map de_Name (filter (\<lambda>e. \<not> de_IsDir e) entries))) (versions s)) \<and>
    versions t = versions s @ ran \<and>
    run_scripts env fsys ''migrations/'' ran (mg_schema s) = Some (mg_schema t) \<and>
    (err = None \<longrightarrow> ran = pending (sort (map de_Name (filter (\<lambda>e. \<not> de_IsDir e) entries))) (versions s) \<and>
      (\<forall>env' err' u. Migrate env' fsys t = (err', u) \<longrightarrow> versions u = versions t \<and> mg_schema u = mg_schema t))"
proof -
  note files = sorted_files [OF assms(1,2)]
  obtain ran where ran: "prefix ran (pending (sort (map de_Name (filter (\<lambda>e. \<not> de_IsDir e) entries))) (versions s))"
    "versions t = versions s @ ran" "run_scripts env fsys ''migrations/'' ran (mg_schema s) = Some (mg_schema t)"
    "err = None \<longrightarrow> ran = pending (sort (map de_Name (filter (\<lambda>e. \<not> de_IsDir e) entries))) (versions s)"
    using Migrate_applies [OF files assms(3)] unfolding applied_prefix_def by blast
  have "versions u = versions t \<and> mg_schema u = mg_schema t" if "err = None" "Migrate env' fsys t = (err', u)" for env' err' u
    using Migrate_applies [OF files that(2)] ran(2,4) that(1) by (auto simp: applied_prefix_def pending_Nil)
  then show ?thesis using ran by (intro exI [of _ ran]) blast
qed

definition sample_fs :: embed_fs where
  "sample_fs = \<lparr>ef_ReadDir = (\<lambda>dir. Inr [\<lparr>de_Name = ''0002.sql'', de_IsDir = False\<rparr>, \<lparr>de_Name = ''0001.sql'', de_IsDir = False\<rparr>,
     \<lparr>de_Name = ''old'', de_IsDir = True\<rparr>]), ef_ReadFile = Inr\<rparr>"

definition sample_mig_env :: "string list mig_env" where
  "sample_mig_env = \<lparr>me_exec = (\<lambda>body x. Inr (x @ [body])), me_acquire = None, me_fail = (\<lambda>n. None), me_lost_ack = (\<lambda>n. False)\<rparr>"

definition sample_mig :: "string list mig" where
  "sample_mig = \<lparr>mg_schema = [], mg_versions = None, mg_locked = False, mg_tick = 0\<rparr>"

lemma sample_migrated: "\<exists>t. Migrate sample_mig_env sample_fs sample_mig = (None, t)"
proof -
  have "sortedSQLFiles sample_fs ''migrations'' = Inr [''0001.sql'', ''0002.sql'']"
    by (simp add: sortedSQLFiles_def sample_fs_def)
  then show ?thesis
    by (simp add: Migrate_def migrate_locked_def statement_defs begin_func_def migration_tx_def sample_mig_env_def
        sample_fs_def sample_mig_def versions_def)
qed

theorem migrate_applies_pending_witness:
  "\<exists>t. Migrate sample_mig_env sample_fs sample_mig = (None, t) \<and> versions t = [''0001.sql'', ''0002.sql'']"
proof -
  obtain t where t: "Migrate sample_mig_env sample_fs sample_mig = (None, t)" using sample_migrated by blast
  have p: "pending (sort [''0002.sql'', ''0001.sql'']) [] = [''0001.sql'', ''0002.sql'']" by code_simp
  show ?thesis
    using migrate_applies_pending [OF _ _ t] p t by (auto simp: sample_fs_def sample_mig_def versions_def)
qed

end
