(* ===== verification/Startup.thy ===== *)
theory Startup
  imports Migrate
begin

text \<open>
  The start of the server: \<^verbatim>\<open>internal/config\<close> and the first half of \<^verbatim>\<open>run\<close> in \<^verbatim>\<open>cmd/server/main.go\<close>, up
  to the point where requests are served. The process environment, the clock, the connection to the
  database and the exporter of traces come from outside. The retry loop has no bound in the code; it
  is a partial function, and that it returns is a theorem.
\<close>

section \<open>Configuration\<close>

record config =
  cfg_DatabaseURL :: string
  cfg_HTTPAddr :: string
  cfg_Seed :: bool
  cfg_LogLevel :: string
  cfg_ServiceName :: string
  cfg_OTLPEndpoint :: string
  cfg_ShutdownTimeout :: duration

text \<open>\<^verbatim>\<open>os.Getenv\<close> gives the empty string for a variable that is not set.\<close>

definition envOr :: "(string \<Rightarrow> string) \<Rightarrow> string \<Rightarrow> string \<Rightarrow> string" where
  "envOr getenv key def = (let v = getenv key in if v \<noteq> [] then v else def)"

text \<open>\<^verbatim>\<open>strconv.ParseBool\<close>.\<close>

definition parse_bool :: "string \<Rightarrow> bool option" where
  "parse_bool s =
     (if s \<in> {''1'', ''t'', ''T'', ''TRUE'', ''true'', ''True''} then Some True
      else if s \<in> {''0'', ''f'', ''F'', ''FALSE'', ''false'', ''False''} then Some False
      else None)"

definition FromEnv :: "(string \<Rightarrow> string) \<Rightarrow> go_error + config" where
  "FromEnv getenv =
     (let c = \<lparr>cfg_DatabaseURL = getenv ''DATABASE_URL'', cfg_HTTPAddr = envOr getenv ''HTTP_ADDR'' '':8080'',
               cfg_Seed = False, cfg_LogLevel = envOr getenv ''LOG_LEVEL'' ''info'',
               cfg_ServiceName = envOr getenv ''OTEL_SERVICE_NAME'' ''service-scheduler'',
               cfg_OTLPEndpoint = getenv ''OTEL_EXPORTER_OTLP_ENDPOINT'', cfg_ShutdownTimeout = 15 * second\<rparr> in
      if cfg_DatabaseURL c = [] then Inl (EText ''DATABASE_URL is required'')
      else let v = getenv ''APP_SEED'' in
           if v \<noteq> []
           then case parse_bool v of
                  None \<Rightarrow> Inl (EText (''APP_SEED must be a boolean, got '' @ go_quote v))
                | Some b \<Rightarrow> Inr (c\<lparr>cfg_Seed := b\<rparr>)
           else Inr c)"

section \<open>The level of the log\<close>

text \<open>
  \<^verbatim>\<open>slog.Level.UnmarshalText\<close>: a name in any case, then an optional signed offset. The dotless i (U+0131)
  has the letter I as its upper case.
\<close>

fun upper_name :: "string \<Rightarrow> string" where
  "upper_name [] = []"
| "upper_name (c # s) =
     (if c = CHR 0xC4 \<and> take 1 s = [CHR 0xB1] then CHR ''I'' # upper_name (drop 1 s)
      else (let n = of_char c :: nat in if 97 \<le> n \<and> n \<le> 122 then char_of (n - 32) else c) # upper_name s)"

definition atoi :: "string \<Rightarrow> int option" where
  "atoi s =
     (let neg = (take 1 s = ''-''); ds = (if take 1 s \<in> {''-'', ''+''} then drop 1 s else s) in
      if ds = [] then None
      else case digits_value 0 ds of
             None \<Rightarrow> None
           | Some v \<Rightarrow> let n = (if neg then - v else v) in if min_int64 \<le> n \<and> n \<le> max_int64 then Some n else None)"

definition level_named :: "string \<Rightarrow> int option" where
  "level_named name = map_of [(''DEBUG'', - 4), (''INFO'', 0), (''WARN'', 4), (''ERROR'', 8)] (upper_name name)"

definition is_sign :: "char \<Rightarrow> bool" where
  "is_sign c \<longleftrightarrow> c = CHR ''+'' \<or> c = CHR ''-''"

definition level_of_text :: "string \<Rightarrow> int option" where
  "level_of_text s =
     (let name = takeWhile (\<lambda>c. \<not> is_sign c) s; rest = dropWhile (\<lambda>c. \<not> is_sign c) s in
      case (if rest = [] then Some 0 else atoi rest) of
        None \<Rightarrow> None
      | Some offset \<Rightarrow> (case level_named name of None \<Rightarrow> None | Some l \<Rightarrow> Some (wrap64 (l + offset))))"

definition parseLevel :: "string \<Rightarrow> int" where
  "parseLevel s = (case level_of_text s of None \<Rightarrow> 0 | Some l \<Rightarrow> l)"

section \<open>Connecting to the database\<close>

text \<open>
  What \<^verbatim>\<open>connect\<close> uses: the parsing of the address, the clock, a ping, whether the process has been told
  to stop, and the pause of one second, which ends early with an error when it is.
\<close>

record 'w dial =
  di_New :: "string \<Rightarrow> go_error option"
  di_Now :: "'w \<Rightarrow> int"
  di_Ping :: "'w \<Rightarrow> go_error option \<times> 'w"
  di_Err :: "'w \<Rightarrow> go_error option"
  di_After :: "'w \<Rightarrow> go_error option \<times> 'w"

partial_function (option) connect_loop :: "'w dial \<Rightarrow> int \<Rightarrow> 'w \<Rightarrow> (go_error option \<times> 'w) option" where
  "connect_loop d deadline w =
     (case di_Ping d w of
        (None, w1) \<Rightarrow> Some (None, w1)
      | (Some err, w1) \<Rightarrow>
          if deadline < di_Now d w1 \<or> di_Err d w1 \<noteq> None
          then Some (Some (EWrap ''database not reachable'' err), w1)
          else (case di_After d w1 of
                  (Some err, w2) \<Rightarrow> Some (Some err, w2)
                | (None, w2) \<Rightarrow> connect_loop d deadline w2))"

definition connect :: "'w dial \<Rightarrow> string \<Rightarrow> 'w \<Rightarrow> (go_error option \<times> 'w) option" where
  "connect d url w =
     (case di_New d url of
        Some err \<Rightarrow> Some (Some (EWrap ''parse DATABASE_URL'' err), w)
      | None \<Rightarrow> connect_loop d (di_Now d w + 30 * second) w)"

text \<open>The same loop cut off after a number of pings.\<close>

primrec connect_within :: "nat \<Rightarrow> 'w dial \<Rightarrow> int \<Rightarrow> 'w \<Rightarrow> (go_error option \<times> 'w) option" where
  "connect_within 0 d deadline w = None"
| "connect_within (Suc n) d deadline w =
     (case di_Ping d w of
        (None, w1) \<Rightarrow> Some (None, w1)
      | (Some err, w1) \<Rightarrow>
          if deadline < di_Now d w1 \<or> di_Err d w1 \<noteq> None
          then Some (Some (EWrap ''database not reachable'' err), w1)
          else (case di_After d w1 of
                  (Some err, w2) \<Rightarrow> Some (Some err, w2)
                | (None, w2) \<Rightarrow> connect_within n d deadline w2))"

lemma connect_within_loop:
  "connect_within n d deadline w = Some r \<Longrightarrow> connect_loop d deadline w = Some r"
proof (induction n arbitrary: w)
  case (Suc n)
  then show ?case by (subst connect_loop.simps) (auto split: prod.splits option.splits if_splits)
qed simp

text \<open>The clock does not go back during a ping, and a pause that is not cut short lasts a second.\<close>

definition clock_runs :: "'w dial \<Rightarrow> bool" where
  "clock_runs d \<longleftrightarrow> (\<forall>w. di_Now d w \<le> di_Now d (snd (di_Ping d w))) \<and>
     (\<forall>w. fst (di_After d w) = None \<longrightarrow> di_Now d w + second \<le> di_Now d (snd (di_After d w)))"

lemma clock_runsD:
  assumes "clock_runs d"
  shows "di_Ping d w = (r, w1) \<Longrightarrow> di_Now d w \<le> di_Now d w1"
    and "di_After d w = (None, w1) \<Longrightarrow> di_Now d w + second \<le> di_Now d w1"
  using assms unfolding clock_runs_def by (metis snd_conv fst_conv)+

lemma connect_within_returns:
  assumes "clock_runs d"
  shows "deadline < di_Now d w + int n * second \<Longrightarrow> \<exists>r. connect_within (Suc n) d deadline w = Some r"
proof (induction n arbitrary: w)
  case 0
  obtain r w1 where 1: "di_Ping d w = (r, w1)" by fastforce
  then show ?case using 0 clock_runsD(1) [OF assms 1] by (auto split: option.split)
next
  case (Suc n)
  obtain r w1 where 1: "di_Ping d w = (r, w1)" by fastforce
  obtain q w2 where 2: "di_After d w1 = (q, w2)" by fastforce
  have "\<exists>x. connect_within (Suc n) d deadline w2 = Some x" if "q = None"
    using Suc.prems clock_runsD(1) [OF assms 1] clock_runsD(2) [OF assms 2 [unfolded that]]
    by (intro Suc.IH) (simp add: algebra_simps)
  then show ?case using 1 2 by (auto split: option.split simp del: connect_within.simps simp: connect_within.simps(2) [of "Suc n"])
qed

section \<open>Starting up\<close>

text \<open>
  \<^verbatim>\<open>SetupTracing\<close> (\<^verbatim>\<open>tracing.go\<close>): the resource and, with an endpoint, the exporter are the tracing library's
  and can fail. The result tells whether spans are exported; without an endpoint they are dropped.
\<close>

record tracing_sdk =
  sdk_Merge :: "string \<Rightarrow> go_error option"
  sdk_Exporter :: "go_error option"

definition SetupTracing :: "tracing_sdk \<Rightarrow> string \<Rightarrow> string \<Rightarrow> go_error + bool" where
  "SetupTracing sdk serviceName otlpEndpoint =
     (case sdk_Merge sdk serviceName of
        Some err \<Rightarrow> Inl (EWrap ''otel resource'' err)
      | None \<Rightarrow>
          if otlpEndpoint \<noteq> []
          then (case sdk_Exporter sdk of Some err \<Rightarrow> Inl (EWrap ''otlp exporter'' err) | None \<Rightarrow> Inr True)
          else Inr False)"

text \<open>The limits of the listener; the one on writing leaves room for the 30 seconds the router gives a handler.\<close>

record http_server =
  srv_Addr :: string
  srv_ReadHeaderTimeout :: duration
  srv_ReadTimeout :: duration
  srv_WriteTimeout :: duration
  srv_IdleTimeout :: duration

definition http_server_of :: "config \<Rightarrow> http_server" where
  "http_server_of cfg = \<lparr>srv_Addr = cfg_HTTPAddr cfg, srv_ReadHeaderTimeout = 5 * second, srv_ReadTimeout = 15 * second,
     srv_WriteTimeout = 35 * second, srv_IdleTimeout = 60 * second\<rparr>"

datatype serve_end = ListenFailed go_error | ListenClosed | Interrupted

text \<open>
  \<^verbatim>\<open>run\<close> until it serves: the configuration, tracing, the connection, the migrations and, when asked for,
  the seed. None: still connecting; a left value: the error the process exits with.
\<close>

record ('w, 's) launch =
  la_Getenv :: "string \<Rightarrow> string"
  la_Tracing :: tracing_sdk
  la_Dial :: "'w dial"
  la_Migrations :: "'s mig_env"
  la_Files :: embed_fs
  la_Serve :: "http_server \<Rightarrow> serve_end"
  la_Shutdown :: "duration \<Rightarrow> go_error option"

definition prepare_database :: "('w, 's) launch \<Rightarrow> config \<Rightarrow> 's mig \<Rightarrow> go_error option \<times> 's mig" where
  "prepare_database la cfg s =
     (case Migrate (la_Migrations la) (la_Files la) s of
        (Some err, s1) \<Rightarrow> (Some (EWrap ''migrate'' err), s1)
      | (None, s1) \<Rightarrow>
          if cfg_Seed cfg
          then (case Seed (la_Migrations la) (la_Files la) s1 of
                  (Some err, s2) \<Rightarrow> (Some (EWrap ''seed'' err), s2)
                | (None, s2) \<Rightarrow> (None, s2))
          else (None, s1))"

definition start_server :: "('w, 's) launch \<Rightarrow> 'w \<Rightarrow> 's mig \<Rightarrow> ((go_error + config) \<times> 's mig) option" where
  "start_server la w s =
     (case FromEnv (la_Getenv la) of
        Inl err \<Rightarrow> Some (Inl err, s)
      | Inr cfg \<Rightarrow>
          (case SetupTracing (la_Tracing la) (cfg_ServiceName cfg) (cfg_OTLPEndpoint cfg) of
             Inl err \<Rightarrow> Some (Inl err, s)
           | Inr _ \<Rightarrow>
               (case connect (la_Dial la) (cfg_DatabaseURL cfg) w of
                  None \<Rightarrow> None
                | Some (Some err, w1) \<Rightarrow> Some (Inl err, s)
                | Some (None, w1) \<Rightarrow>
                    (case prepare_database la cfg s of
                       (Some err, t) \<Rightarrow> Some (Inl err, t)
                     | (None, t) \<Rightarrow> Some (Inr cfg, t)))))"

text \<open>
  The whole of \<^verbatim>\<open>run\<close>: serving ends with the listener, failed or closed, or with the signal, after which the
  server has the configured time to finish. \<^verbatim>\<open>main\<close> exits with status 1 on an error.
\<close>

definition run :: "('w, 's) launch \<Rightarrow> 'w \<Rightarrow> 's mig \<Rightarrow> (go_error option \<times> 's mig) option" where
  "run la w s =
     (case start_server la w s of
        None \<Rightarrow> None
      | Some (Inl err, t) \<Rightarrow> Some (Some err, t)
      | Some (Inr cfg, t) \<Rightarrow>
          Some (case la_Serve la (http_server_of cfg) of
                  ListenFailed err \<Rightarrow> Some err
                | ListenClosed \<Rightarrow> None
                | Interrupted \<Rightarrow> la_Shutdown la (cfg_ShutdownTimeout cfg), t))"

definition exit_status :: "go_error option \<Rightarrow> int" where
  "exit_status err = (if err \<noteq> None then 1 else 0)"

lemma run_success:
  assumes "run la w s = Some (err, t)" "exit_status err = 0"
  obtains cfg where "start_server la w s = Some (Inr cfg, t)"
  using assms by (auto simp: run_def exit_status_def split: option.splits sum.splits prod.splits if_splits)

lemma connect_within_pinged:
  "connect_within n d deadline w = Some (None, w1) \<Longrightarrow> \<exists>u. di_Ping d u = (None, w1)"
  by (induction n arbitrary: w) (auto split: prod.splits option.splits if_splits)

lemma FromEnv_Inr:
  assumes "FromEnv getenv = Inr cfg"
  shows "cfg_DatabaseURL cfg = getenv ''DATABASE_URL''" "getenv ''DATABASE_URL'' \<noteq> []"
    and "cfg_Seed cfg \<longleftrightarrow> parse_bool (getenv ''APP_SEED'') = Some True"
  using assms by (auto simp: FromEnv_def Let_def parse_bool_def split: if_splits option.splits)

lemma applied_all:
  assumes "applied_prefix env fsys names s None t"
  shows "set names \<subseteq> set (versions t)"
  using assms by (auto simp: applied_prefix_def pending_def)

lemma prepare_database_done:
  assumes "prepare_database la cfg s = (None, t)" "sortedSQLFiles (la_Files la) ''migrations'' = Inr names" "distinct names"
  obtains s1 where "set names \<subseteq> set (versions t)" "Migrate (la_Migrations la) (la_Files la) s = (None, s1)"
    "\<not> cfg_Seed cfg \<Longrightarrow> t = s1"
    "cfg_Seed cfg \<Longrightarrow> \<exists>seeds. sortedSQLFiles (la_Files la) ''seed'' = Inr seeds \<and>
      run_scripts (la_Migrations la) (la_Files la) ''seed/'' seeds (mg_schema s1) = Some (mg_schema t)"
proof -
  obtain e s1 where 1: "Migrate (la_Migrations la) (la_Files la) s = (e, s1)" by fastforce
  have e: "e = None" using assms(1) 1 by (auto simp: prepare_database_def split: option.splits)
  have all: "set names \<subseteq> set (versions s1)"
    using applied_all Migrate_applies [OF assms(2,3) 1] unfolding e by blast
  show thesis
  proof (cases "cfg_Seed cfg")
    case False
    then have "t = s1" using assms(1) 1 e by (simp add: prepare_database_def)
    then show ?thesis using False all 1 e that by blast
  next
    case True
    have seed: "Seed (la_Migrations la) (la_Files la) s1 = (None, t)"
      using assms(1) 1 e True by (auto simp: prepare_database_def split: prod.splits option.splits)
    then obtain seeds where seeds: "sortedSQLFiles (la_Files la) ''seed'' = Inr seeds"
      by (auto simp: Seed_def split: sum.splits)
    show ?thesis using Seed_all_or_nothing [OF seed seeds] seeds True all 1 e that by auto
  qed
qed

section \<open>Properties\<close>

text \<open>C29: connecting returns, whatever the pings answer, after at most 32 of them: the clock need only not go
  back during a ping and advance by the second that is waited between two. Without an error the last
  ping has succeeded.\<close>

theorem connect_returns:
  assumes "clock_runs d"
  shows "\<exists>r. connect d url w = Some r \<and>
    (di_New d url = None \<longrightarrow> connect_within 32 d (di_Now d w + 30 * second) w = Some r) \<and>
    (fst r = None \<longrightarrow> (\<exists>u. di_Ping d u = (None, snd r)))"
proof (cases "di_New d url")
  case None
  have "\<exists>r. connect_within (Suc 31) d (di_Now d w + 30 * second) w = Some r"
    by (rule connect_within_returns [OF assms]) (simp add: second_def)
  then obtain r where r: "connect_within 32 d (di_Now d w + 30 * second) w = Some r"
    by (auto simp: eval_nat_numeral(3) [symmetric] simp del: connect_within.simps)
  then show ?thesis
    using None connect_within_loop [OF r] connect_within_pinged by (cases r) (fastforce simp: connect_def)
qed (simp add: connect_def)

definition sample_dial :: "int dial" where
  "sample_dial = \<lparr>di_New = (\<lambda>url. None), di_Now = (\<lambda>w. w), di_Ping = (\<lambda>w. (if w < 3 * second then Some (EText ''refused'') else None, w)),
     di_Err = (\<lambda>w. None), di_After = (\<lambda>w. (None, w + second))\<rparr>"

theorem connect_returns_witness:
  "\<exists>r. connect sample_dial ''postgres://db'' 0 = Some r \<and> connect_within 32 sample_dial (30 * second) 0 = Some r"
  using connect_returns [of sample_dial "''postgres://db''" 0]
  by (auto simp: clock_runs_def sample_dial_def second_def)

text \<open>C30: a server that reaches the point of serving requests has a database address, has applied every
  migration file and, exactly when \<^verbatim>\<open>APP_SEED\<close> is true, has run all seed files on the migrated
  schema.\<close>

theorem server_starts_migrated:
  assumes "start_server la w s = Some (Inr cfg, t)"
    and "ef_ReadDir (la_Files la) ''migrations'' = Inr entries" "distinct (map de_Name entries)"
  shows "la_Getenv la ''DATABASE_URL'' \<noteq> [] \<and>
    (\<forall>e \<in> set entries. \<not> de_IsDir e \<longrightarrow> de_Name e \<in> set (versions t)) \<and>
    (\<exists>s1. Migrate (la_Migrations la) (la_Files la) s = (None, s1) \<and>
      (if parse_bool (la_Getenv la ''APP_SEED'') = Some True
       then \<exists>seeds. sortedSQLFiles (la_Files la) ''seed'' = Inr seeds \<and>
         run_scripts (la_Migrations la) (la_Files la) ''seed/'' seeds (mg_schema s1) = Some (mg_schema t)
       else t = s1))"
proof -
  note files = sorted_files [OF assms(2,3)]
  have cfg: "FromEnv (la_Getenv la) = Inr cfg" and t: "prepare_database la cfg s = (None, t)"
    using assms(1) by (auto simp: start_server_def split: sum.splits option.splits prod.splits)
  obtain s1 where s1: "set (sort (map de_Name (filter (\<lambda>e. \<not> de_IsDir e) entries))) \<subseteq> set (versions t)"
    "Migrate (la_Migrations la) (la_Files la) s = (None, s1)" "\<not> cfg_Seed cfg \<Longrightarrow> t = s1"
    "cfg_Seed cfg \<Longrightarrow> \<exists>seeds. sortedSQLFiles (la_Files la) ''seed'' = Inr seeds \<and>
      run_scripts (la_Migrations la) (la_Files la) ''seed/'' seeds (mg_schema s1) = Some (mg_schema t)"
    using prepare_database_done [OF t files] by blast
  have "\<forall>e \<in> set entries. \<not> de_IsDir e \<longrightarrow> de_Name e \<in> set (versions t)" using s1(1) by auto
  then show ?thesis using FromEnv_Inr [OF cfg] s1(2-4) by auto
qed

definition sample_launch :: "(int, string list) launch" where
  "sample_launch = \<lparr>la_Getenv = (\<lambda>key. if key = ''DATABASE_URL'' then ''postgres://db'' else if key = ''APP_SEED'' then ''true'' else []),
     la_Tracing = \<lparr>sdk_Merge = (\<lambda>name. None), sdk_Exporter = None\<rparr>, la_Dial = sample_dial\<lparr>di_Ping := (\<lambda>w. (None, w))\<rparr>,
     la_Migrations = sample_mig_env, la_Files = sample_fs, la_Serve = (\<lambda>srv. Interrupted), la_Shutdown = (\<lambda>d. None)\<rparr>"

lemma sample_seeded: "\<exists>t. Seed sample_mig_env sample_fs s = (None, t)"
  by (simp add: Seed_def sortedSQLFiles_def statement_defs begin_func_def sample_mig_env_def sample_fs_def)

theorem server_starts_migrated_witness:
  "\<exists>cfg t. start_server sample_launch 0 sample_mig = Some (Inr cfg, t) \<and> {''0001.sql'', ''0002.sql''} \<subseteq> set (versions t)"
proof -
  have c: "connect (sample_dial\<lparr>di_Ping := (\<lambda>w. (None, w))\<rparr>) url 0 = Some (None, 0)" for url
    by (simp add: connect_def connect_loop.simps sample_dial_def)
  obtain t1 where m: "Migrate sample_mig_env sample_fs sample_mig = (None, t1)" using sample_migrated by blast
  obtain t2 where "Seed sample_mig_env sample_fs t1 = (None, t2)" using sample_seeded by blast
  then obtain cfg t where t: "start_server sample_launch 0 sample_mig = Some (Inr cfg, t)"
    using c m
    by (auto simp: start_server_def FromEnv_def Let_def parse_bool_def sample_launch_def prepare_database_def SetupTracing_def)
  show ?thesis
    using server_starts_migrated [OF t] t by (auto simp: sample_launch_def sample_fs_def)
qed

end
