(* ===== verification/Catalogue.thy ===== *)
theory Catalogue
  imports Startup DayLock
begin

text \<open>
  The reference data: \<^verbatim>\<open>seed.go\<close> and \<^verbatim>\<open>seed/0001_reference_dealership.sql\<close>, over the catalogue tables of
  \<^verbatim>\<open>migrations/0001_initial_schema.sql\<close> with their keys, checks and foreign keys. The appointment
  tables are in Database; here a table is what an \<^verbatim>\<open>INSERT ... ON CONFLICT (key) DO NOTHING\<close> needs
  of it. Columns that nothing in the program reads (creation times, e-mail, phone) are left out.
\<close>

section \<open>Inserting into a table\<close>

text \<open>
  A table of a database: its rows, its conflict target, the CHECK a row breaks, the unique constraint
  a row and a stored one break, and the foreign key a row breaks.
\<close>

record ('d, 'r, 'k) sql_table =
  tb_rows :: "'d \<Rightarrow> 'r list"
  tb_put :: "'r list \<Rightarrow> 'd \<Rightarrow> 'd"
  tb_key :: "'r \<Rightarrow> 'k"
  tb_check :: "'r \<Rightarrow> string option"
  tb_clash :: "'r \<Rightarrow> 'r \<Rightarrow> string option"
  tb_foreign :: "'d \<Rightarrow> 'r \<Rightarrow> string option"

text \<open>A row is checked, skipped when its key is stored, refused when another unique column is.\<close>

fun insert_rows :: "('d, 'r, 'k) sql_table \<Rightarrow> 'r list \<Rightarrow> 'r list \<Rightarrow> pg_error + 'r list" where
  "insert_rows tb [] rows = Inr rows"
| "insert_rows tb (r # rs) rows =
     (case tb_check tb r of
        Some name \<Rightarrow> Inl (pg_error_of ''23514'' name)
      | None \<Rightarrow>
          if tb_key tb r \<in> tb_key tb ` set rows then insert_rows tb rs rows
          else (case List.map_filter (tb_clash tb r) rows of
                  name # _ \<Rightarrow> Inl (pg_error_of ''23505'' name)
                | [] \<Rightarrow> insert_rows tb rs (rows @ [r])))"

text \<open>The foreign keys of the inserted rows are checked at the end of the statement.\<close>

definition insert_into :: "('d, 'r, 'k) sql_table \<Rightarrow> 'r list \<Rightarrow> 'd \<Rightarrow> pg_error + 'd" where
  "insert_into tb rs d =
     (case insert_rows tb rs (tb_rows tb d) of
        Inl err \<Rightarrow> Inl err
      | Inr rows \<Rightarrow>
          (case List.map_filter (tb_foreign tb (tb_put tb rows d)) (drop (length (tb_rows tb d)) rows) of
             name # _ \<Rightarrow> Inl (pg_error_of ''23503'' name)
           | [] \<Rightarrow> Inr (tb_put tb rows d)))"

text \<open>The statements of a script stop at the first error.\<close>

primrec run_statements :: "('d \<Rightarrow> pg_error + 'd) list \<Rightarrow> 'd \<Rightarrow> pg_error + 'd" where
  "run_statements [] d = Inr d"
| "run_statements (st # sts) d = (case st d of Inl err \<Rightarrow> Inl err | Inr e \<Rightarrow> run_statements sts e)"

text \<open>A script that fails exactly when some name is taken, and then with a unique violation.\<close>

definition conflicts_only :: "bool \<Rightarrow> ('d \<Rightarrow> pg_error + 'd) list \<Rightarrow> 'd \<Rightarrow> bool" where
  "conflicts_only taken sts d \<longleftrightarrow>
     (if taken then \<exists>name. run_statements sts d = Inl (pg_error_of ''23505'' name) else \<exists>e. run_statements sts d = Inr e)"

definition table_ok :: "('d, 'r, 'k) sql_table \<Rightarrow> 'd \<Rightarrow> bool" where
  "table_ok tb d \<longleftrightarrow> distinct (map (tb_key tb) (tb_rows tb d)) \<and>
     (\<forall>r \<in> set (tb_rows tb d). tb_check tb r = None \<and> tb_foreign tb d r = None) \<and>
     sorted_wrt (\<lambda>x r. tb_clash tb r x = None) (tb_rows tb d)"

text \<open>Rows that can be written together.\<close>

definition rows_compatible :: "('d, 'r, 'k) sql_table \<Rightarrow> 'r list \<Rightarrow> bool" where
  "rows_compatible tb rs \<longleftrightarrow> (\<forall>r \<in> set rs. tb_check tb r = None) \<and>
     sorted_wrt (\<lambda>x r. tb_key tb x \<noteq> tb_key tb r \<and> tb_clash tb r x = None) rs"

definition row_taken :: "('d, 'r, 'k) sql_table \<Rightarrow> 'r list \<Rightarrow> 'r list \<Rightarrow> bool" where
  "row_taken tb rs rows \<longleftrightarrow> (\<exists>r \<in> set rs. tb_key tb r \<notin> tb_key tb ` set rows \<and> (\<exists>x \<in> set rows. tb_clash tb r x \<noteq> None))"

lemma map_filter_Nil: "List.map_filter f xs = [] \<longleftrightarrow> (\<forall>x \<in> set xs. f x = None)"
  by (induction xs) (auto simp: List.map_filter_simps split: option.split)

lemma insert_rows_Inr:
  assumes "insert_rows tb rs rows = Inr out"
  shows "\<exists>new. out = rows @ new \<and> set new \<subseteq> set rs" "tb_key tb ` set rs \<subseteq> tb_key tb ` set out"
  using assms
  by (induction tb rs rows rule: insert_rows.induct) (auto split: option.splits if_splits list.splits)

lemma insert_rows_kept:
  assumes "insert_rows tb rs rows = Inr out" "distinct (map (tb_key tb) rows)" "sorted_wrt (\<lambda>x r. tb_clash tb r x = None) rows"
    and "\<forall>r \<in> set rows. tb_check tb r = None"
  shows "distinct (map (tb_key tb) out) \<and> sorted_wrt (\<lambda>x r. tb_clash tb r x = None) out \<and> (\<forall>r \<in> set out. tb_check tb r = None)"
  using assms
proof (induction tb rs rows rule: insert_rows.induct)
  case (2 tb r rs rows)
  show ?case
  proof (cases "tb_key tb r \<in> tb_key tb ` set rows")
    case True
    then show ?thesis using 2 by (auto split: option.splits)
  next
    case False
    have ok: "tb_check tb r = None" "List.map_filter (tb_clash tb r) rows = []"
      "insert_rows tb rs (rows @ [r]) = Inr out"
      using False "2.prems"(1) by (auto split: option.splits list.splits)
    show ?thesis
      by (rule "2.IH"(2) [OF ok(1) False ok(2,3)])
        (use "2.prems" ok False in \<open>auto simp: sorted_wrt_append map_filter_Nil\<close>)
  qed
qed simp

lemma insert_rows_skip:
  "tb_key tb ` set rs \<subseteq> tb_key tb ` set rows \<Longrightarrow> \<forall>r \<in> set rs. tb_check tb r = None \<Longrightarrow> insert_rows tb rs rows = Inr rows"
  by (induction tb rs rows rule: insert_rows.induct) auto

lemma insert_rows_succeeds:
  "rows_compatible tb rs \<Longrightarrow>
    (if row_taken tb rs rows then \<exists>name. insert_rows tb rs rows = Inl (pg_error_of ''23505'' name)
     else \<exists>out. insert_rows tb rs rows = Inr out)"
proof (induction tb rs rows rule: insert_rows.induct)
  case (2 tb r rs rows)
  have c: "tb_check tb r = None" "rows_compatible tb rs" "\<forall>x \<in> set rs. tb_key tb r \<noteq> tb_key tb x \<and> tb_clash tb x r = None"
    using "2.prems" by (auto simp: rows_compatible_def)
  show ?case
  proof (cases "tb_key tb r \<in> tb_key tb ` set rows")
    case True
    then have "row_taken tb (r # rs) rows = row_taken tb rs rows" by (simp add: row_taken_def)
    then show ?thesis using "2.IH"(1) [OF c(1) True c(2)] c(1) True by simp
  next
    case False
    show ?thesis
    proof (cases "List.map_filter (tb_clash tb r) rows")
      case Nil
      then have "row_taken tb (r # rs) rows = row_taken tb rs (rows @ [r])"
        using c(3) by (auto simp: row_taken_def map_filter_Nil) (metis option.distinct(1))
      then show ?thesis using "2.IH"(2) [OF c(1) False Nil c(2)] c(1) False Nil by simp
    next
      case (Cons name rest)
      then have "row_taken tb (r # rs) rows"
        using False map_filter_Nil [of "tb_clash tb r" rows] by (auto simp: row_taken_def)
      then show ?thesis using c(1) False Cons by auto
    qed
  qed
qed (simp add: row_taken_def)

text \<open>The contract of a table whose foreign keys point to other tables.\<close>

locale catalogue_table =
  fixes tb :: "('d, 'r, 'k) sql_table"
  assumes rows_put: "tb_rows tb (tb_put tb rs d) = rs"
    and put_rows: "tb_put tb (tb_rows tb d) d = d"
    and foreign_put: "tb_foreign tb (tb_put tb rs d) = tb_foreign tb d"
begin

lemma insert_into_Inr:
  assumes "insert_into tb rs d = Inr e"
  obtains new where "e = tb_put tb (tb_rows tb d @ new) d" "set new \<subseteq> set rs"
    "tb_key tb ` set rs \<subseteq> tb_key tb ` set (tb_rows tb e)"
proof -
  obtain out where out: "insert_rows tb rs (tb_rows tb d) = Inr out" "e = tb_put tb out d"
    using assms by (auto simp: insert_into_def split: sum.splits list.splits)
  obtain new where "out = tb_rows tb d @ new" "set new \<subseteq> set rs" using insert_rows_Inr(1) [OF out(1)] by blast
  then show thesis using that out(2) insert_rows_Inr(2) [OF out(1)] by (simp add: rows_put)
qed

lemma insert_into_ok:
  assumes "insert_into tb rs d = Inr e" "table_ok tb d"
  shows "table_ok tb e"
proof -
  obtain out where out: "insert_rows tb rs (tb_rows tb d) = Inr out" "e = tb_put tb out d"
    "\<forall>r \<in> set (drop (length (tb_rows tb d)) out). tb_foreign tb d r = None"
    using assms(1) by (auto simp: insert_into_def foreign_put map_filter_Nil split: sum.splits list.splits)
  obtain new where "out = tb_rows tb d @ new" using insert_rows_Inr(1) [OF out(1)] by blast
  then show ?thesis
    using insert_rows_kept [OF out(1)] assms(2) out(2,3) by (auto simp: table_ok_def rows_put foreign_put)
qed

lemma insert_into_again:
  assumes "tb_key tb ` set rs \<subseteq> tb_key tb ` set (tb_rows tb d)" "\<forall>r \<in> set rs. tb_check tb r = None"
  shows "insert_into tb rs d = Inr d"
  using insert_rows_skip [OF assms] by (simp add: insert_into_def put_rows List.map_filter_simps)

lemma insert_into_succeeds:
  assumes "rows_compatible tb rs" "\<forall>r \<in> set rs. tb_foreign tb d r = None"
  shows "if row_taken tb rs (tb_rows tb d) then \<exists>name. insert_into tb rs d = Inl (pg_error_of ''23505'' name)
    else \<exists>e. insert_into tb rs d = Inr e"
proof (cases "row_taken tb rs (tb_rows tb d)")
  case True
  then show ?thesis using insert_rows_succeeds [OF assms(1), of "tb_rows tb d"] by (auto simp: insert_into_def)
next
  case False
  then obtain out where out: "insert_rows tb rs (tb_rows tb d) = Inr out"
    using insert_rows_succeeds [OF assms(1), of "tb_rows tb d"] by auto
  then obtain new where "out = tb_rows tb d @ new" "set new \<subseteq> set rs" using insert_rows_Inr(1) by blast
  then have "List.map_filter (tb_foreign tb d) (drop (length (tb_rows tb d)) out) = []"
    using assms(2) by (auto simp: map_filter_Nil)
  then show ?thesis using False out by (simp add: insert_into_def foreign_put)
qed

lemma conflicts_stage:
  assumes "rows_compatible tb rs" "\<forall>r \<in> set rs. tb_foreign tb d r = None"
    and "row_taken tb rs (tb_rows tb d) \<Longrightarrow> taken"
    and "\<And>rows. \<not> row_taken tb rs (tb_rows tb d) \<Longrightarrow> tb_key tb ` set rs \<subseteq> tb_key tb ` set rows \<Longrightarrow>
      conflicts_only taken sts (tb_put tb rows d)"
  shows "conflicts_only taken (insert_into tb rs # sts) d"
proof (cases "row_taken tb rs (tb_rows tb d)")
  case True
  then show ?thesis using insert_into_succeeds [OF assms(1,2)] assms(3) by (auto simp: conflicts_only_def)
next
  case False
  then obtain e where e: "insert_into tb rs d = Inr e" using insert_into_succeeds [OF assms(1,2)] by auto
  obtain new where n: "e = tb_put tb (tb_rows tb d @ new) d" "tb_key tb ` set rs \<subseteq> tb_key tb ` set (tb_rows tb e)"
    using insert_into_Inr [OF e] by blast
  show ?thesis using assms(4) [OF False, of "tb_rows tb d @ new"] e n by (simp add: rows_put conflicts_only_def)
qed

end


section \<open>The catalogue tables\<close>

text \<open>The database with its table of skills, which only foreign keys refer to.\<close>

record skill_row =
  skr_id :: string
  skr_code :: string
  skr_name :: string

record catalogue = db +
  db_skills :: "skill_row list"

text \<open>A reference to a column, and a unique column beside the key, under the name of the constraint.\<close>

definition references :: "'a \<Rightarrow> ('r \<Rightarrow> 'a) \<Rightarrow> 'r list \<Rightarrow> string \<Rightarrow> string option" where
  "references v column rows name = (if v \<in> column ` set rows then None else Some name)"

definition unique_column :: "('r \<Rightarrow> 'a) \<Rightarrow> string \<Rightarrow> 'r \<Rightarrow> 'r \<Rightarrow> string option" where
  "unique_column column name r x = (if column r = column x then Some name else None)"

definition dealership_table :: "(catalogue, dealership_row, string) sql_table" where
  "dealership_table = \<lparr>tb_rows = db_dealerships, tb_put = (\<lambda>rs d. d\<lparr>db_dealerships := rs\<rparr>), tb_key = dlr_id,
     tb_check = (\<lambda>r. None), tb_clash = (\<lambda>r x. None), tb_foreign = (\<lambda>d r. None)\<rparr>"

definition business_hours_table :: "(catalogue, hours_row, string \<times> int) sql_table" where
  "business_hours_table = \<lparr>tb_rows = db_hours, tb_put = (\<lambda>rs d. d\<lparr>db_hours := rs\<rparr>),
     tb_key = (\<lambda>r. (hor_dealership r, hor_weekday r)),
     tb_check = (\<lambda>r. if \<not> (0 \<le> hor_weekday r \<and> hor_weekday r \<le> 6) then Some ''business_hours_weekday_check''
                     else if \<not> hor_opens_at r < hor_closes_at r then Some ''business_hours_open_before_close'' else None),
     tb_clash = (\<lambda>r x. None),
     tb_foreign = (\<lambda>d r. references (hor_dealership r) dlr_id (db_dealerships d) ''business_hours_dealership_id_fkey'')\<rparr>"

definition skill_table :: "(catalogue, skill_row, string) sql_table" where
  "skill_table = \<lparr>tb_rows = db_skills, tb_put = (\<lambda>rs d. d\<lparr>db_skills := rs\<rparr>), tb_key = skr_id,
     tb_check = (\<lambda>r. None), tb_clash = unique_column skr_code ''skill_code_key'', tb_foreign = (\<lambda>d r. None)\<rparr>"

definition service_type_table :: "(catalogue, service_type_row, string) sql_table" where
  "service_type_table = \<lparr>tb_rows = db_service_types, tb_put = (\<lambda>rs d. d\<lparr>db_service_types := rs\<rparr>), tb_key = svr_id,
     tb_check = (\<lambda>r. if 0 < svr_duration_minutes r then None else Some ''service_type_duration_minutes_check''),
     tb_clash = unique_column svr_name ''service_type_name_key'',
     tb_foreign = (\<lambda>d r. references (svr_required_skill_id r) skr_id (db_skills d) ''service_type_required_skill_id_fkey'')\<rparr>"

definition service_bay_table :: "(catalogue, bay_row, string) sql_table" where
  "service_bay_table = \<lparr>tb_rows = db_bays, tb_put = (\<lambda>rs d. d\<lparr>db_bays := rs\<rparr>), tb_key = bar_id,
     tb_check = (\<lambda>r. None),
     tb_clash = unique_column (\<lambda>r. (bar_dealership r, bar_name r)) ''service_bay_dealership_id_name_key'',
     tb_foreign = (\<lambda>d r. references (bar_dealership r) dlr_id (db_dealerships d) ''service_bay_dealership_id_fkey'')\<rparr>"

definition technician_table :: "(catalogue, technician_row, string) sql_table" where
  "technician_table = \<lparr>tb_rows = db_technicians, tb_put = (\<lambda>rs d. d\<lparr>db_technicians := rs\<rparr>), tb_key = ter_id,
     tb_check = (\<lambda>r. None), tb_clash = (\<lambda>r x. None),
     tb_foreign = (\<lambda>d r. references (ter_dealership r) dlr_id (db_dealerships d) ''technician_dealership_id_fkey'')\<rparr>"

definition technician_skill_table :: "(catalogue, string \<times> string, string \<times> string) sql_table" where
  "technician_skill_table = \<lparr>tb_rows = db_technician_skills, tb_put = (\<lambda>rs d. d\<lparr>db_technician_skills := rs\<rparr>), tb_key = id,
     tb_check = (\<lambda>r. None), tb_clash = (\<lambda>r x. None),
     tb_foreign = (\<lambda>d (t, k).
       case references t ter_id (db_technicians d) ''technician_skill_technician_id_fkey'' of
         Some name \<Rightarrow> Some name
       | None \<Rightarrow> references k skr_id (db_skills d) ''technician_skill_skill_id_fkey'')\<rparr>"

definition customer_table :: "(catalogue, customer_row, string) sql_table" where
  "customer_table = \<lparr>tb_rows = db_customers, tb_put = (\<lambda>rs d. d\<lparr>db_customers := rs\<rparr>), tb_key = cur_id,
     tb_check = (\<lambda>r. None), tb_clash = (\<lambda>r x. None), tb_foreign = (\<lambda>d r. None)\<rparr>"

definition vehicle_table :: "(catalogue, vehicle_row, string) sql_table" where
  "vehicle_table = \<lparr>tb_rows = db_vehicles, tb_put = (\<lambda>rs d. d\<lparr>db_vehicles := rs\<rparr>), tb_key = ver_id,
     tb_check = (\<lambda>r. None), tb_clash = unique_column ver_vin ''vehicle_vin_key'',
     tb_foreign = (\<lambda>d r.
       case references (ver_dealership r) dlr_id (db_dealerships d) ''vehicle_dealership_id_fkey'' of
         Some name \<Rightarrow> Some name
       | None \<Rightarrow> references (ver_customer r) cur_id (db_customers d) ''vehicle_customer_id_fkey'')\<rparr>"

lemmas table_defs = dealership_table_def business_hours_table_def skill_table_def service_type_table_def
  service_bay_table_def technician_table_def technician_skill_table_def customer_table_def vehicle_table_def

definition catalogue_valid :: "catalogue \<Rightarrow> bool" where
  "catalogue_valid d \<longleftrightarrow> table_ok dealership_table d \<and> table_ok business_hours_table d \<and> table_ok skill_table d \<and>
     table_ok service_type_table d \<and> table_ok service_bay_table d \<and> table_ok technician_table d \<and>
     table_ok technician_skill_table d \<and> table_ok customer_table d \<and> table_ok vehicle_table d"

text \<open>Rows are only added, after the stored ones, and only to the catalogue.\<close>

definition grown :: "catalogue \<Rightarrow> catalogue \<Rightarrow> bool" where
  "grown d e \<longleftrightarrow> prefix (db_dealerships d) (db_dealerships e) \<and> prefix (db_hours d) (db_hours e) \<and>
     prefix (db_skills d) (db_skills e) \<and> prefix (db_service_types d) (db_service_types e) \<and>
     prefix (db_bays d) (db_bays e) \<and> prefix (db_technicians d) (db_technicians e) \<and>
     prefix (db_technician_skills d) (db_technician_skills e) \<and> prefix (db_customers d) (db_customers e) \<and>
     prefix (db_vehicles d) (db_vehicles e) \<and> db_appointments e = db_appointments d \<and> db_keys e = db_keys d"

lemma grown_refl [simp]: "grown d d"
  by (simp add: grown_def)

lemma grown_trans [trans]: "grown d e \<Longrightarrow> grown e f \<Longrightarrow> grown d f"
  unfolding grown_def by (elim conjE, intro conjI; (erule (1) prefix_order.trans | simp))

lemma references_None [simp]: "references v column rows name = None \<longleftrightarrow> v \<in> column ` set rows"
  by (simp add: references_def)


lemma grown_sets:
  assumes "grown d e"
  shows "set (db_dealerships d) \<subseteq> set (db_dealerships e)" "set (db_skills d) \<subseteq> set (db_skills e)"
    "set (db_technicians d) \<subseteq> set (db_technicians e)" "set (db_customers d) \<subseteq> set (db_customers e)"
  using assms by (simp_all add: grown_def set_mono_prefix)

lemma references_mono:
  "references v column rows name = None \<Longrightarrow> set rows \<subseteq> set rows' \<Longrightarrow> references v column rows' name = None"
  by (auto simp: references_def split: if_splits)

lemma foreign_grown:
  assumes "grown d e"
  shows "tb_foreign business_hours_table d h = None \<Longrightarrow> tb_foreign business_hours_table e h = None"
    and "tb_foreign service_type_table d st = None \<Longrightarrow> tb_foreign service_type_table e st = None"
    and "tb_foreign service_bay_table d b = None \<Longrightarrow> tb_foreign service_bay_table e b = None"
    and "tb_foreign technician_table d te = None \<Longrightarrow> tb_foreign technician_table e te = None"
    and "tb_foreign technician_skill_table d k = None \<Longrightarrow> tb_foreign technician_skill_table e k = None"
    and "tb_foreign vehicle_table d v = None \<Longrightarrow> tb_foreign vehicle_table e v = None"
proof -
  note m = references_mono [OF _ grown_sets(1) [OF assms]] references_mono [OF _ grown_sets(2) [OF assms]]
    references_mono [OF _ grown_sets(3) [OF assms]] references_mono [OF _ grown_sets(4) [OF assms]]
  show "tb_foreign business_hours_table d h = None \<Longrightarrow> tb_foreign business_hours_table e h = None"
    "tb_foreign service_type_table d st = None \<Longrightarrow> tb_foreign service_type_table e st = None"
    "tb_foreign service_bay_table d b = None \<Longrightarrow> tb_foreign service_bay_table e b = None"
    "tb_foreign technician_table d te = None \<Longrightarrow> tb_foreign technician_table e te = None"
    unfolding table_defs sql_table.simps by (fact m)+
  show "tb_foreign technician_skill_table d k = None \<Longrightarrow> tb_foreign technician_skill_table e k = None"
    "tb_foreign vehicle_table d v = None \<Longrightarrow> tb_foreign vehicle_table e v = None"
    by (auto simp: table_defs simp del: references_None split: option.splits prod.splits dest: m)
qed

lemma table_ok_same:
  assumes "table_ok tb d" "tb_rows tb e = tb_rows tb d"
    and "\<And>r. tb_foreign tb d r = None \<Longrightarrow> tb_foreign tb e r = None"
  shows "table_ok tb e"
  using assms by (simp add: table_ok_def)

lemma foreign_free [simp]:
  "tb_foreign dealership_table d r = None" "tb_foreign skill_table d k = None" "tb_foreign customer_table d c = None"
  by (simp_all add: table_defs)

lemma valid_grown:
  assumes "grown d e" "catalogue_valid d"
    and "tb_rows dealership_table e = tb_rows dealership_table d \<or> table_ok dealership_table e"
    and "tb_rows business_hours_table e = tb_rows business_hours_table d \<or> table_ok business_hours_table e"
    and "tb_rows skill_table e = tb_rows skill_table d \<or> table_ok skill_table e"
    and "tb_rows service_type_table e = tb_rows service_type_table d \<or> table_ok service_type_table e"
    and "tb_rows service_bay_table e = tb_rows service_bay_table d \<or> table_ok service_bay_table e"
    and "tb_rows technician_table e = tb_rows technician_table d \<or> table_ok technician_table e"
    and "tb_rows technician_skill_table e = tb_rows technician_skill_table d \<or> table_ok technician_skill_table e"
    and "tb_rows customer_table e = tb_rows customer_table d \<or> table_ok customer_table e"
    and "tb_rows vehicle_table e = tb_rows vehicle_table d \<or> table_ok vehicle_table e"
  shows "catalogue_valid e"
  using assms(2) unfolding catalogue_valid_def
  by (elim conjE, intro conjI) (metis assms(3-) table_ok_same foreign_free foreign_grown [OF assms(1)])+

text \<open>A statement of the script: one table grows, and a catalogue in order stays so.\<close>

definition good_statement :: "(catalogue \<Rightarrow> pg_error + catalogue) \<Rightarrow> bool" where
  "good_statement st \<longleftrightarrow> (\<forall>d e. st d = Inr e \<longrightarrow> grown d e \<and> (catalogue_valid d \<longrightarrow> catalogue_valid e))"

lemma table_rows:
  "tb_rows dealership_table = db_dealerships" "tb_rows business_hours_table = db_hours" "tb_rows skill_table = db_skills"
  "tb_rows service_type_table = db_service_types" "tb_rows service_bay_table = db_bays"
  "tb_rows technician_table = db_technicians" "tb_rows technician_skill_table = db_technician_skills"
  "tb_rows customer_table = db_customers" "tb_rows vehicle_table = db_vehicles"
  by (simp_all add: table_defs)

lemma table_put:
  "tb_put dealership_table rs d = d\<lparr>db_dealerships := rs\<rparr>" "tb_put business_hours_table hs d = d\<lparr>db_hours := hs\<rparr>"
  "tb_put skill_table ks d = d\<lparr>db_skills := ks\<rparr>" "tb_put service_type_table ss d = d\<lparr>db_service_types := ss\<rparr>"
  "tb_put service_bay_table bs d = d\<lparr>db_bays := bs\<rparr>" "tb_put technician_table ts d = d\<lparr>db_technicians := ts\<rparr>"
  "tb_put technician_skill_table ps d = d\<lparr>db_technician_skills := ps\<rparr>" "tb_put customer_table cs d = d\<lparr>db_customers := cs\<rparr>"
  "tb_put vehicle_table vs d = d\<lparr>db_vehicles := vs\<rparr>"
  by (simp_all add: table_defs)

lemma catalogue_validD:
  assumes "catalogue_valid d"
  shows "table_ok dealership_table d" "table_ok business_hours_table d" "table_ok skill_table d"
    "table_ok service_type_table d" "table_ok service_bay_table d" "table_ok technician_table d"
    "table_ok technician_skill_table d" "table_ok customer_table d" "table_ok vehicle_table d"
  using assms by (simp_all add: catalogue_valid_def)


text \<open>Every row of a list is stored, by its key.\<close>

definition holds_keys :: "('d, 'r, 'k) sql_table \<Rightarrow> 'r list \<Rightarrow> 'd \<Rightarrow> bool" where
  "holds_keys tb rs d \<longleftrightarrow> tb_key tb ` set rs \<subseteq> tb_key tb ` set (tb_rows tb d)"

lemma script_good:
  "run_statements sts d = Inr e \<Longrightarrow> \<forall>st \<in> set sts. good_statement st \<Longrightarrow>
    grown d e \<and> (catalogue_valid d \<longrightarrow> catalogue_valid e)"
proof (induction sts arbitrary: d)
  case (Cons st sts)
  then obtain d1 where d1: "st d = Inr d1" "run_statements sts d1 = Inr e" by (auto split: sum.splits)
  then have "grown d1 e \<and> (catalogue_valid d1 \<longrightarrow> catalogue_valid e)" using Cons by simp
  moreover have "grown d d1 \<and> (catalogue_valid d \<longrightarrow> catalogue_valid d1)"
    using Cons.prems(2) d1(1) by (simp add: good_statement_def)
  ultimately show ?case using grown_trans by blast
qed simp

lemma script_again: "\<forall>st \<in> set sts. st d = Inr d \<Longrightarrow> run_statements sts d = Inr d"
  by (induction sts) auto

text \<open>What a table of the catalogue gives beyond its own contract.\<close>

locale statement_table = catalogue_table tb for tb :: "(catalogue, 'r, 'k) sql_table" +
  assumes rows_grown: "grown d e \<Longrightarrow> prefix (tb_rows tb d) (tb_rows tb e)"
    and grown_put: "grown d (tb_put tb (tb_rows tb d @ new) d)"
    and valid_table: "catalogue_valid d \<Longrightarrow> table_ok tb d"
    and valid_put: "grown d (tb_put tb rs d) \<Longrightarrow> catalogue_valid d \<Longrightarrow> table_ok tb (tb_put tb rs d) \<Longrightarrow>
      catalogue_valid (tb_put tb rs d)"
begin

lemma good: "good_statement (insert_into tb rs)"
  unfolding good_statement_def
proof (intro allI impI conjI)
  fix d e assume i: "insert_into tb rs d = Inr e"
  obtain new where e: "e = tb_put tb (tb_rows tb d @ new) d" using insert_into_Inr [OF i] by blast
  show g: "grown d e" by (simp add: e grown_put)
  assume "catalogue_valid d"
  then show "catalogue_valid e" using valid_put g insert_into_ok [OF i valid_table] unfolding e by blast
qed

lemma script_holds:
  assumes "run_statements sts d = Inr e" "insert_into tb rs \<in> set sts" "\<forall>st \<in> set sts. good_statement st"
  shows "holds_keys tb rs e"
  using assms
proof (induction sts arbitrary: d)
  case (Cons st sts)
  obtain d1 where d1: "st d = Inr d1" "run_statements sts d1 = Inr e" using Cons.prems(1) by (auto split: sum.splits)
  show ?case
  proof (cases "insert_into tb rs \<in> set sts")
    case True
    then show ?thesis using Cons d1 by auto
  next
    case False
    then have "insert_into tb rs d = Inr d1" using Cons.prems(2) d1(1) by simp
    then have "tb_key tb ` set rs \<subseteq> tb_key tb ` set (tb_rows tb d1)" by (metis insert_into_Inr)
    moreover have "grown d1 e" using script_good [OF d1(2)] Cons.prems(3) by simp
    ultimately show ?thesis using set_mono_prefix [OF rows_grown] by (fastforce simp: holds_keys_def)
  qed
qed simp

end

lemma table_foreign:
  "tb_foreign business_hours_table (d\<lparr>db_hours := hs\<rparr>) = tb_foreign business_hours_table d"
  "tb_foreign service_type_table (d\<lparr>db_service_types := ss\<rparr>) = tb_foreign service_type_table d"
  "tb_foreign service_bay_table (d\<lparr>db_bays := bs\<rparr>) = tb_foreign service_bay_table d"
  "tb_foreign technician_table (d\<lparr>db_technicians := ts\<rparr>) = tb_foreign technician_table d"
  "tb_foreign technician_skill_table (d\<lparr>db_technician_skills := ps\<rparr>) = tb_foreign technician_skill_table d"
  "tb_foreign vehicle_table (d\<lparr>db_vehicles := vs\<rparr>) = tb_foreign vehicle_table d"
  by (simp_all add: table_defs cong: option.case_cong)

lemmas table_laws = table_rows table_put table_foreign catalogue_validD grown_def fun_eq_iff

interpretation dealerships: statement_table dealership_table
  by (unfold_locales; (erule (1) valid_grown; simp add: table_rows table_put | simp add: table_laws))

interpretation weekly: statement_table business_hours_table
  by (unfold_locales; (erule (1) valid_grown; simp add: table_rows table_put | simp add: table_laws))

interpretation skills: statement_table skill_table
  by (unfold_locales; (erule (1) valid_grown; simp add: table_rows table_put | simp add: table_laws))

interpretation services: statement_table service_type_table
  by (unfold_locales; (erule (1) valid_grown; simp add: table_rows table_put | simp add: table_laws))

interpretation bays: statement_table service_bay_table
  by (unfold_locales; (erule (1) valid_grown; simp add: table_rows table_put | simp add: table_laws))

interpretation technicians: statement_table technician_table
  by (unfold_locales; (erule (1) valid_grown; simp add: table_rows table_put | simp add: table_laws))

interpretation held_skills: statement_table technician_skill_table
  by (unfold_locales; (erule (1) valid_grown; simp add: table_rows table_put | simp add: table_laws))

interpretation customers: statement_table customer_table
  by (unfold_locales; (erule (1) valid_grown; simp add: table_rows table_put | simp add: table_laws))

interpretation vehicles: statement_table vehicle_table
  by (unfold_locales; (erule (1) valid_grown; simp add: table_rows table_put | simp add: table_laws))

section \<open>The reference dealership\<close>

definition SeedDealershipID :: string where "SeedDealershipID = ''10000000-0000-4000-8000-000000000001''"
definition SeedSkillGeneralServiceID :: string where "SeedSkillGeneralServiceID = ''20000000-0000-4000-8000-000000000001''"
definition SeedSkillWheelAlignmentID :: string where "SeedSkillWheelAlignmentID = ''20000000-0000-4000-8000-000000000002''"
definition SeedSkillEVHighVoltageID :: string where "SeedSkillEVHighVoltageID = ''20000000-0000-4000-8000-000000000003''"
definition SeedSkillTransmissionID :: string where "SeedSkillTransmissionID = ''20000000-0000-4000-8000-000000000004''"
definition SeedServiceTypeOilChangeID :: string where "SeedServiceTypeOilChangeID = ''30000000-0000-4000-8000-000000000001''"
definition SeedServiceTypeAlignmentID :: string where "SeedServiceTypeAlignmentID = ''30000000-0000-4000-8000-000000000002''"
definition SeedServiceTypeEVDiagnosticID :: string where "SeedServiceTypeEVDiagnosticID = ''30000000-0000-4000-8000-000000000003''"
definition SeedServiceTypeTransmissionID :: string where "SeedServiceTypeTransmissionID = ''30000000-0000-4000-8000-000000000004''"
definition SeedBay1ID :: string where "SeedBay1ID = ''40000000-0000-4000-8000-000000000001''"
definition SeedBay2ID :: string where "SeedBay2ID = ''40000000-0000-4000-8000-000000000002''"
definition SeedBayAlignmentID :: string where "SeedBayAlignmentID = ''40000000-0000-4000-8000-000000000003''"
definition SeedBayEVID :: string where "SeedBayEVID = ''40000000-0000-4000-8000-000000000004''"
definition SeedTechnicianAnID :: string where "SeedTechnicianAnID = ''50000000-0000-4000-8000-000000000001''"
definition SeedTechnicianBinhID :: string where "SeedTechnicianBinhID = ''50000000-0000-4000-8000-000000000002''"
definition SeedTechnicianChiID :: string where "SeedTechnicianChiID = ''50000000-0000-4000-8000-000000000003''"
definition SeedTechnicianDungID :: string where "SeedTechnicianDungID = ''50000000-0000-4000-8000-000000000004''"
definition SeedCustomerMaiID :: string where "SeedCustomerMaiID = ''60000000-0000-4000-8000-000000000001''"
definition SeedCustomerQuangID :: string where "SeedCustomerQuangID = ''60000000-0000-4000-8000-000000000002''"
definition SeedCustomerLinhID :: string where "SeedCustomerLinhID = ''60000000-0000-4000-8000-000000000003''"
definition SeedVehicleCamryID :: string where "SeedVehicleCamryID = ''70000000-0000-4000-8000-000000000001''"
definition SeedVehicleVF8ID :: string where "SeedVehicleVF8ID = ''70000000-0000-4000-8000-000000000002''"
definition SeedVehicleCRVID :: string where "SeedVehicleCRVID = ''70000000-0000-4000-8000-000000000003''"
definition SeedVehicleRangerID :: string where "SeedVehicleRangerID = ''70000000-0000-4000-8000-000000000004''"

lemmas seed_ids = SeedDealershipID_def SeedSkillGeneralServiceID_def SeedSkillWheelAlignmentID_def SeedSkillEVHighVoltageID_def SeedSkillTransmissionID_def SeedServiceTypeOilChangeID_def SeedServiceTypeAlignmentID_def SeedServiceTypeEVDiagnosticID_def SeedServiceTypeTransmissionID_def SeedBay1ID_def SeedBay2ID_def SeedBayAlignmentID_def SeedBayEVID_def SeedTechnicianAnID_def SeedTechnicianBinhID_def SeedTechnicianChiID_def SeedTechnicianDungID_def SeedCustomerMaiID_def SeedCustomerQuangID_def SeedCustomerLinhID_def SeedVehicleCamryID_def SeedVehicleVF8ID_def SeedVehicleCRVID_def SeedVehicleRangerID_def

text \<open>08:00 is 28800000000 microseconds after midnight, noon 43200000000, 17:00 61200000000.\<close>

definition seed_dealerships :: "dealership_row list" where
  "seed_dealerships = [\<lparr>dlr_id = SeedDealershipID, dlr_name = ''Keyloop Motors Saigon'', dlr_timezone = ''Asia/Ho_Chi_Minh''\<rparr>]"

definition seed_hours :: "hours_row list" where
  "seed_hours =
     map (\<lambda>w. \<lparr>hor_dealership = SeedDealershipID, hor_weekday = w, hor_opens_at = 28800000000, hor_closes_at = 61200000000\<rparr>)
       [1, 2, 3, 4, 5]
     @ [\<lparr>hor_dealership = SeedDealershipID, hor_weekday = 6, hor_opens_at = 28800000000, hor_closes_at = 43200000000\<rparr>]"

definition seed_skills :: "skill_row list" where
  "seed_skills =
     [\<lparr>skr_id = SeedSkillGeneralServiceID, skr_code = ''GENERAL_SERVICE'', skr_name = ''General servicing''\<rparr>,
      \<lparr>skr_id = SeedSkillWheelAlignmentID, skr_code = ''WHEEL_ALIGNMENT'', skr_name = ''Wheel alignment and balancing''\<rparr>,
      \<lparr>skr_id = SeedSkillEVHighVoltageID, skr_code = ''EV_HIGH_VOLTAGE'', skr_name = ''EV high-voltage certification''\<rparr>,
      \<lparr>skr_id = SeedSkillTransmissionID, skr_code = ''TRANSMISSION'', skr_name = ''Transmission specialist''\<rparr>]"

definition seed_service_types :: "service_type_row list" where
  "seed_service_types =
     [\<lparr>svr_id = SeedServiceTypeOilChangeID, svr_name = ''Oil change and inspection'', svr_duration_minutes = 30,
       svr_required_skill_id = SeedSkillGeneralServiceID, svr_required_bay_type = BayTypeGeneral\<rparr>,
      \<lparr>svr_id = SeedServiceTypeAlignmentID, svr_name = ''Wheel alignment and balancing'', svr_duration_minutes = 60,
       svr_required_skill_id = SeedSkillWheelAlignmentID, svr_required_bay_type = BayTypeAlignment\<rparr>,
      \<lparr>svr_id = SeedServiceTypeEVDiagnosticID, svr_name = ''EV high-voltage battery diagnostic'', svr_duration_minutes = 90,
       svr_required_skill_id = SeedSkillEVHighVoltageID, svr_required_bay_type = BayTypeEV\<rparr>,
      \<lparr>svr_id = SeedServiceTypeTransmissionID, svr_name = ''Transmission service'', svr_duration_minutes = 180,
       svr_required_skill_id = SeedSkillTransmissionID, svr_required_bay_type = BayTypeGeneral\<rparr>]"

definition seed_bays :: "bay_row list" where
  "seed_bays =
     [\<lparr>bar_id = SeedBay1ID, bar_dealership = SeedDealershipID, bar_name = ''Bay 1'', bar_type = BayTypeGeneral\<rparr>,
      \<lparr>bar_id = SeedBay2ID, bar_dealership = SeedDealershipID, bar_name = ''Bay 2'', bar_type = BayTypeGeneral\<rparr>,
      \<lparr>bar_id = SeedBayAlignmentID, bar_dealership = SeedDealershipID, bar_name = ''Alignment rig'', bar_type = BayTypeAlignment\<rparr>,
      \<lparr>bar_id = SeedBayEVID, bar_dealership = SeedDealershipID, bar_name = ''EV bay'', bar_type = BayTypeEV\<rparr>]"

definition seed_technicians :: "technician_row list" where
  "seed_technicians =
     [\<lparr>ter_id = SeedTechnicianAnID, ter_dealership = SeedDealershipID, ter_name = ''An Nguyen''\<rparr>,
      \<lparr>ter_id = SeedTechnicianBinhID, ter_dealership = SeedDealershipID, ter_name = ''Binh Tran''\<rparr>,
      \<lparr>ter_id = SeedTechnicianChiID, ter_dealership = SeedDealershipID, ter_name = ''Chi Le''\<rparr>,
      \<lparr>ter_id = SeedTechnicianDungID, ter_dealership = SeedDealershipID, ter_name = ''Dung Pham''\<rparr>]"

definition seed_technician_skills :: "(string \<times> string) list" where
  "seed_technician_skills =
     [(SeedTechnicianAnID, SeedSkillGeneralServiceID), (SeedTechnicianAnID, SeedSkillWheelAlignmentID),
      (SeedTechnicianBinhID, SeedSkillGeneralServiceID), (SeedTechnicianBinhID, SeedSkillTransmissionID),
      (SeedTechnicianChiID, SeedSkillGeneralServiceID), (SeedTechnicianChiID, SeedSkillEVHighVoltageID),
      (SeedTechnicianDungID, SeedSkillGeneralServiceID)]"

definition seed_customers :: "customer_row list" where
  "seed_customers =
     [\<lparr>cur_id = SeedCustomerMaiID, cur_name = ''Mai Pham''\<rparr>, \<lparr>cur_id = SeedCustomerQuangID, cur_name = ''Quang Vo''\<rparr>,
      \<lparr>cur_id = SeedCustomerLinhID, cur_name = ''Linh Hoang''\<rparr>]"

definition seed_vehicles :: "vehicle_row list" where
  "seed_vehicles =
     [\<lparr>ver_id = SeedVehicleCamryID, ver_dealership = SeedDealershipID, ver_customer = SeedCustomerMaiID,
       ver_vin = ''JTNB11HK7J3000001'', ver_model = ''Toyota Camry 2.5Q''\<rparr>,
      \<lparr>ver_id = SeedVehicleVF8ID, ver_dealership = SeedDealershipID, ver_customer = SeedCustomerQuangID,
       ver_vin = ''RLLVF8000P0000002'', ver_model = ''VinFast VF 8 Plus''\<rparr>,
      \<lparr>ver_id = SeedVehicleCRVID, ver_dealership = SeedDealershipID, ver_customer = SeedCustomerLinhID,
       ver_vin = ''MRHRW1870N0000003'', ver_model = ''Honda CR-V L''\<rparr>,
      \<lparr>ver_id = SeedVehicleRangerID, ver_dealership = SeedDealershipID, ver_customer = SeedCustomerLinhID,
       ver_vin = ''MNBJXXMAWJN000004'', ver_model = ''Ford Ranger Wildtrak''\<rparr>]"

definition seed_statements :: "(catalogue \<Rightarrow> pg_error + catalogue) list" where
  "seed_statements =
     [insert_into dealership_table seed_dealerships, insert_into business_hours_table seed_hours,
      insert_into skill_table seed_skills, insert_into service_type_table seed_service_types,
      insert_into service_bay_table seed_bays, insert_into technician_table seed_technicians,
      insert_into technician_skill_table seed_technician_skills, insert_into customer_table seed_customers,
      insert_into vehicle_table seed_vehicles]"

text \<open>What executing the text of the file does: its statements run in the transaction of \<open>Seed\<close>.\<close>

definition seed_reference :: "catalogue \<Rightarrow> go_error + catalogue" where
  "seed_reference d = (case run_statements seed_statements d of Inl err \<Rightarrow> Inl (EPg err) | Inr e \<Rightarrow> Inr e)"

lemmas seed_rows = seed_dealerships_def seed_hours_def seed_skills_def seed_service_types_def seed_bays_def
  seed_technicians_def seed_technician_skills_def seed_customers_def seed_vehicles_def

lemma seed_compatible:
  "rows_compatible dealership_table seed_dealerships" "rows_compatible business_hours_table seed_hours"
  "rows_compatible skill_table seed_skills" "rows_compatible service_type_table seed_service_types"
  "rows_compatible service_bay_table seed_bays" "rows_compatible technician_table seed_technicians"
  "rows_compatible technician_skill_table seed_technician_skills" "rows_compatible customer_table seed_customers"
  "rows_compatible vehicle_table seed_vehicles"
  by (simp_all add: rows_compatible_def seed_rows table_defs seed_ids unique_column_def)


section \<open>What seeding does\<close>

text \<open>A name, code or vehicle number of the reference data that a row with another identifier holds.\<close>

definition name_taken :: "catalogue \<Rightarrow> bool" where
  "name_taken d \<longleftrightarrow>
     row_taken skill_table seed_skills (db_skills d) \<or> row_taken service_type_table seed_service_types (db_service_types d) \<or>
     row_taken service_bay_table seed_bays (db_bays d) \<or> row_taken vehicle_table seed_vehicles (db_vehicles d)"

definition seeded :: "catalogue \<Rightarrow> bool" where
  "seeded d \<longleftrightarrow> holds_keys dealership_table seed_dealerships d \<and> holds_keys business_hours_table seed_hours d \<and>
     holds_keys skill_table seed_skills d \<and> holds_keys service_type_table seed_service_types d \<and>
     holds_keys service_bay_table seed_bays d \<and> holds_keys technician_table seed_technicians d \<and>
     holds_keys technician_skill_table seed_technician_skills d \<and> holds_keys customer_table seed_customers d \<and>
     holds_keys vehicle_table seed_vehicles d"

lemma never_taken:
  "\<not> row_taken dealership_table rs xs" "\<not> row_taken business_hours_table hs ys" "\<not> row_taken technician_table ts zs"
  "\<not> row_taken technician_skill_table ks us" "\<not> row_taken customer_table cs vs"
  by (simp_all add: row_taken_def table_defs)

lemma table_key:
  "tb_key dealership_table = dlr_id" "tb_key skill_table = skr_id" "tb_key service_type_table = svr_id"
  "tb_key technician_table = ter_id" "tb_key customer_table = cur_id" "tb_key technician_skill_table = id"
  "tb_key service_bay_table = bar_id" "tb_key vehicle_table = ver_id" "tb_key business_hours_table = (\<lambda>r. (hor_dealership r, hor_weekday r))"
  by (simp_all add: table_defs)

text \<open>The foreign keys of the reference rows are met once the tables they refer to are seeded.\<close>

lemma seed_foreign:
  assumes "SeedDealershipID \<in> dlr_id ` set (db_dealerships d)"
  shows "\<forall>r \<in> set seed_hours. tb_foreign business_hours_table d r = None"
    and "\<forall>r \<in> set seed_bays. tb_foreign service_bay_table d r = None"
    and "\<forall>r \<in> set seed_technicians. tb_foreign technician_table d r = None"
    and "skr_id ` set seed_skills \<subseteq> skr_id ` set (db_skills d) \<Longrightarrow> \<forall>r \<in> set seed_service_types. tb_foreign service_type_table d r = None"
    and "skr_id ` set seed_skills \<subseteq> skr_id ` set (db_skills d) \<Longrightarrow> ter_id ` set seed_technicians \<subseteq> ter_id ` set (db_technicians d) \<Longrightarrow>
      \<forall>r \<in> set seed_technician_skills. tb_foreign technician_skill_table d r = None"
    and "cur_id ` set seed_customers \<subseteq> cur_id ` set (db_customers d) \<Longrightarrow> \<forall>r \<in> set seed_vehicles. tb_foreign vehicle_table d r = None"
  using assms
  by (simp_all add: table_defs seed_rows references_def)


lemma conflicts_Nil: "\<not> taken \<Longrightarrow> conflicts_only taken [] d"
  by (simp add: conflicts_only_def)

lemma seed_conflicts: "conflicts_only (name_taken d) seed_statements d"
proof -
  note simps = table_rows table_put never_taken table_key
  have seeded_dealership: "SeedDealershipID \<in> dlr_id ` set ds" if "dlr_id ` set seed_dealerships \<subseteq> dlr_id ` set ds" for ds
    using that by (simp add: seed_rows)
  show ?thesis
    unfolding seed_statements_def
    apply (rule dealerships.conflicts_stage [OF seed_compatible(1)], simp, simp add: simps, unfold simps, drule seeded_dealership)
    apply (rule weekly.conflicts_stage [OF seed_compatible(2) seed_foreign(1)], simp, simp add: simps, unfold simps)
    apply (rule skills.conflicts_stage [OF seed_compatible(3)], simp, simp add: simps name_taken_def, unfold simps)
    apply (rule services.conflicts_stage [OF seed_compatible(4) seed_foreign(4)], simp, simp, simp add: simps name_taken_def, unfold simps)
    apply (rule bays.conflicts_stage [OF seed_compatible(5) seed_foreign(2)], simp, simp add: simps name_taken_def, unfold simps)
    apply (rule technicians.conflicts_stage [OF seed_compatible(6) seed_foreign(3)], simp, simp add: simps, unfold simps)
    apply (rule held_skills.conflicts_stage [OF seed_compatible(7) seed_foreign(5)], simp, simp, simp, simp add: simps, unfold simps)
    apply (rule customers.conflicts_stage [OF seed_compatible(8)], simp, simp add: simps, unfold simps)
    apply (rule vehicles.conflicts_stage [OF seed_compatible(9) seed_foreign(6)], simp, simp, simp add: simps name_taken_def, unfold simps)
    apply (rule conflicts_Nil)
    apply (simp add: name_taken_def)
    done
qed

lemma seed_good: "\<forall>st \<in> set seed_statements. good_statement st"
  by (simp add: seed_statements_def dealerships.good weekly.good skills.good services.good bays.good technicians.good
      held_skills.good customers.good vehicles.good)

lemma seed_reference_Inr:
  assumes "seed_reference d = Inr e"
  shows "grown d e" "catalogue_valid d \<Longrightarrow> catalogue_valid e" "seeded e" "\<not> name_taken d"
proof -
  have r: "run_statements seed_statements d = Inr e" using assms by (simp add: seed_reference_def split: sum.splits)
  show "grown d e" "catalogue_valid d \<Longrightarrow> catalogue_valid e" using script_good [OF r seed_good] by simp_all
  show "\<not> name_taken d" using seed_conflicts [of d] r by (auto simp: conflicts_only_def)
  note h = r _ seed_good
  show "seeded e"
    unfolding seeded_def
    by (intro conjI dealerships.script_holds [OF h] weekly.script_holds [OF h] skills.script_holds [OF h]
        services.script_holds [OF h] bays.script_holds [OF h] technicians.script_holds [OF h] held_skills.script_holds [OF h]
        customers.script_holds [OF h] vehicles.script_holds [OF h])
      (simp_all add: seed_statements_def)
qed

lemma seed_reference_Inl:
  assumes "name_taken d"
  obtains name where "seed_reference d = Inl (EPg (pg_error_of ''23505'' name))"
  using seed_conflicts [of d] assms that by (auto simp: conflicts_only_def seed_reference_def)

lemma seed_reference_again:
  assumes "seeded d"
  shows "seed_reference d = Inr d"
proof -
  have c: "rows_compatible tb rs \<Longrightarrow> \<forall>r \<in> set rs. tb_check tb r = None" for tb :: "('d, 'r, 'k) sql_table" and rs
    by (simp add: rows_compatible_def)
  note again = seed_compatible [THEN c] 
  have "run_statements seed_statements d = Inr d"
    by (rule script_again)
      (use assms in \<open>simp add: seed_statements_def seeded_def holds_keys_def dealerships.insert_into_again weekly.insert_into_again
        skills.insert_into_again services.insert_into_again bays.insert_into_again technicians.insert_into_again
        held_skills.insert_into_again customers.insert_into_again vehicles.insert_into_again again\<close>)
  then show ?thesis by (simp add: seed_reference_def)
qed


lemma seed_reference_total: "\<not> name_taken d \<Longrightarrow> \<exists>e. seed_reference d = Inr e"
  using seed_conflicts [of d] by (auto simp: conflicts_only_def seed_reference_def)

lemma undisturbed_seed:
  assumes "sortedSQLFiles fsys ''seed'' = Inr [name]" "ef_ReadFile fsys (''seed/'' @ name) = Inr body"
    and "me_exec env body = seed_reference" "\<And>n. me_fail env n = None" "\<not> name_taken (mg_schema s)"
  shows "fst (Seed env fsys s) = None"
proof -
  obtain d where "seed_reference (mg_schema s) = Inr d" using seed_reference_total [OF assms(5)] by blast
  then show ?thesis using assms(1-4) by (simp add: Seed_def begin_func_def statement_defs)
qed

text \<open>The reference data in an empty catalogue.\<close>

definition empty_catalogue :: catalogue where
  "empty_catalogue = \<lparr>db_dealerships = [], db_hours = [], db_service_types = [], db_bays = [], db_technicians = [],
     db_technician_skills = [], db_customers = [], db_vehicles = [], db_appointments = [], db_keys = Map.empty, db_skills = []\<rparr>"

definition reference_catalogue :: catalogue where
  "reference_catalogue = \<lparr>db_dealerships = seed_dealerships, db_hours = seed_hours, db_service_types = seed_service_types,
     db_bays = seed_bays, db_technicians = seed_technicians, db_technician_skills = seed_technician_skills,
     db_customers = seed_customers, db_vehicles = seed_vehicles, db_appointments = [], db_keys = Map.empty,
     db_skills = seed_skills\<rparr>"

lemma insert_rows_fresh:
  "rows_compatible tb (rows @ rs) \<Longrightarrow> insert_rows tb rs rows = Inr (rows @ rs)"
proof (induction rs arbitrary: rows)
  case (Cons r rs)
  have "tb_check tb r = None" "tb_key tb r \<notin> tb_key tb ` set rows" "List.map_filter (tb_clash tb r) rows = []"
    using Cons.prems by (auto simp: rows_compatible_def sorted_wrt_append map_filter_Nil)
  then show ?case using Cons.IH [of "rows @ [r]"] Cons.prems by simp
qed simp

lemma empty_valid: "catalogue_valid empty_catalogue"
  by (simp add: catalogue_valid_def table_ok_def table_rows empty_catalogue_def)

lemma seed_empty: "seed_reference empty_catalogue = Inr reference_catalogue"
proof -
  have fresh: "insert_rows tb rs [] = Inr rs" if "rows_compatible tb rs" for tb :: "('d, 'r, 'k) sql_table" and rs
    using insert_rows_fresh [of tb "[]" rs] that by simp
  note f = seed_compatible [THEN fresh]
  have v: "\<exists>e. seed_reference empty_catalogue = Inr e"
    using seed_conflicts [of empty_catalogue]
    by (auto simp: conflicts_only_def seed_reference_def name_taken_def row_taken_def empty_catalogue_def)
  then show ?thesis
    by (auto simp: seed_reference_def seed_statements_def insert_into_def table_rows table_put empty_catalogue_def f
        reference_catalogue_def split: list.splits)
qed

lemma reference_valid: "catalogue_valid reference_catalogue" "seeded reference_catalogue"
  using seed_reference_Inr [OF seed_empty] empty_valid by simp_all

text \<open>It satisfies what the properties of bookings ask of a catalogue.\<close>

text \<open>The identifiers have a common middle.\<close>

definition seed_id :: "char \<Rightarrow> char \<Rightarrow> string" where
  "seed_id c e = c # ''0000000-0000-4000-8000-00000000000'' @ [e]"

lemma canonical_seed_id: "c \<in> set ''1234567'' \<Longrightarrow> e \<in> set ''1234'' \<Longrightarrow> canonical (seed_id c e)"
  by (auto simp: seed_id_def canonical_def is_uuid_def is_hex_def to_lower_def lower_char_def upt_rec)

lemma seed_id_form:
  "SeedDealershipID = seed_id (CHR ''1'') (CHR ''1'')"
  "SeedSkillGeneralServiceID = seed_id (CHR ''2'') (CHR ''1'')"
  "SeedSkillWheelAlignmentID = seed_id (CHR ''2'') (CHR ''2'')"
  "SeedSkillEVHighVoltageID = seed_id (CHR ''2'') (CHR ''3'')"
  "SeedSkillTransmissionID = seed_id (CHR ''2'') (CHR ''4'')"
  "SeedServiceTypeOilChangeID = seed_id (CHR ''3'') (CHR ''1'')"
  "SeedServiceTypeAlignmentID = seed_id (CHR ''3'') (CHR ''2'')"
  "SeedServiceTypeEVDiagnosticID = seed_id (CHR ''3'') (CHR ''3'')"
  "SeedServiceTypeTransmissionID = seed_id (CHR ''3'') (CHR ''4'')"
  "SeedBay1ID = seed_id (CHR ''4'') (CHR ''1'')"
  "SeedBay2ID = seed_id (CHR ''4'') (CHR ''2'')"
  "SeedBayAlignmentID = seed_id (CHR ''4'') (CHR ''3'')"
  "SeedBayEVID = seed_id (CHR ''4'') (CHR ''4'')"
  "SeedTechnicianAnID = seed_id (CHR ''5'') (CHR ''1'')"
  "SeedTechnicianBinhID = seed_id (CHR ''5'') (CHR ''2'')"
  "SeedTechnicianChiID = seed_id (CHR ''5'') (CHR ''3'')"
  "SeedTechnicianDungID = seed_id (CHR ''5'') (CHR ''4'')"
  "SeedCustomerMaiID = seed_id (CHR ''6'') (CHR ''1'')"
  "SeedCustomerQuangID = seed_id (CHR ''6'') (CHR ''2'')"
  "SeedCustomerLinhID = seed_id (CHR ''6'') (CHR ''3'')"
  "SeedVehicleCamryID = seed_id (CHR ''7'') (CHR ''1'')"
  "SeedVehicleVF8ID = seed_id (CHR ''7'') (CHR ''2'')"
  "SeedVehicleCRVID = seed_id (CHR ''7'') (CHR ''3'')"
  "SeedVehicleRangerID = seed_id (CHR ''7'') (CHR ''4'')"
  by (simp_all add: seed_id_def seed_ids)

lemma reference_canonical:
  "list_all canonical [SeedServiceTypeOilChangeID, SeedServiceTypeAlignmentID, SeedServiceTypeEVDiagnosticID,
     SeedServiceTypeTransmissionID, SeedSkillGeneralServiceID, SeedSkillWheelAlignmentID, SeedSkillEVHighVoltageID,
     SeedSkillTransmissionID, SeedBay1ID, SeedBay2ID, SeedBayAlignmentID, SeedBayEVID, SeedTechnicianAnID,
     SeedTechnicianBinhID, SeedTechnicianChiID, SeedTechnicianDungID, SeedCustomerMaiID, SeedCustomerQuangID,
     SeedCustomerLinhID, SeedVehicleCamryID, SeedVehicleVF8ID, SeedVehicleCRVID, SeedVehicleRangerID, SeedDealershipID]"
  by (simp add: seed_id_form canonical_seed_id)

lemma valid_keys_distinct: "catalogue_valid d \<Longrightarrow> keys_distinct (db.truncate d)"
  by (simp add: catalogue_valid_def table_ok_def table_rows table_key keys_distinct_def db.defs)

lemma reference_rows:
  "db_dealerships (db.truncate reference_catalogue) = seed_dealerships" "db_hours (db.truncate reference_catalogue) = seed_hours"
  "db_service_types (db.truncate reference_catalogue) = seed_service_types" "db_bays (db.truncate reference_catalogue) = seed_bays"
  "db_technicians (db.truncate reference_catalogue) = seed_technicians"
  "db_technician_skills (db.truncate reference_catalogue) = seed_technician_skills"
  "db_vehicles (db.truncate reference_catalogue) = seed_vehicles" "db_appointments (db.truncate reference_catalogue) = []"
  "db_keys (db.truncate reference_catalogue) = Map.empty"
  by (simp_all add: reference_catalogue_def db.defs)

lemma reference_ok: "catalogue_ok (db.truncate reference_catalogue)" "db_ok (db.truncate reference_catalogue)"
proof -
  show "catalogue_ok (db.truncate reference_catalogue)"
    using reference_canonical valid_keys_distinct [OF reference_valid(1)]
    by (simp add: catalogue_ok_def reference_rows seed_rows)
  show "db_ok (db.truncate reference_catalogue)" by (simp add: db_ok_def reference_rows no_double_booking_def)
qed

definition reference_session :: pg where
  "reference_session = \<lparr>pg_db = db.truncate reference_catalogue, pg_own_rows = [], pg_own_keys = Map.empty, pg_locks = {},
     pg_open = False, pg_aborted = False, pg_tick = 0\<rparr>"

lemma reference_ready: "store_ready env reference_session"
proof -
  have v: "view reference_session = db.truncate reference_catalogue"
    by (simp add: view_def reference_session_def reference_rows)
  show ?thesis
    using reference_ok
    by (simp add: store_ready_def session_ok_def v reference_rows)
      (simp add: reference_session_def reference_rows idle_def unused_ids_def seed_rows hours_of_row_def minutes_of_time_def
        within_day_hours_def trunc_div_def)
qed

text \<open>
  The selection the comments of the file document: only An and the alignment rig qualify for wheel
  alignment, only Chi and the EV bay for the battery diagnostic, only Binh for transmission service,
  everyone for an oil change.
\<close>

definition qualified_ids :: "pg_env \<Rightarrow> catalogue \<Rightarrow> service_type_row \<Rightarrow> string list \<times> string list" where
  "qualified_ids env d st =
     (map tech_ID (filter (\<lambda>t. HasSkill t (svr_required_skill_id st)) (select_technicians env SeedDealershipID (db.truncate d))),
      map bay_ID (filter (\<lambda>b. bay_Type b = svr_required_bay_type st) (select_bays env SeedDealershipID (db.truncate d))))"

lemma reference_qualified:
  assumes "env_ok env"
  shows "map (qualified_ids env reference_catalogue) seed_service_types =
    [([SeedTechnicianAnID, SeedTechnicianBinhID, SeedTechnicianChiID, SeedTechnicianDungID], [SeedBay1ID, SeedBay2ID]),
     ([SeedTechnicianAnID], [SeedBayAlignmentID]),
     ([SeedTechnicianChiID], [SeedBayEVID]),
     ([SeedTechnicianBinhID], [SeedBay1ID, SeedBay2ID])]"
proof -
  have u: "uuid_arg env SeedDealershipID = SeedDealershipID"
    using uuid_arg_canonical [OF assms] reference_canonical by simp
  have "map (\<lambda>st. (map tech_ID (filter (\<lambda>t. HasSkill t (svr_required_skill_id st))
        (map (\<lambda>t. \<lparr>tech_ID = ter_id t, tech_Name = ter_name t,
               tech_SkillIDs = sort (map snd (filter (\<lambda>p. fst p = ter_id t) seed_technician_skills))\<rparr>)
       (sort_key ter_id (filter (\<lambda>t. ter_dealership t = SeedDealershipID) seed_technicians)))),
      map bay_ID (filter (\<lambda>b. bay_Type b = svr_required_bay_type st)
        (map bay_of_row (sort_key bar_id (filter (\<lambda>b. bar_dealership b = SeedDealershipID) seed_bays)))))) seed_service_types =
    [([SeedTechnicianAnID, SeedTechnicianBinhID, SeedTechnicianChiID, SeedTechnicianDungID], [SeedBay1ID, SeedBay2ID]),
     ([SeedTechnicianAnID], [SeedBayAlignmentID]),
     ([SeedTechnicianChiID], [SeedBayEVID]),
     ([SeedTechnicianBinhID], [SeedBay1ID, SeedBay2ID])]"
    by code_simp
  then show ?thesis by (simp add: qualified_ids_def [abs_def] select_technicians_def select_bays_def reference_rows u)
qed

section \<open>Properties\<close>

text \<open>C28: seeding is safe to repeat. Whatever fails, stored rows, appointments and idempotency records stay as they are
  and a catalogue in order stays so. It fails without an effect when a name, code or vehicle number of the
  reference data belongs to a row with another identifier; when no statement fails for a reason of the
  server's or the connection's, this is the only reason to fail. After a success the reference data is stored under its
  identifiers, and seeding again, as every start with \<^verbatim>\<open>APP_SEED\<close> does, changes nothing.\<close>

theorem reseeding_is_safe:
  assumes "ef_ReadDir fsys ''seed'' = Inr [\<lparr>de_Name = name, de_IsDir = False\<rparr>]" "ef_ReadFile fsys (''seed/'' @ name) = Inr body"
    and "me_exec env body = seed_reference" "catalogue_valid (mg_schema s)" "Seed env fsys s = (err, t)"
  shows "grown (mg_schema s) (mg_schema t) \<and> catalogue_valid (mg_schema t) \<and>
    (name_taken (mg_schema s) \<longrightarrow> err \<noteq> None \<and> mg_schema t = mg_schema s) \<and>
    ((\<forall>n. me_fail env n = None) \<longrightarrow> (err \<noteq> None \<longleftrightarrow> name_taken (mg_schema s))) \<and>
    (err = None \<longrightarrow> seeded (mg_schema t) \<and>
      (\<forall>env' err' u. me_exec env' body = seed_reference \<longrightarrow> Seed env' fsys t = (err', u) \<longrightarrow> mg_schema u = mg_schema t))"
proof -
  have names: "sortedSQLFiles fsys ''seed'' = Inr [name]" using assms(1) by (simp add: sortedSQLFiles_def)
  have one: "run_scripts env' fsys ''seed/'' [name] x = (case seed_reference x of Inl _ \<Rightarrow> None | Inr y \<Rightarrow> Some y)"
    if "me_exec env' body = seed_reference" for env' x
    using assms(2) that by (simp split: sum.split)
  have eff: "mg_schema v = mg_schema u \<and> e \<noteq> None \<or> seed_reference (mg_schema u) = Inr (mg_schema v)"
    if "me_exec env' body = seed_reference" "Seed env' fsys u = (e, v)" for env' e u v
    using Seed_all_or_nothing [OF that(2) names] one [OF that(1)] by (auto split: sum.splits)
  have "mg_schema u = mg_schema t" if "seeded (mg_schema t)" "me_exec env' body = seed_reference" "Seed env' fsys t = (e, u)" for env' e u
    using eff [OF that(2,3)] seed_reference_again [OF that(1)] by auto
  then have again: "seeded (mg_schema t) \<longrightarrow>
      (\<forall>env' err' u. me_exec env' body = seed_reference \<longrightarrow> Seed env' fsys t = (err', u) \<longrightarrow> mg_schema u = mg_schema t)"
    by blast
  have calm: "err = None" if "\<forall>n. me_fail env n = None" "\<not> name_taken (mg_schema s)"
    using undisturbed_seed [OF names assms(2,3) _ that(2)] that(1) assms(5) by simp
  from eff [OF assms(3,5)] show ?thesis
  proof
    assume "mg_schema t = mg_schema s \<and> err \<noteq> None"
    then show ?thesis using assms(4) calm by auto
  next
    assume "seed_reference (mg_schema s) = Inr (mg_schema t)"
    then show ?thesis using seed_reference_Inr [of "mg_schema s" "mg_schema t"] assms(4) again calm by blast
  qed
qed

definition seeding_env :: "catalogue mig_env" where
  "seeding_env = \<lparr>me_exec = (\<lambda>body. seed_reference), me_acquire = None, me_fail = (\<lambda>n. None), me_lost_ack = (\<lambda>n. False)\<rparr>"

definition seed_files :: embed_fs where
  "seed_files = \<lparr>ef_ReadDir = (\<lambda>dir. Inr [\<lparr>de_Name = ''0001_reference_dealership.sql'', de_IsDir = False\<rparr>]), ef_ReadFile = Inr\<rparr>"

theorem reseeding_is_safe_witness:
  "\<exists>t. Seed seeding_env seed_files \<lparr>mg_schema = empty_catalogue, mg_versions = None, mg_locked = False, mg_tick = 0\<rparr> = (None, t) \<and>
    mg_schema t = reference_catalogue \<and>
    (\<forall>err u. Seed seeding_env seed_files t = (err, u) \<longrightarrow> mg_schema u = reference_catalogue)"
proof -
  let ?s = "\<lparr>mg_schema = empty_catalogue, mg_versions = None, mg_locked = False, mg_tick = 0\<rparr>"
  obtain t where t: "Seed seeding_env seed_files ?s = (None, t)" "mg_schema t = reference_catalogue"
    by (simp add: Seed_def sortedSQLFiles_def seed_files_def seeding_env_def begin_func_def statement_defs seed_empty)
  let ?name = "''0001_reference_dealership.sql''"
  have e: "ef_ReadDir seed_files ''seed'' = Inr [\<lparr>de_Name = ?name, de_IsDir = False\<rparr>]"
    "ef_ReadFile seed_files (''seed/'' @ ?name) = Inr (''seed/'' @ ?name)" "catalogue_valid (mg_schema ?s)"
    by (simp_all add: seed_files_def empty_valid)
  have x: "me_exec seeding_env b = seed_reference" for b by (simp add: seeding_env_def)
  have "mg_schema u = reference_catalogue" if "Seed seeding_env seed_files t = (err, u)" for err u
    using reseeding_is_safe [OF e(1,2) x e(3) t(1)] x that t(2) by metis
  then show ?thesis using t by blast
qed

end
