(* ===== verification/Logging.thy ===== *)
theory Logging
  imports Observability
begin

text \<open>
  The handlers behind the logger of \<^verbatim>\<open>logging.go\<close>: \<open>contextHandler\<close> wraps a handler of \<^verbatim>\<open>log/slog\<close> and
  stamps records. A logger derived with attributes or a group must stay wrapped, which is why
  \<^verbatim>\<open>WithAttrs\<close> and \<^verbatim>\<open>WithGroup\<close> are overridden. A line is its level, its message and its attributes
  with the groups they stand in.
\<close>

section \<open>Handlers\<close>

type_synonym log_attrs = "(string \<times> string) list"
type_synonym log_context = "string \<times> (string \<times> string) option"

record log_line =
  ln_Level :: int
  ln_Message :: string
  ln_Attrs :: "(string list \<times> string \<times> string) list"

record 'h slog_handler =
  sh_Enabled :: "int \<Rightarrow> 'h \<Rightarrow> bool"
  sh_Handle :: "log_context \<Rightarrow> log_record \<Rightarrow> 'h \<Rightarrow> log_line"
  sh_WithAttrs :: "log_attrs \<Rightarrow> 'h \<Rightarrow> 'h"
  sh_WithGroup :: "string \<Rightarrow> 'h \<Rightarrow> 'h"

definition in_groups :: "string list \<Rightarrow> log_attrs \<Rightarrow> (string list \<times> string \<times> string) list" where
  "in_groups gs as = map (\<lambda>(k, v). (gs, k, v)) as"

text \<open>\<^verbatim>\<open>slog.JSONHandler\<close>: a level, the open groups and the attributes given before.\<close>

record json_handler =
  jh_Level :: int
  jh_Groups :: "string list"
  jh_Attrs :: "(string list \<times> string \<times> string) list"

definition JSONHandler :: "json_handler slog_handler" where
  "JSONHandler = \<lparr>sh_Enabled = (\<lambda>level h. jh_Level h \<le> level),
     sh_Handle = (\<lambda>ctx r h. \<lparr>ln_Level = lr_Level r, ln_Message = lr_Message r,
       ln_Attrs = jh_Attrs h @ in_groups (jh_Groups h) (lr_Attrs r)\<rparr>),
     sh_WithAttrs = (\<lambda>as h. h\<lparr>jh_Attrs := jh_Attrs h @ in_groups (jh_Groups h) as\<rparr>),
     sh_WithGroup = (\<lambda>g h. h\<lparr>jh_Groups := jh_Groups h @ [g]\<rparr>)\<rparr>"

datatype 'h contextHandler = ContextHandler (inner: 'h)

definition context_handler :: "'h slog_handler \<Rightarrow> 'h contextHandler slog_handler" where
  "context_handler sh = \<lparr>sh_Enabled = (\<lambda>level h. sh_Enabled sh level (inner h)),
     sh_Handle = (\<lambda>ctx r h. sh_Handle sh ctx (stamp_record (fst ctx) (snd ctx) r) (inner h)),
     sh_WithAttrs = (\<lambda>as h. ContextHandler (sh_WithAttrs sh as (inner h))),
     sh_WithGroup = (\<lambda>g h. ContextHandler (sh_WithGroup sh g (inner h)))\<rparr>"

definition NewLogger :: "int \<Rightarrow> json_handler contextHandler" where
  "NewLogger level = ContextHandler \<lparr>jh_Level = level, jh_Groups = [], jh_Attrs = []\<rparr>"

section \<open>Loggers\<close>

text \<open>\<^verbatim>\<open>slog.Logger\<close>: \<^verbatim>\<open>With\<close> and \<^verbatim>\<open>WithGroup\<close> derive a logger, \<^verbatim>\<open>LogAttrs\<close> writes an enabled record.\<close>

datatype derivation = With log_attrs | WithGroup string

fun derive1 :: "'h slog_handler \<Rightarrow> derivation \<Rightarrow> 'h \<Rightarrow> 'h" where
  "derive1 sh (With as) h = (if as = [] then h else sh_WithAttrs sh as h)"
| "derive1 sh (WithGroup g) h = (if g = [] then h else sh_WithGroup sh g h)"

definition derive :: "'h slog_handler \<Rightarrow> derivation list \<Rightarrow> 'h \<Rightarrow> 'h" where
  "derive sh ds h = fold (derive1 sh) ds h"

definition LogAttrs :: "'h slog_handler \<Rightarrow> log_context \<Rightarrow> log_record \<Rightarrow> 'h \<Rightarrow> log_line option" where
  "LogAttrs sh ctx r h = (if sh_Enabled sh (lr_Level r) h then Some (sh_Handle sh ctx r h) else None)"

text \<open>The groups and the attributes a derivation leaves, as a reader of the code would list them.\<close>

fun derived_groups :: "derivation list \<Rightarrow> string list" where
  "derived_groups [] = []"
| "derived_groups (With as # ds) = derived_groups ds"
| "derived_groups (WithGroup g # ds) = (if g = [] then derived_groups ds else g # derived_groups ds)"

fun derived_attrs :: "string list \<Rightarrow> derivation list \<Rightarrow> (string list \<times> string \<times> string) list" where
  "derived_attrs gs [] = []"
| "derived_attrs gs (With as # ds) = in_groups gs as @ derived_attrs gs ds"
| "derived_attrs gs (WithGroup g # ds) = derived_attrs (if g = [] then gs else gs @ [g]) ds"

section \<open>The contract of a handler\<close>

text \<open>
  A handler has a level, open groups and attributes; it writes them, then the attributes of the record
  and what it adds from the context, inside the open groups.
\<close>

locale slog_contract =
  fixes sh :: "'h slog_handler" and level :: "'h \<Rightarrow> int" and groups :: "'h \<Rightarrow> string list"
    and attrs :: "'h \<Rightarrow> (string list \<times> string \<times> string) list" and extra :: "log_context \<Rightarrow> log_attrs"
  assumes enabled: "sh_Enabled sh l h \<longleftrightarrow> level h \<le> l"
    and handle: "sh_Handle sh ctx r h = \<lparr>ln_Level = lr_Level r, ln_Message = lr_Message r,
      ln_Attrs = attrs h @ in_groups (groups h) (lr_Attrs r @ extra ctx)\<rparr>"
    and with_attrs: "level (sh_WithAttrs sh as h) = level h" "groups (sh_WithAttrs sh as h) = groups h"
      "attrs (sh_WithAttrs sh as h) = attrs h @ in_groups (groups h) as"
    and with_group: "level (sh_WithGroup sh g h) = level h" "groups (sh_WithGroup sh g h) = groups h @ [g]"
      "attrs (sh_WithGroup sh g h) = attrs h"
begin

lemma derived:
  "level (derive sh ds h) = level h \<and> groups (derive sh ds h) = groups h @ derived_groups ds \<and>
    attrs (derive sh ds h) = attrs h @ derived_attrs (groups h) ds"
  unfolding derive_def
proof (induction ds arbitrary: h)
  case (Cons d ds)
  then show ?case by (cases d) (auto simp: with_attrs with_group in_groups_def)
qed simp

lemma logged:
  "LogAttrs sh ctx r (derive sh ds h) =
    (if level h \<le> lr_Level r
     then Some \<lparr>ln_Level = lr_Level r, ln_Message = lr_Message r,
       ln_Attrs = attrs h @ derived_attrs (groups h) ds @ in_groups (groups h @ derived_groups ds) (lr_Attrs r @ extra ctx)\<rparr>
     else None)"
  using derived [of ds h] by (simp add: LogAttrs_def enabled handle)

end

interpretation json: slog_contract JSONHandler jh_Level jh_Groups jh_Attrs "\<lambda>ctx. []"
  by unfold_locales (simp_all add: JSONHandler_def)

text \<open>What the stamps add to a record.\<close>

definition stamps :: "log_context \<Rightarrow> log_attrs" where
  "stamps ctx = (if fst ctx \<noteq> [] then [(''correlation_id'', fst ctx)] else []) @
     (case snd ctx of None \<Rightarrow> [] | Some (t, i) \<Rightarrow> [(''trace_id'', t), (''span_id'', i)])"

lemma stamp_record_sel [simp]:
  "lr_Level (stamp_record c s r) = lr_Level r" "lr_Message (stamp_record c s r) = lr_Message r"
  "lr_Attrs (stamp_record c s r) = lr_Attrs r @ stamps (c, s)"
  by (simp_all add: stamp_record_def stamps_def split: option.split)

text \<open>Wrapping keeps the contract and adds the stamps.\<close>

context slog_contract begin

lemma wrapped:
  "slog_contract (context_handler sh) (level \<circ> inner) (groups \<circ> inner) (attrs \<circ> inner) (\<lambda>ctx. stamps ctx @ extra ctx)"
  by unfold_locales (simp_all add: context_handler_def enabled handle with_attrs with_group)

end

interpretation stamping: slog_contract "context_handler JSONHandler" "jh_Level \<circ> inner" "jh_Groups \<circ> inner"
  "jh_Attrs \<circ> inner" "\<lambda>ctx. stamps ctx @ []"
  by (rule json.wrapped)

text \<open>
  Whatever attributes and groups a logger is derived with, a record at or above the level is written
  with them, its own attributes and the stamps of its context, and any other record is not.
\<close>

lemma derived_logger_stamps:
  "LogAttrs (context_handler JSONHandler) ctx r (derive (context_handler JSONHandler) ds (NewLogger l)) =
    (if l \<le> lr_Level r
     then Some \<lparr>ln_Level = lr_Level r, ln_Message = lr_Message r,
       ln_Attrs = derived_attrs [] ds @ in_groups (derived_groups ds) (lr_Attrs r @ stamps ctx)\<rparr>
     else None)"
  by (simp add: stamping.logged NewLogger_def)

text \<open>The line of the request log is the one this logger writes.\<close>

lemma request_logger_writes:
  assumes "h req s = (ops, s1)" "\<And>m u. tl_get lens (tl_put lens m u) = m"
    and "RequestLogger level su lens h req s = (ops, t)"
  shows "case LogAttrs (context_handler JSONHandler) (hr_CorrelationID req, su_span su s1)
      (request_record req (observe_ops (su_size su) ops)) (NewLogger level) of
       None \<Rightarrow> t = s1
     | Some line \<Rightarrow> log_lines (tl_get lens t) = log_lines (tl_get lens s1) @
         [\<lparr>lr_Level = ln_Level line, lr_Message = ln_Message line, lr_Attrs = map snd (ln_Attrs line)\<rparr>]"
proof -
  have g: "map snd (in_groups [] as) = as" for as by (induction as) (auto simp: in_groups_def)
  have r: "stamp_record c sp x = \<lparr>lr_Level = lr_Level x, lr_Message = lr_Message x, lr_Attrs = lr_Attrs x @ stamps (c, sp)\<rparr>" for c sp x
    by (rule log_record.equality) simp_all
  show ?thesis
    using derived_logger_stamps [of _ "request_record req (observe_ops (su_size su) ops)" "[]" level] assms
    by (auto simp: derive_def RequestLogger_def Let_def tl_modify_def g r)
qed

end
