(* ===== verification/Spec2Isabelle.thy ===== *)
theory Spec2Isabelle
  imports Server Effort KeyReuse Catalogue Logging
begin

text \<open>
  A verification of the service scheduler: a Go server that answers when a vehicle can be serviced at a
  dealership and books a technician and a service bay for it, with PostgreSQL as its store. The
  requirements it is written against (\<^verbatim>\<open>docs/requirements.md\<close>) are named by their identifiers.

  \<^bold>\<open>The program.\<close> A request passes the middlewares of \<^verbatim>\<open>internal/observability\<close> and reaches a handler of
  \<^verbatim>\<open>internal/httpapi\<close>, which validates it and calls the scheduler of \<^verbatim>\<open>internal/service\<close>. The
  scheduler reads the catalogue through its repository port, validates the time with
  \<^verbatim>\<open>internal/domain\<close>, and runs the rest of a booking as a function inside one transaction: it locks
  the idempotency key and replays a recorded result, or locks the day, reads the schedule of the day,
  lets the domain select resources, inserts, and retries when the insert loses a race. The repository
  (\<^verbatim>\<open>internal/repository/postgres\<close>) turns each operation into statements; the exclusion
  constraints and foreign keys of the migrations are the last line of defence. \<^verbatim>\<open>cmd/server\<close> reads the
  configuration, waits for the database, migrates and seeds it, and puts the parts together.

  \<^bold>\<open>Theories and code.\<close> A definition has the name of the Go declaration it translates; a loop, a query or
  a branch that is a definition of its own has a descriptive name.

  \<^item> Prelude: \<^verbatim>\<open>int64\<close> wrap-around (\<open>wrap64\<close>), truncated division, stable sorting, decimal and quoted
    text, and the collections of rewrite rules of the other theories.
  \<^item> GoTime: instants as integer nanoseconds with a location, zone lookup, \<^verbatim>\<open>time.Date\<close>, the civil
    calendar, RFC 3339 text. Rfc3339: the parser of that text.
  \<^item> Interval, Errors, Hours, Entity, Policy, Assign, Availability: \<^verbatim>\<open>internal/domain\<close>, one theory per
    file (Assign holds \<^verbatim>\<open>qualification.go\<close> as well).
  \<^item> Ports, Scheduler: \<^verbatim>\<open>internal/service\<close>. An interface is a record of functions that pass the state of
    the implementation; the variables a transaction function assigns in its caller are results.
  \<^item> Database, Session, Postgres: the tables and constraints of the migrations, a session in which
    statements run, and \<^verbatim>\<open>repository.go\<close>, \<^verbatim>\<open>booking_tx.go\<close> and \<^verbatim>\<open>constraints.go\<close> as statements.
  \<^item> Booking, Replay, Quiet, Sample, Guarantees, KeyReuse, Schedule, DayLock, Offered, Effort: the
    scheduler over this repository, what it leaves in the database, how many statements it runs, and the runs of a
    sample dealership.
  \<^item> Wire, Handlers: \<^verbatim>\<open>errors.go\<close>, \<^verbatim>\<open>dto.go\<close>, \<^verbatim>\<open>handlers.go\<close> and \<^verbatim>\<open>router.go\<close> of \<^verbatim>\<open>internal/httpapi\<close>. A
    handler maps a request and a state to the writes on its \<^verbatim>\<open>ResponseWriter\<close> and a state.
  \<^item> Observability: \<^verbatim>\<open>metrics.go\<close>, \<^verbatim>\<open>logging.go\<close> and \<^verbatim>\<open>tracing.go\<close>; a middleware transforms handlers.
    Logging: the handler that stamps log records and the loggers derived from it.
  \<^item> Calendar: an abstract specification of the store of appointments and the simulation.
  \<^item> Migrate, Startup: \<^verbatim>\<open>migrate.go\<close>, \<^verbatim>\<open>internal/config\<close> and the start of \<^verbatim>\<open>cmd/server\<close>. Catalogue:
    the catalogue tables with their constraints, and the reference data of \<^verbatim>\<open>seed.go\<close> and its script.
  \<^item> Server: the assembled server and the properties that span components.

  \<^bold>\<open>The environment.\<close> A session runs one statement at a time. Between two statements, and before the
  result of one, a script acts: other sessions commit appointments and idempotency records, which the
  constraints and the advisory locks this session holds can refuse, and cancel appointments; the
  statement, or a COMMIT, fails with any error of the server, the context or the connection; the answer
  to a commit is lost although it was applied. The script is a parameter (\<open>pe_script\<close>), and unless a
  property names a hypothesis on it, the property holds for every script. The named hypotheses are:
  \<open>foreign_script\<close> (other sessions do not use identifiers the server generated for this one),
  \<open>keyless_script\<close> (nor write idempotency records), \<open>durable_script\<close> (nor store CONTENTION in one),
  \<open>writers_lock_day\<close> (writers of the day's appointments hold its lock, and no stored one reaches into the
  day from before it), \<open>no_deadlocks\<close> (no reported failure is a deadlock or an exclusion that no constraint
  explains), and \<open>quiet\<close> (nothing happens; \<open>calm\<close> makes an environment quiet). Other
  parameters of \<open>pg_env\<close> are the driver's encodings, the server's identifiers and clock, the lock hash
  and the zone data; \<open>env_ok\<close> and \<open>microsecond_times\<close> say what is documented of them. \<open>steady_day\<close> says
  that the offset of a zone does not change around a day, \<open>day_offsets\<close> also admits one change inside it, as
  on the days on which summer time begins or ends.

  \<^bold>\<open>Interfaces.\<close> The locale \<open>policy_contract\<close> is what Assign relies on, \<open>deterministic_policy\<close> what
  makes its choice independent of the order of rows; LeastLoaded satisfies both. \<open>transaction_steps\<close> and
  \<open>booking_store\<close> are what the scheduler relies on from a transaction; the repository is their
  instance. \<open>session_relation\<close> and \<open>whole_session\<close> lift a relation kept by each elementary step to whole
  sessions; their instances are the constraints, the frame, the permanence of rows, the generated
  identifiers, the stored keys, the day lock, the metrics and the calendar. \<open>service_steps\<close> lifts a
  relation kept by the three use cases through handlers, router and middlewares. \<open>catalogue_table\<close> and
  \<open>statement_table\<close> are what the seed script relies on from a table, with one instance per table;
  \<open>slog_contract\<close> is the interface of a log handler, which the library's handler and its wrapper meet.

  \<^bold>\<open>What is shown.\<close> Domain: overlap is the meeting of half-open sets; opening hours are validated exactly; a
  selection is sound, complete, least loaded, independent of row order and precise in its rejections; the
  offered slots are exactly the times a booking would accept; an accepted appointment lies between the
  midnights of its day, changes of the offset included. Store: no double booking, no broken foreign
  key and no lost appointment for any script; a confirmed booking adds one row and a failed one none, unless
  the acknowledgement of its commit is lost; a retry returns the same appointment, and does return it when
  nothing disturbs it before the start of the appointment; a live record decides every booking with its
  key that reaches it; CONTENTION is never recorded, and does not occur while writers lock the day; the
  schedule read is exact;
  appointments evolve as a run of the calendar. HTTP: which requests reach the service, what each is
  answered, the message of every refused body, the status and headers of every error, opacity of internal
  errors, round trip of rendered times, and that an offered time is answered 201 when posted. Telemetry:
  counters balance and agree with the answers, one well-formed correlation id is answered, traced and
  logged, and every derived logger stamps its records. Start: connecting ends, migrations are
  applied as a prefix in the order of their names and once, a serving server is migrated, and seeding
  keeps stored rows, fails for its own part only on a name that is taken, and is idempotent; a database that holds the reference data meets the hypotheses of
  the booking properties (\<open>reference_ready\<close>) and offers the selections its comments describe
  (\<open>reference_qualified\<close>).

  \<^bold>\<open>Bounds and termination.\<close> Every loop of the code is a total function: by structural recursion, for the slot
  grid by the distance to closing time, for the booking attempts by the rest of the budget, which only
  the first attempt can raise; \<open>booking_statements_bounded\<close> bounds the statements of a booking by the
  catalogue alone. The wait for the database has no bound in the code; it is a partial
  function, and \<open>connect_returns\<close> bounds it by 32 pings: 30 seconds are allowed and each round but the
  last takes one. Durations wrap at 64 bits where they are computed from the catalogue, and
  \<open>catalogue_duration_exact\<close> gives the bound; elsewhere times are integers, far from the ends of
  \<^verbatim>\<open>int64\<close> for the years the API can express.

  \<^bold>\<open>Not modelled.\<close> What the migration scripts do to a schema, which is a parameter of the runner (the tables
  and constraints they arrive at are modelled, the seed script as well), and indexes that enforce
  nothing; the bytes of JSON and the routing of paths (\<^verbatim>\<open>encoding/json\<close>, chi), which are parameters;
  chi's RealIP, Recoverer and Timeout middlewares; spans inside the service, the objects of the tracing
  library and the rendering of metrics; log lines written by handlers; listening, signals and the
  shutdown itself, which are I/O; the test container, which no operation of the server uses. A panic
  (of a nil instrumentation, say) is not a value of the model. Concurrency is between sessions, at the
  granularity of statements: one request is followed, the others are the script.
\<close>

end
